(* ===== verification/Prelude.thy ===== *)
theory Prelude
  imports Main "HOL-Library.Word"
begin

text \<open>
  Shared vocabulary of the packet tracer development: machine integers, byte strings, the
  big-endian accessors of Go's \<open>encoding/binary\<close>, Go's \<open>copy\<close> into a fixed array, and the
  NUL-terminated name arrays (\<open>if_name\<close>, \<open>node_name\<close>, \<open>oif_name\<close>) that the code keeps in
  \<open>[16]byte\<close> fields.  Frames and packets are lists of bytes; Go strings are \<open>string\<close>.
\<close>

unbundle bit_operations_syntax

type_synonym byte = "8 word"
type_synonym u16 = "16 word"
type_synonym u32 = "32 word"
type_synonym bytes = "byte list"

named_theorems codec_simps \<open>serialisation and parsing of wire formats\<close>
named_theorems frame_lens \<open>lengths of the byte strings the code builds\<close>
named_theorems go_array \<open>Go arrays and copy\<close>

section \<open>Big-endian integers\<close>

definition get16 :: "byte \<Rightarrow> byte \<Rightarrow> u16" where
  "get16 a b = push_bit 8 (ucast a) OR ucast b"

definition put16 :: "u16 \<Rightarrow> bytes" where
  "put16 w = [ucast (drop_bit 8 w), ucast w]"

definition get32 :: "byte \<Rightarrow> byte \<Rightarrow> byte \<Rightarrow> byte \<Rightarrow> u32" where
  "get32 a b c d =
     push_bit 24 (ucast a) OR push_bit 16 (ucast b) OR push_bit 8 (ucast c) OR ucast d"

definition put32 :: "u32 \<Rightarrow> bytes" where
  "put32 w = [ucast (drop_bit 24 w), ucast (drop_bit 16 w), ucast (drop_bit 8 w), ucast w]"

text \<open>\<open>binary.BigEndian.Uint16(buf[i:i+2])\<close> and \<open>Uint32(buf[i:i+4])\<close>; callers check the length.\<close>

definition u16_at :: "bytes \<Rightarrow> nat \<Rightarrow> u16" where
  "u16_at buf i = get16 (buf ! i) (buf ! (i + 1))"

definition u32_at :: "bytes \<Rightarrow> nat \<Rightarrow> u32" where
  "u32_at buf i = get32 (buf ! i) (buf ! (i + 1)) (buf ! (i + 2)) (buf ! (i + 3))"

text \<open>\<open>binary.BigEndian.PutUint16(buf[i:i+2], w)\<close>, and the slice expression \<open>buf[i:j]\<close>.\<close>

definition put16_at :: "bytes \<Rightarrow> nat \<Rightarrow> u16 \<Rightarrow> bytes" where
  "put16_at buf i w = buf[i := ucast (drop_bit 8 w), i + 1 := ucast w]"

definition slice :: "'a list \<Rightarrow> nat \<Rightarrow> nat \<Rightarrow> 'a list" where
  "slice xs i j = take (j - i) (drop i xs)"

lemma get16_put16 [simp, codec_simps]:
  "get16 (ucast (drop_bit 8 w)) (ucast w) = w"
  by (rule bit_eqI) (auto simp: get16_def bit_simps)

lemma bit_get16:
  "bit (get16 a b) n \<longleftrightarrow> (if n < 8 then bit b n else n < 16 \<and> bit a (n - 8))"
  by (auto simp: get16_def bit_simps dest: bit_imp_le_length)

lemma put16_get16 [simp, codec_simps]:
  "(ucast (drop_bit 8 (get16 a b)) :: byte) = a" "(ucast (get16 a b) :: byte) = b"
  by (rule bit_eqI, simp add: bit_simps bit_get16)+

lemma bit_get32:
  "bit (get32 a b c d) n \<longleftrightarrow>
     (if n < 8 then bit d n else if n < 16 then bit c (n - 8)
      else if n < 24 then bit b (n - 16) else n < 32 \<and> bit a (n - 24))"
  by (auto simp: get32_def bit_simps dest: bit_imp_le_length)

lemma get32_put32 [simp, codec_simps]:
  "get32 (ucast (drop_bit 24 w)) (ucast (drop_bit 16 w)) (ucast (drop_bit 8 w)) (ucast w) = w"
  by (rule bit_eqI) (auto simp: bit_get32 bit_simps)

lemma put32_get32 [simp, codec_simps]:
  "(ucast (drop_bit 24 (get32 a b c d)) :: byte) = a"
  "(ucast (drop_bit 16 (get32 a b c d)) :: byte) = b"
  "(ucast (drop_bit 8 (get32 a b c d)) :: byte) = c"
  "(ucast (get32 a b c d) :: byte) = d"
  by (rule bit_eqI, simp add: bit_simps bit_get32)+

lemma length_put16 [simp, frame_lens]: "length (put16 w) = 2"
  by (simp add: put16_def)

lemma length_put32 [simp, frame_lens]: "length (put32 w) = 4"
  by (simp add: put32_def)

lemma u16_at_put16 [simp, codec_simps]:
  "length xs = i \<Longrightarrow> u16_at (xs @ put16 w @ ys) i = w"
  by (simp add: u16_at_def put16_def nth_append)

lemma u32_at_put32 [simp, codec_simps]:
  "length xs = i \<Longrightarrow> u32_at (xs @ put32 w @ ys) i = w"
  by (simp add: u32_at_def put32_def nth_append)

lemma length_put16_at [simp, frame_lens]: "length (put16_at buf i w) = length buf"
  by (simp add: put16_at_def)

lemma nth_put16_at_other:
  "j \<noteq> i \<Longrightarrow> j \<noteq> i + 1 \<Longrightarrow> put16_at buf i w ! j = buf ! j"
  by (simp add: put16_at_def)

lemma u16_at_put16_at [simp, codec_simps]:
  "i + 1 < length buf \<Longrightarrow> u16_at (put16_at buf i w) i = w"
  by (simp add: u16_at_def put16_at_def)

lemma length_slice [simp, frame_lens]: "length (slice xs i j) = min (j - i) (length xs - i)"
  by (simp add: slice_def)

lemma slice_append [simp, codec_simps]:
  "length xs = i \<Longrightarrow> length ys = j - i \<Longrightarrow> slice (xs @ ys @ zs) i j = ys"
  by (simp add: slice_def)

lemma nth_slice [simp]: "k < j - i \<Longrightarrow> i + k < length xs \<Longrightarrow> slice xs i j ! k = xs ! (i + k)"
  by (simp add: slice_def)

lemma byte_less_256 [simp]: "unat (b :: byte) < 256"
  using unsigned_less [of b, where ?'a = nat] by simp

lemma byte_nibbles [simp]: "unat (b :: byte) div 16 < 16" "unat (b :: byte) mod 16 < 16"
  using byte_less_256 [of b] by arith+

lemma byte_le_255 [simp]: "\<not> 255 < unat (b :: byte)"
  using byte_less_256 [of b] by arith

lemma byte_div_16 [simp]: "\<not> 255 < unat (b :: byte) div 16"
  using byte_less_256 [of b] by arith

lemma unat_word_of_nat_byte [simp]: "n < 256 \<Longrightarrow> unat (word_of_nat n :: byte) = n"
  by (simp add: unsigned_of_nat take_bit_nat_eq_self)

lemma all_less_4: "(\<forall>i<(4::nat). P i) \<longleftrightarrow> P 0 \<and> P 1 \<and> P 2 \<and> P 3"
  by (simp add: numeral_eq_Suc All_less_Suc) (auto simp: numeral_eq_Suc)

lemma all_less_6: "(\<forall>i<(6::nat). P i) \<longleftrightarrow> P 0 \<and> P 1 \<and> P 2 \<and> P 3 \<and> P 4 \<and> P 5"
  by (simp add: numeral_eq_Suc All_less_Suc) (auto simp: numeral_eq_Suc)

section \<open>Go arrays: copy, and NUL-terminated names\<close>

text \<open>
  \<open>copy(dst[:], src)\<close> overwrites a prefix of the array and leaves the rest as it was: a shorter
  source does not clear the tail of what the array held before.
\<close>

definition go_copy :: "'a list \<Rightarrow> 'a list \<Rightarrow> 'a list" where
  "go_copy dst src = take (length dst) src @ drop (length src) dst"

definition NUL :: char where "NUL = CHR 0x00"

definition name_array :: "nat \<Rightarrow> string \<Rightarrow> string" where
  "name_array n s = go_copy (replicate n NUL) s"

text \<open>\<open>byteArrayString\<close>, and the identical loops of \<open>get_interface_name\<close>, \<open>get_node_name\<close>,
  \<open>get_topology_name\<close> and \<open>mac_table_lookup_vlan\<close>: the bytes before the first NUL.\<close>

definition byteArrayString :: "string \<Rightarrow> string" where
  "byteArrayString value = takeWhile (\<lambda>b. b \<noteq> NUL) value"

definition IF_NAME_SIZE :: nat where "IF_NAME_SIZE = 16"

lemma length_go_copy [simp, go_array]: "length (go_copy dst src) = length dst"
  by (simp add: go_copy_def)

lemma go_copy_same_length [go_array]: "length src = length dst \<Longrightarrow> go_copy dst src = src"
  by (simp add: go_copy_def)

lemma length_name_array [simp, go_array]: "length (name_array n s) = n"
  by (simp add: name_array_def)

lemma takeWhile_NUL_pad:
  "NUL \<notin> set s \<Longrightarrow> takeWhile (\<lambda>b. b \<noteq> NUL) (s @ replicate k NUL) = s"
  by (induction s) (auto simp: takeWhile_replicate)

lemma byteArrayString_name_array [simp, go_array]:
  assumes "length s \<le> n" "NUL \<notin> set s"
  shows "byteArrayString (name_array n s) = s"
proof -
  have "name_array n s = s @ replicate (n - length s) NUL"
    using assms by (simp add: name_array_def go_copy_def)
  then show ?thesis
    using assms by (simp add: byteArrayString_def takeWhile_NUL_pad)
qed

lemma go_copy_longer_name:
  assumes "length old \<le> length new" "length new \<le> n" "NUL \<notin> set new"
  shows "byteArrayString (go_copy (name_array n old) new) = new"
proof -
  have "go_copy (name_array n old) new = new @ replicate (n - length new) NUL"
    using assms by (simp add: name_array_def go_copy_def)
  then show ?thesis
    using assms by (simp add: byteArrayString_def takeWhile_NUL_pad)
qed

section \<open>Decimal numerals\<close>

text \<open>Go's \<open>%d\<close> for a non-negative number.\<close>

definition digit :: "nat \<Rightarrow> char" where
  "digit d = char_of (48 + d)"

fun dec :: "nat \<Rightarrow> string" where
  "dec n = (if n < 10 then [digit n] else dec (n div 10) @ [digit (n mod 10)])"

declare dec.simps [simp del]

definition is_digit :: "char \<Rightarrow> bool" where
  "is_digit c \<longleftrightarrow> 48 \<le> (of_char c :: nat) \<and> (of_char c :: nat) \<le> 57"

definition digit_val :: "char \<Rightarrow> nat" where
  "digit_val c = of_char c - 48"

lemma of_char_digit: "d < 10 \<Longrightarrow> of_char (digit d) = 48 + d"
  by (simp add: digit_def of_char_of)

lemma is_digit_digit [simp]: "d < 10 \<Longrightarrow> is_digit (digit d)"
  by (simp add: is_digit_def of_char_digit)

lemma digit_val_digit [simp]: "d < 10 \<Longrightarrow> digit_val (digit d) = d"
  by (simp add: digit_val_def of_char_digit)

lemma digit_digit_val [simp]: "is_digit c \<Longrightarrow> digit (digit_val c) = c"
  by (simp add: digit_def digit_val_def is_digit_def char_of_char)

lemma digit_val_less: "is_digit c \<Longrightarrow> digit_val c < 10"
  by (auto simp: digit_val_def is_digit_def)

lemma dec_less_10: "n < 10 \<Longrightarrow> dec n = [digit n]"
  by (simp add: dec.simps)

lemma dec_step: "n > 0 \<Longrightarrow> d < 10 \<Longrightarrow> dec (10 * n + d) = dec n @ [digit d]"
  by (subst dec.simps) simp

lemma dec_nonempty [simp]: "dec n \<noteq> []"
  by (subst dec.simps) simp

lemma dec_digits: "\<forall>c\<in>set (dec n). is_digit c"
proof (induction n rule: dec.induct)
  case (1 n)
  then show ?case
    by (cases "n < 10") (auto simp: dec.simps [of n])
qed

lemma is_digit_not_dot [simp]: "\<not> is_digit CHR ''.''"
  by (simp add: is_digit_def)

lemma digit_neq_dot [simp]: "d < 10 \<Longrightarrow> digit d \<noteq> CHR ''.''"
  by (metis is_digit_digit is_digit_not_dot)

lemma digit_0: "digit 0 = CHR ''0''"
  by code_simp

lemma digit_eq_0 [simp]: "d < 10 \<Longrightarrow> digit d = CHR ''0'' \<longleftrightarrow> d = 0"
proof
  assume "d < 10" "digit d = CHR ''0''"
  then have "of_char (digit d) = (of_char CHR ''0'' :: nat)" by simp
  with \<open>d < 10\<close> show "d = 0" by (simp add: of_char_digit)
qed (simp add: digit_0)

end
