(* ===== verification/Addr.thy ===== *)
theory Addr
  imports Prelude
begin

text \<open>
  Addresses: \<open>src/src/l3_network.go\<close> and the IP conversions and masks of
  \<open>src/src/l3_routing.go\<close>.  \<open>MacAddr\<close> and \<open>IpAddr\<close> are Go arrays of 6 and 4 bytes; here they
  are datatypes with that many byte fields, so every value has the right length.
\<close>

section \<open>MAC addresses\<close>

datatype MacAddr = Mac byte byte byte byte byte byte

fun mac_bytes :: "MacAddr \<Rightarrow> bytes" where
  "mac_bytes (Mac a b c d e f) = [a, b, c, d, e, f]"

text \<open>\<open>copy(mac[:], buf)\<close> of a slice of at least six bytes.\<close>

definition mac_of :: "bytes \<Rightarrow> MacAddr" where
  "mac_of bs = Mac (bs ! 0) (bs ! 1) (bs ! 2) (bs ! 3) (bs ! 4) (bs ! 5)"

definition mac_at :: "bytes \<Rightarrow> nat \<Rightarrow> MacAddr" where
  "mac_at buf i = mac_of (slice buf i (i + 6))"

definition zero_mac :: MacAddr where "zero_mac = Mac 0 0 0 0 0 0"

definition broadcast_mac :: MacAddr where
  "broadcast_mac = Mac 0xFF 0xFF 0xFF 0xFF 0xFF 0xFF"

lemma length_mac_bytes [simp, frame_lens]: "length (mac_bytes m) = 6"
  by (cases m) simp

lemma mac_of_mac_bytes [simp, codec_simps]: "mac_of (mac_bytes m) = m"
  by (cases m) (simp add: mac_of_def)

lemma mac_at_append [simp, codec_simps]:
  "length xs = i \<Longrightarrow> mac_at (xs @ mac_bytes m @ ys) i = m"
  by (simp add: mac_at_def)

lemma mac_bytes_inject [simp]: "mac_bytes m = mac_bytes m' \<longleftrightarrow> m = m'"
  by (metis mac_of_mac_bytes)

text \<open>\<open>mac_addr_equal\<close> compares byte by byte; the broadcast tests compare with \<open>0xFF\<close>.\<close>

definition mac_addr_equal :: "MacAddr \<Rightarrow> MacAddr \<Rightarrow> bool" where
  "mac_addr_equal mac1 mac2 \<longleftrightarrow> (\<forall>i<6. mac_bytes mac1 ! i = mac_bytes mac2 ! i)"

definition is_broadcast_mac :: "MacAddr \<Rightarrow> bool" where
  "is_broadcast_mac mac \<longleftrightarrow> (\<forall>i<6. mac_bytes mac ! i = 0xFF)"

fun is_mac_broadcast :: "MacAddr \<Rightarrow> bool" where
  "is_mac_broadcast (Mac a b c d e f) \<longleftrightarrow>
     a = 0xFF \<and> b = 0xFF \<and> c = 0xFF \<and> d = 0xFF \<and> e = 0xFF \<and> f = 0xFF"

definition layer2_fill_with_broadcast_mac :: "bytes \<Rightarrow> bytes \<times> bool" where
  "layer2_fill_with_broadcast_mac mac_array =
     (if length mac_array < 6 then (mac_array, False)
      else (replicate 6 0xFF @ drop 6 mac_array, True))"

lemma mac_addr_equal_iff [simp]: "mac_addr_equal m m' \<longleftrightarrow> m = m'"
proof
  assume "mac_addr_equal m m'"
  then have "mac_bytes m = mac_bytes m'"
    by (intro nth_equalityI) (simp_all add: mac_addr_equal_def)
  then show "m = m'" by simp
qed (simp add: mac_addr_equal_def)

lemma is_mac_broadcast_iff: "is_mac_broadcast m \<longleftrightarrow> m = broadcast_mac"
  by (cases m) (simp add: broadcast_mac_def)

lemma is_broadcast_mac_iff: "is_broadcast_mac m \<longleftrightarrow> m = broadcast_mac"
  by (cases m) (simp add: is_broadcast_mac_def broadcast_mac_def all_less_6)

text \<open>\<open>generate_unique_mac_address\<close>: a process-wide counter, its low 40 bits after \<open>0x02\<close>.\<close>

definition generate_unique_mac_address :: "64 word \<Rightarrow> MacAddr \<times> 64 word" where
  "generate_unique_mac_address counter =
     (let value = counter + 1 in
      (Mac 0x02 (ucast (drop_bit 32 value)) (ucast (drop_bit 24 value))
         (ucast (drop_bit 16 value)) (ucast (drop_bit 8 value)) (ucast value), value))"

text \<open>The textual form \<open>%02x:...\<close>, and \<open>set_mac_addr\<close> with \<open>strings.Split\<close> and
  \<open>strconv.ParseUint(part, 16, 8)\<close>.  On failure the Go code has already overwritten the bytes
  before the bad part; the model returns only the success value.\<close>

definition hex_digit :: "nat \<Rightarrow> char" where
  "hex_digit d = (if d < 10 then digit d else char_of (87 + d))"

definition hex2 :: "byte \<Rightarrow> string" where
  "hex2 b = [hex_digit (unat b div 16), hex_digit (unat b mod 16)]"

fun mac_string :: "MacAddr \<Rightarrow> string" where
  "mac_string (Mac a b c d e f) =
     hex2 a @ '':'' @ hex2 b @ '':'' @ hex2 c @ '':'' @ hex2 d @ '':'' @ hex2 e @ '':'' @ hex2 f"

fun split_on :: "char \<Rightarrow> string \<Rightarrow> string list" where
  "split_on sep [] = [[]]"
| "split_on sep (c # cs) =
     (if c = sep then [] # split_on sep cs
      else (case split_on sep cs of [] \<Rightarrow> [[c]] | p # ps \<Rightarrow> (c # p) # ps))"

definition hex_val :: "char \<Rightarrow> nat option" where
  "hex_val c =
     (let n = of_char c :: nat in
      if 48 \<le> n \<and> n \<le> 57 then Some (n - 48)
      else if 97 \<le> n \<and> n \<le> 102 then Some (n - 87)
      else if 65 \<le> n \<and> n \<le> 70 then Some (n - 55)
      else None)"

fun parse_hex8_loop :: "string \<Rightarrow> nat \<Rightarrow> nat option" where
  "parse_hex8_loop [] acc = Some acc"
| "parse_hex8_loop (c # cs) acc =
     (case hex_val c of None \<Rightarrow> None
      | Some d \<Rightarrow> if acc * 16 + d > 255 then None else parse_hex8_loop cs (acc * 16 + d))"

definition parse_hex8 :: "string \<Rightarrow> byte option" where
  "parse_hex8 s = (if s = [] then None else map_option word_of_nat (parse_hex8_loop s 0))"

definition set_mac_addr :: "string \<Rightarrow> MacAddr option" where
  "set_mac_addr mac_str =
     (case map parse_hex8 (split_on CHR '':'' mac_str) of
        [Some a, Some b, Some c, Some d, Some e, Some f] \<Rightarrow> Some (Mac a b c d e f)
      | _ \<Rightarrow> None)"

lemma hex_val_hex_digit: "d < 16 \<Longrightarrow> hex_val (hex_digit d) = Some d"
  by (auto simp: hex_val_def hex_digit_def digit_def of_char_of Let_def)

lemma hex_digit_not_colon: "d < 16 \<Longrightarrow> hex_digit d \<noteq> CHR '':''"
  by (metis hex_val_hex_digit hex_val_def[of "CHR '':''", simplified] option.distinct(1))

lemma parse_hex8_hex2: "parse_hex8 (hex2 b) = Some b"
proof -
  show ?thesis
    by (simp add: parse_hex8_def hex2_def hex_val_hex_digit)
qed

lemma split_on_no_sep: "sep \<notin> set p \<Longrightarrow> split_on sep p = [p]"
  by (induction p) auto

lemma split_on_append: "sep \<notin> set p \<Longrightarrow> split_on sep (p @ sep # s) = p # split_on sep s"
  by (induction p) auto

lemma colon_not_in_hex2: "CHR '':'' \<notin> set (hex2 b)"
  by (simp add: hex2_def) (metis hex_digit_not_colon byte_nibbles)

lemma set_mac_addr_mac_string: "set_mac_addr (mac_string m) = Some m"
  by (cases m)
     (simp add: set_mac_addr_def split_on_append split_on_no_sep colon_not_in_hex2 parse_hex8_hex2)

section \<open>IPv4 addresses\<close>

datatype IpAddr = Ip byte byte byte byte

definition zero_ip :: IpAddr where "zero_ip = Ip 0 0 0 0"

fun ip_bytes :: "IpAddr \<Rightarrow> bytes" where
  "ip_bytes (Ip a b c d) = [a, b, c, d]"

fun ip_set :: "IpAddr \<Rightarrow> nat \<Rightarrow> byte \<Rightarrow> IpAddr" where
  "ip_set (Ip a b c d) i v =
     Ip (if i = 0 then v else a) (if i = 1 then v else b)
        (if i = 2 then v else c) (if i = 3 then v else d)"

definition ip_addr_equal :: "IpAddr \<Rightarrow> IpAddr \<Rightarrow> bool" where
  "ip_addr_equal ip1 ip2 \<longleftrightarrow> (\<forall>i<4. ip_bytes ip1 ! i = ip_bytes ip2 ! i)"

lemma length_ip_bytes [simp]: "length (ip_bytes ip) = 4"
  by (cases ip) simp

lemma ip_addr_equal_iff [simp]: "ip_addr_equal ip ip' \<longleftrightarrow> ip = ip'"
proof
  assume "ip_addr_equal ip ip'"
  then have "ip_bytes ip = ip_bytes ip'"
    by (intro nth_equalityI) (simp_all add: ip_addr_equal_def)
  then show "ip = ip'" by (cases ip; cases ip') simp
qed (simp add: ip_addr_equal_def)

text \<open>\<open>func (ip *IpAddr) String()\<close>.\<close>

fun ip_string :: "IpAddr \<Rightarrow> string" where
  "ip_string (Ip a b c d) =
     dec (unat a) @ ''.'' @ dec (unat b) @ ''.'' @ dec (unat c) @ ''.'' @ dec (unat d)"

text \<open>
  \<open>parseIPv4\<close>: one pass over the bytes with the array under construction, the octet read so
  far, its index, the number of its digits, and whether its first digit was a zero.
\<close>

fun parse_loop :: "string \<Rightarrow> IpAddr \<Rightarrow> nat \<Rightarrow> nat \<Rightarrow> nat \<Rightarrow> bool \<Rightarrow> IpAddr option" where
  "parse_loop [] ip octet octetIndex digits leadingZero =
     (if octetIndex \<noteq> 3 \<or> digits = 0 then None
      else Some (ip_set ip octetIndex (word_of_nat octet)))"
| "parse_loop (character # rest) ip octet octetIndex digits leadingZero =
     (if character = CHR ''.'' then
        (if digits = 0 \<or> octetIndex \<ge> 3 then None
         else parse_loop rest (ip_set ip octetIndex (word_of_nat octet)) 0 (octetIndex + 1) 0 False)
      else if \<not> is_digit character \<or> digits = 3 \<or> (digits > 0 \<and> leadingZero) then None
      else
        (let leadingZero' = (if digits = 0 then character = CHR ''0'' else leadingZero);
             octet' = octet * 10 + digit_val character
         in if octet' > 255 then None
            else parse_loop rest ip octet' octetIndex (digits + 1) leadingZero'))"

definition parseIPv4 :: "string \<Rightarrow> IpAddr option" where
  "parseIPv4 value = parse_loop value zero_ip 0 0 0 False"

text \<open>\<open>set_ip_addr\<close> stores the parsed address and reports success.\<close>

definition set_ip_addr :: "IpAddr \<Rightarrow> string \<Rightarrow> IpAddr \<times> bool" where
  "set_ip_addr ip ip_str = (case parseIPv4 ip_str of None \<Rightarrow> (ip, False) | Some p \<Rightarrow> (p, True))"

subsection \<open>The textual form is canonical\<close>

lemma parse_loop_dec:
  assumes "n < 256" "rest = [] \<or> hd rest = CHR ''.''"
  shows "\<exists>lz. parse_loop (dec n @ rest) ip 0 oi 0 False = parse_loop rest ip n oi (length (dec n)) lz"
proof (cases "n < 10")
  case True
  then show ?thesis
    by (auto simp: dec_less_10 Let_def of_char_digit)
next
  case False
  show ?thesis
  proof (cases "n < 100")
    case True
    with False have "dec n = [digit (n div 10), digit (n mod 10)]" "n div 10 < 10" "n div 10 > 0"
      by (simp_all add: dec.simps [of n] dec_less_10)
    then show ?thesis using assms(1)
      by (auto simp: Let_def)
  next
    case big: False
    with assms have "n div 10 div 10 < 10" "n div 10 div 10 > 0" by auto
    moreover from this have "dec n = [digit (n div 10 div 10), digit (n div 10 mod 10), digit (n mod 10)]"
      using big False by (simp add: dec.simps [of n] dec.simps [of "n div 10"] dec_less_10)
    ultimately show ?thesis using assms(1)
      by (auto simp: Let_def)
  qed
qed


lemma parse_loop_dec_dot:
  assumes "oi < 3" "n < 256"
  shows "parse_loop (dec n @ CHR ''.'' # rest) ip 0 oi 0 False =
    parse_loop rest (ip_set ip oi (word_of_nat n)) 0 (oi + 1) 0 False"
proof -
  obtain lz where "parse_loop (dec n @ CHR ''.'' # rest) ip 0 oi 0 False =
      parse_loop (CHR ''.'' # rest) ip n oi (length (dec n)) lz"
    using parse_loop_dec [OF assms(2), of "CHR ''.'' # rest" ip oi] by auto
  with assms show ?thesis by simp
qed

lemma parse_loop_dec_end:
  assumes "n < 256" "oi = 3"
  shows "parse_loop (dec n) ip 0 oi 0 False = Some (ip_set ip oi (word_of_nat n))"
proof -
  obtain lz where "parse_loop (dec n @ []) ip 0 3 0 False =
      parse_loop [] ip n 3 (length (dec n)) lz"
    using parse_loop_dec [OF assms(1), of "[]" ip 3] by auto
  with assms show ?thesis by simp
qed

lemma parseIPv4_ip_string: "parseIPv4 (ip_string ip) = Some ip"
  by (cases ip) (simp add: parseIPv4_def zero_ip_def parse_loop_dec_dot parse_loop_dec_end)

text \<open>
  Conversely a string that parses is the printed form of its address.  The octet read so far
  is the decimal form of \<open>octet\<close>; \<open>tail_string\<close> is what a correct rest of the input looks like.
\<close>

definition ip_nth :: "IpAddr \<Rightarrow> nat \<Rightarrow> byte" where
  "ip_nth ip i = ip_bytes ip ! i"

definition cur_string :: "nat \<Rightarrow> nat \<Rightarrow> string" where
  "cur_string octet digits = (if digits = 0 then [] else dec octet)"

definition octet_state :: "nat \<Rightarrow> nat \<Rightarrow> bool \<Rightarrow> bool" where
  "octet_state octet digits lz \<longleftrightarrow>
     octet < 256 \<and> (if digits = 0 then octet = 0 else (lz \<longleftrightarrow> octet = 0))"

function tail_string :: "IpAddr \<Rightarrow> nat \<Rightarrow> string" where
  "tail_string ip i = (if i \<ge> 3 then dec (unat (ip_nth ip 3))
                       else dec (unat (ip_nth ip i)) @ ''.'' @ tail_string ip (i + 1))"
  by pat_completeness auto
termination
  by (relation "measure (\<lambda>(ip, i). 3 - i)") auto

declare tail_string.simps [simp del]

lemma ip_nth_ip_set: "i < 4 \<Longrightarrow> ip_nth (ip_set ip i v) j = (if i = j then v else ip_nth ip j)"
  by (cases ip) (auto simp: ip_nth_def nth_Cons' less_Suc_eq numeral_eq_Suc)

lemma octet_state_step:
  assumes "octet_state octet digits lz" "is_digit c" "\<not> (digits > 0 \<and> lz)"
    "octet * 10 + digit_val c \<le> 255"
  shows "octet_state (octet * 10 + digit_val c) (digits + 1)
           (if digits = 0 then c = CHR ''0'' else lz)"
    and "cur_string octet digits @ [c] = cur_string (octet * 10 + digit_val c) (digits + 1)"
proof -
  have v: "digit_val c < 10" and d: "digit (digit_val c) = c"
    using assms(2) by (simp_all add: digit_val_less)
  then have z: "c = CHR ''0'' \<longleftrightarrow> digit_val c = 0" by (metis digit_eq_0)
  show "octet_state (octet * 10 + digit_val c) (digits + 1) (if digits = 0 then c = CHR ''0'' else lz)"
    using assms z by (auto simp: octet_state_def split: if_splits)
  show "cur_string octet digits @ [c] = cur_string (octet * 10 + digit_val c) (digits + 1)"
    using assms v d dec_step [of octet "digit_val c"]
    by (auto simp: cur_string_def octet_state_def dec_less_10 mult.commute split: if_splits)
qed

lemma parse_loop_canonical:
  assumes "parse_loop s ip octet oi digits lz = Some ip'" "octet_state octet digits lz" "oi \<le> 3"
  shows "cur_string octet digits @ s = tail_string ip' oi \<and> (\<forall>j<oi. ip_nth ip' j = ip_nth ip j)"
  using assms
proof (induction s ip octet oi digits lz rule: parse_loop.induct)
  case (1 ip octet oi digits lz)
  then show ?case
    by (auto simp: tail_string.simps [of _ 3] ip_nth_ip_set cur_string_def octet_state_def split: if_splits)
next
  case (2 c rest ip octet oi digits lz)
  show ?case
  proof (cases "c = CHR ''.''")
    case True
    with "2.prems" have oi: "oi < 3" and dg: "digits \<noteq> 0"
      and r: "parse_loop rest (ip_set ip oi (word_of_nat octet)) 0 (oi + 1) 0 False = Some ip'"
      by (auto split: if_splits)
    have "cur_string 0 0 @ rest = tail_string ip' (oi + 1) \<and>
        (\<forall>j<oi + 1. ip_nth ip' j = ip_nth (ip_set ip oi (word_of_nat octet)) j)"
      using "2.IH"(1) [OF True _ r] oi dg by (auto simp: octet_state_def)
    then show ?thesis using oi dg "2.prems"(2) True
      by (auto simp: tail_string.simps [of _ oi] ip_nth_ip_set cur_string_def octet_state_def)
  next
    case False
    let ?lz = "if digits = 0 then c = CHR ''0'' else lz" and ?o = "octet * 10 + digit_val c"
    from False "2.prems" have ok: "is_digit c" "digits \<noteq> 3" "\<not> (digits > 0 \<and> lz)" "?o \<le> 255"
      and r: "parse_loop rest ip ?o oi (digits + 1) ?lz = Some ip'"
      by (auto simp: Let_def split: if_splits)
    note st = octet_state_step [OF "2.prems"(2) ok(1) ok(3) ok(4)]
    have "cur_string ?o (digits + 1) @ rest = tail_string ip' oi \<and> (\<forall>j<oi. ip_nth ip' j = ip_nth ip j)"
      using "2.IH"(2) [OF False _ refl refl _ r st(1) "2.prems"(3)] ok by auto
    with st(2) show ?thesis by (metis append.assoc append_Cons append_Nil)
  qed
qed

lemma tail_string_ip_string: "tail_string ip 0 = ip_string ip"
  by (cases ip) (simp add: tail_string.simps ip_nth_def)

lemma ip_string_parseIPv4: "parseIPv4 s = Some ip \<Longrightarrow> ip_string ip = s"
  using parse_loop_canonical [of s zero_ip 0 0 0 False ip]
  by (simp add: parseIPv4_def octet_state_def cur_string_def tail_string_ip_string)

lemma parseIPv4_iff: "parseIPv4 s = Some ip \<longleftrightarrow> s = ip_string ip"
  by (metis ip_string_parseIPv4 parseIPv4_ip_string)

lemma ip_string_inject [simp]: "ip_string a = ip_string b \<longleftrightarrow> a = b"
  by (metis parseIPv4_ip_string option.inject)


section \<open>Addresses as 32-bit integers\<close>

fun ip_to_u32 :: "IpAddr \<Rightarrow> u32" where
  "ip_to_u32 (Ip a b c d) = get32 a b c d"

text \<open>\<open>binary.BigEndian.PutUint32(addr[:], ip)\<close>, and the four \<open>byte(ip>>k)\<close> of the printers.\<close>

definition u32_to_ip :: "u32 \<Rightarrow> IpAddr" where
  "u32_to_ip ip = Ip (ucast (drop_bit 24 ip)) (ucast (drop_bit 16 ip)) (ucast (drop_bit 8 ip)) (ucast ip)"

definition IPStringToUint32 :: "string \<Rightarrow> string + u32" where
  "IPStringToUint32 ipStr =
     (case parseIPv4 ipStr of
        None \<Rightarrow> Inl (''invalid IP address: '' @ ipStr)
      | Some ip \<Rightarrow> Inr (ip_to_u32 ip))"

definition ip_addr_str_to_int32 :: "string \<Rightarrow> u32 option" where
  "ip_addr_str_to_int32 ip_str = map_option ip_to_u32 (parseIPv4 ip_str)"

definition IPUint32ToString :: "u32 \<Rightarrow> string" where
  "IPUint32ToString ipInt = ip_string (u32_to_ip ipInt)"

definition ip_addr_int32_to_str :: "u32 \<Rightarrow> string \<Rightarrow> string \<times> bool" where
  "ip_addr_int32_to_str ip_int result =
     (if length result < 16 then (result, False)
      else
        (let ip_str = IPUint32ToString ip_int;
             result1 = go_copy result ip_str
         in (if length result > length ip_str then result1[length ip_str := NUL] else result1, True)))"

lemma ip_to_u32_u32_to_ip [simp, codec_simps]: "ip_to_u32 (u32_to_ip w) = w"
  by (simp add: u32_to_ip_def)

lemma u32_to_ip_ip_to_u32 [simp, codec_simps]: "u32_to_ip (ip_to_u32 ip) = ip"
  by (cases ip) (simp add: u32_to_ip_def)

lemma ip_to_u32_inject [simp]: "ip_to_u32 a = ip_to_u32 b \<longleftrightarrow> a = b"
  by (metis u32_to_ip_ip_to_u32)

lemma u32_to_ip_inject [simp]: "u32_to_ip a = u32_to_ip b \<longleftrightarrow> a = b"
  by (metis ip_to_u32_u32_to_ip)

lemma IPUint32ToString_inject [simp]: "IPUint32ToString a = IPUint32ToString b \<longleftrightarrow> a = b"
  by (simp add: IPUint32ToString_def)

lemma parseIPv4_IPUint32ToString [simp]: "parseIPv4 (IPUint32ToString w) = Some (u32_to_ip w)"
  by (simp add: IPUint32ToString_def parseIPv4_ip_string)

lemma IPStringToUint32_ToString [simp]: "IPStringToUint32 (IPUint32ToString w) = Inr w"
  by (simp add: IPStringToUint32_def)

lemma IPStringToUint32_ip_string [simp]: "IPStringToUint32 (ip_string ip) = Inr (ip_to_u32 ip)"
  by (simp add: IPStringToUint32_def parseIPv4_ip_string)

lemma IPStringToUint32_Inr: "IPStringToUint32 s = Inr w \<longleftrightarrow> s = IPUint32ToString w"
proof (cases "parseIPv4 s")
  case None
  then have "s \<noteq> IPUint32ToString w" by auto
  with None show ?thesis by (simp add: IPStringToUint32_def)
next
  case (Some ip)
  then have "s = ip_string ip" by (simp add: parseIPv4_iff)
  with Some show ?thesis
    by (auto simp: IPStringToUint32_def IPUint32ToString_def)
qed

section \<open>Subnet masks\<close>

text \<open>\<open>^uint32(0) << (32 - mask)\<close> for \<open>mask <= 32\<close>: a shift by 32 leaves 0, in Go as here.\<close>

definition mask32 :: "byte \<Rightarrow> u32" where
  "mask32 msk = (if msk = 0 then 0 else push_bit (32 - unat msk) (- 1))"

definition ApplyMask :: "string \<Rightarrow> byte \<Rightarrow> string + string" where
  "ApplyMask ipStr msk =
     (case IPStringToUint32 ipStr of
        Inl e \<Rightarrow> Inl e
      | Inr ipInt \<Rightarrow>
          if msk > 32 then Inl ''invalid mask''
          else Inr (IPUint32ToString (ipInt AND mask32 msk)))"

text \<open>\<open>ip_in_subnet\<close> of \<open>l2_switch.go\<close> masks byte by byte.\<close>

definition mask_bits :: "byte \<Rightarrow> nat \<Rightarrow> byte" where
  "mask_bits msk i =
     (let bits_used = int (unat msk) - int i * 8 in
      if bits_used \<ge> 8 then 0xFF
      else if bits_used > 0 then push_bit (nat (8 - bits_used)) 0xFF
      else 0)"

fun ip_in_subnet_loop :: "nat \<Rightarrow> bytes \<Rightarrow> bytes \<Rightarrow> byte \<Rightarrow> bool" where
  "ip_in_subnet_loop i (p # ps) (q # qs) msk =
     (if p AND mask_bits msk i \<noteq> q AND mask_bits msk i then False
      else ip_in_subnet_loop (i + 1) ps qs msk)"
| "ip_in_subnet_loop i _ _ msk = True"

definition ip_in_subnet :: "IpAddr \<Rightarrow> IpAddr \<Rightarrow> byte \<Rightarrow> bool" where
  "ip_in_subnet ip subnet_ip msk = ip_in_subnet_loop 0 (ip_bytes ip) (ip_bytes subnet_ip) msk"

lemma bit_mask32:
  "msk \<le> 32 \<Longrightarrow> bit (mask32 msk) n \<longleftrightarrow> 32 - unat msk \<le> n \<and> n < 32"
  by (auto simp: mask32_def bit_simps word_le_nat_alt word_neq_0_conv unat_eq_0 unat_gt_0)

lemma mask32_eq_iff:
  assumes "msk \<le> 32"
  shows "(x :: u32) AND mask32 msk = y AND mask32 msk \<longleftrightarrow>
    (\<forall>n. 32 - unat msk \<le> n \<and> n < 32 \<longrightarrow> bit x n = bit y n)"
  using assms by (auto simp: bit_eq_iff bit_simps bit_mask32)

lemma bit_mask_bits:
  assumes "k < 8"
  shows "bit (mask_bits msk i) k \<longleftrightarrow> 8 + i * 8 \<le> unat msk + k"
proof -
  have ff: "(0xFF :: byte) = - 1" by simp
  obtain m where m: "unat msk = m" by simp
  show ?thesis
    using assms unfolding mask_bits_def Let_def ff m by (auto simp: bit_simps)
qed

lemma mask_bits_eq_iff:
  "(p :: byte) AND mask_bits msk i = q AND mask_bits msk i \<longleftrightarrow>
    (\<forall>k<8. 8 + i * 8 \<le> unat msk + k \<longrightarrow> bit p k = bit q k)"
  by (auto simp: bit_eq_iff bit_simps bit_mask_bits dest: bit_imp_le_length)

lemma all_less_32:
  "(\<forall>n<(32::nat). P n) \<longleftrightarrow>
     (\<forall>k<8. P k) \<and> (\<forall>k<8. P (k + 8)) \<and> (\<forall>k<8. P (k + 16)) \<and> (\<forall>k<8. P (k + 24))"
proof -
  have "P n" if "\<forall>k<8. P k" "\<forall>k<8. P (k + 8)" "\<forall>k<8. P (k + 16)" "\<forall>k<8. P (k + 24)" "n < 32" for n
  proof -
    consider "n < 8" | "n - 8 < 8" "n = (n - 8) + 8" | "n - 16 < 8" "n = (n - 16) + 16"
      | "n - 24 < 8" "n = (n - 24) + 24"
      using \<open>n < 32\<close> by linarith
    then show ?thesis using that by (metis)
  qed
  then show ?thesis by auto
qed

lemma ip_in_subnet_masked:
  assumes "msk \<le> 32"
  shows "ip_in_subnet ip sub msk \<longleftrightarrow>
    ip_to_u32 ip AND mask32 msk = ip_to_u32 sub AND mask32 msk"
proof -
  have m: "unat msk \<le> 32" using assms by (simp add: word_le_nat_alt)
  obtain a b c d where ip: "ip = Ip a b c d" by (cases ip)
  obtain a' b' c' d' where sub: "sub = Ip a' b' c' d'" by (cases sub)
  let ?P = "\<lambda>n. 32 - unat msk \<le> n \<longrightarrow> bit (get32 a b c d) n = bit (get32 a' b' c' d') n"
  have "ip_to_u32 ip AND mask32 msk = ip_to_u32 sub AND mask32 msk \<longleftrightarrow> (\<forall>n<32. ?P n)"
    using assms by (auto simp: ip sub mask32_eq_iff)
  also have "\<dots> \<longleftrightarrow> (\<forall>k<8. ?P k) \<and> (\<forall>k<8. ?P (k + 8)) \<and> (\<forall>k<8. ?P (k + 16)) \<and> (\<forall>k<8. ?P (k + 24))"
    by (rule all_less_32)
  also have "(\<forall>k<8. ?P k) \<longleftrightarrow> d AND mask_bits msk 3 = d' AND mask_bits msk 3"
    using m by (auto simp: mask_bits_eq_iff bit_get32)
  also have "(\<forall>k<8. ?P (k + 8)) \<longleftrightarrow> c AND mask_bits msk 2 = c' AND mask_bits msk 2"
    using m by (auto simp: mask_bits_eq_iff bit_get32)
  also have "(\<forall>k<8. ?P (k + 16)) \<longleftrightarrow> b AND mask_bits msk 1 = b' AND mask_bits msk 1"
    using m by (auto simp: mask_bits_eq_iff bit_get32)
  also have "(\<forall>k<8. ?P (k + 24)) \<longleftrightarrow> a AND mask_bits msk 0 = a' AND mask_bits msk 0"
    using m by (auto simp: mask_bits_eq_iff bit_get32)
  finally show ?thesis
    by (auto simp: ip_in_subnet_def ip sub eval_nat_numeral)
qed

lemma ApplyMask_Inr:
  "ApplyMask s msk = Inr net \<longleftrightarrow>
     (\<exists>w. s = IPUint32ToString w \<and> msk \<le> 32 \<and> net = IPUint32ToString (w AND mask32 msk))"
  by (auto simp: ApplyMask_def IPStringToUint32_Inr split: sum.splits)

lemma ApplyMask_IPUint32ToString:
  "msk \<le> 32 \<Longrightarrow> ApplyMask (IPUint32ToString w) msk = Inr (IPUint32ToString (w AND mask32 msk))"
  by (simp add: ApplyMask_def)

lemma ApplyMask_idem: "ApplyMask s msk = Inr net \<Longrightarrow> ApplyMask net msk = Inr net"
  by (auto simp: ApplyMask_Inr and.assoc)

end
