(* ===== verification/Iface.thy ===== *)
theory Iface
  imports Addr
begin

text \<open>
  Interfaces and links: \<open>src/src/interface.go\<close>, the \<open>Interface\<close>, \<open>IntfNwProps\<close> and \<open>Link\<close>
  structs of \<open>src/src/node.go\<close>, and the interface and link part of \<open>src/src/graph.go\<close>.

  Pointers become indices.  An interface is identified by its node's position in the graph's node
  list and its slot in that node's \<open>intf\<close> array (\<open>intf_id\<close>); a link is a position in the store of
  links, because both ends share one mutable \<open>Link\<close> object.  A nil receiver of the Go methods has
  no counterpart: the model's functions take an interface that exists, and lookups that may fail
  return an option.
\<close>

type_synonym intf_id = "nat \<times> nat"

datatype IntfMode = INTF_MODE_L3 | INTF_MODE_ACCESS | INTF_MODE_TRUNK

definition VLAN_TPID :: u16 where "VLAN_TPID = 0x8100"
definition VLAN_MIN :: u16 where "VLAN_MIN = 1"
definition VLAN_MAX :: u16 where "VLAN_MAX = 4094"
definition VLAN_DEFAULT :: u16 where "VLAN_DEFAULT = 1"
definition VLAN_TAG_SIZE :: nat where "VLAN_TAG_SIZE = 4"
definition VLAN_HEADER_SIZE :: nat where "VLAN_HEADER_SIZE = 18"
definition MAX_VLAN_MEMBERSHIP :: nat where "MAX_VLAN_MEMBERSHIP = 10"
definition MAX_INTF_PER_NODE :: nat where "MAX_INTF_PER_NODE = 10"

text \<open>The 802.1Q tag control field.\<close>

definition make_tci :: "byte \<Rightarrow> byte \<Rightarrow> u16 \<Rightarrow> u16" where
  "make_tci pcp dei vlan_id =
     push_bit 13 (ucast (pcp AND 7)) OR push_bit 12 (ucast (dei AND 1)) OR (vlan_id AND 0x0FFF)"

definition extract_vlan_id :: "u16 \<Rightarrow> u16" where
  "extract_vlan_id tci = tci AND 0x0FFF"

lemma extract_vlan_id_make_tci:
  "extract_vlan_id (make_tci pcp dei vlan) = vlan AND 0x0FFF"
proof -
  have f: "(0x0FFF :: u16) = Bit_Operations.mask 12" by (simp add: mask_eq_exp_minus_1)
  show ?thesis unfolding extract_vlan_id_def make_tci_def f
    by (rule bit_eqI) (auto simp: bit_simps)
qed

lemma vlan_max_mask:
  assumes "v \<le> VLAN_MAX" shows "v AND 0x0FFF = v"
proof -
  have f: "(0x0FFF :: u16) = Bit_Operations.mask 12" by (simp add: mask_eq_exp_minus_1)
  have "unat v < 2 ^ 12" using assms by (simp add: VLAN_MAX_def word_le_nat_alt)
  then have "take_bit 12 v = v"
    by (simp add: word_unat_eq_iff unsigned_take_bit_eq take_bit_nat_eq_self)
  then show ?thesis by (simp add: f take_bit_eq_mask)
qed

section \<open>Interface state\<close>

record IntfNwProps =
  is_ip_addr_config :: bool
  ip_addr :: IpAddr
  ip_mask :: byte
  mac_addr :: MacAddr
  mode :: IntfMode
  access_vlan :: u16
  native_vlan :: u16
  allowed_vlans :: "u16 list"
  allowed_vlan_count :: nat

record Interface =
  if_name :: string
  link :: "nat option"
  intf_nw_props :: IntfNwProps

record Link =
  intf1 :: intf_id
  intf2 :: intf_id
  cost :: u32
  up :: bool

text \<open>\<open>init_intf_nw_props\<close> of graph.go: an access port in the default VLAN.\<close>

definition init_intf_nw_props :: IntfNwProps where
  "init_intf_nw_props =
     \<lparr>is_ip_addr_config = False, ip_addr = zero_ip, ip_mask = 0, mac_addr = zero_mac,
      mode = INTF_MODE_ACCESS, access_vlan = VLAN_DEFAULT, native_vlan = VLAN_DEFAULT,
      allowed_vlans = replicate MAX_VLAN_MEMBERSHIP 0, allowed_vlan_count = 0\<rparr>"

definition get_interface_name :: "Interface \<Rightarrow> string" where
  "get_interface_name intf = byteArrayString (if_name intf)"

definition GetMac :: "Interface \<Rightarrow> MacAddr" where
  "GetMac intf = mac_addr (intf_nw_props intf)"

definition GetIP :: "Interface \<Rightarrow> IpAddr" where
  "GetIP intf = ip_addr (intf_nw_props intf)"

definition GetMask :: "Interface \<Rightarrow> byte" where
  "GetMask intf = ip_mask (intf_nw_props intf)"

definition IsIPConfigured :: "Interface \<Rightarrow> bool" where
  "IsIPConfigured intf = is_ip_addr_config (intf_nw_props intf)"

definition IS_INTF_L3_MODE :: "Interface \<Rightarrow> bool" where
  "IS_INTF_L3_MODE intf = is_ip_addr_config (intf_nw_props intf)"

definition GetVLANMode :: "Interface \<Rightarrow> IntfMode" where
  "GetVLANMode intf = mode (intf_nw_props intf)"

definition GetAccessVLAN :: "Interface \<Rightarrow> u16" where
  "GetAccessVLAN intf = access_vlan (intf_nw_props intf)"

definition GetNativeVLAN :: "Interface \<Rightarrow> u16" where
  "GetNativeVLAN intf = native_vlan (intf_nw_props intf)"

text \<open>\<open>IsVLANAllowed\<close>.  The trunk loop reads \<open>allowed_vlans[0..allowed_vlan_count)\<close>.\<close>

definition IsVLANAllowed :: "Interface \<Rightarrow> u16 \<Rightarrow> bool" where
  "IsVLANAllowed intf vlan_id =
     (if IS_INTF_L3_MODE intf then True
      else if mode (intf_nw_props intf) = INTF_MODE_ACCESS then
        (if access_vlan (intf_nw_props intf) = 0 then False
         else vlan_id = access_vlan (intf_nw_props intf))
      else if mode (intf_nw_props intf) = INTF_MODE_TRUNK then
        list_ex (\<lambda>v. v = vlan_id)
          (take (allowed_vlan_count (intf_nw_props intf)) (allowed_vlans (intf_nw_props intf)))
      else False)"

section \<open>Mode changes\<close>

definition vlan_in_range :: "u16 \<Rightarrow> bool" where
  "vlan_in_range v \<longleftrightarrow> \<not> (v < VLAN_MIN \<or> v > VLAN_MAX)"

fun allowed_vlans_valid :: "u16 list \<Rightarrow> u16 list \<Rightarrow> bool" where
  "allowed_vlans_valid seen [] = True"
| "allowed_vlans_valid seen (v # vs) =
     (if \<not> vlan_in_range v \<or> v \<in> set seen then False else allowed_vlans_valid (v # seen) vs)"

definition SetInterfaceL2Mode ::
  "Interface \<Rightarrow> IntfMode \<Rightarrow> u16 \<Rightarrow> u16 \<Rightarrow> u16 list \<Rightarrow> Interface \<times> bool" where
  "SetInterfaceL2Mode intf m vlan_id nat_vlan allowed =
     (if m \<noteq> INTF_MODE_ACCESS \<and> m \<noteq> INTF_MODE_TRUNK then (intf, False)
      else if m = INTF_MODE_ACCESS \<and> \<not> vlan_in_range vlan_id then (intf, False)
      else if m = INTF_MODE_TRUNK \<and>
              (\<not> vlan_in_range nat_vlan \<or> length allowed > MAX_VLAN_MEMBERSHIP
               \<or> \<not> allowed_vlans_valid [] allowed) then (intf, False)
      else
        (let p = intf_nw_props intf;
             p1 = (if is_ip_addr_config p
                   then p\<lparr>is_ip_addr_config := False, ip_addr := zero_ip, ip_mask := 0\<rparr> else p)
         in if m = INTF_MODE_ACCESS
            then (intf\<lparr>intf_nw_props := p1\<lparr>mode := INTF_MODE_ACCESS, access_vlan := vlan_id,
                       allowed_vlan_count := 0\<rparr>\<rparr>, True)
            else (intf\<lparr>intf_nw_props := p1\<lparr>mode := INTF_MODE_TRUNK, native_vlan := nat_vlan,
                       allowed_vlan_count := length allowed,
                       allowed_vlans := go_copy (allowed_vlans p1) allowed\<rparr>\<rparr>, True)))"

definition SetInterfaceL3Mode :: "Interface \<Rightarrow> string \<Rightarrow> byte \<Rightarrow> Interface \<times> bool" where
  "SetInterfaceL3Mode intf ip_str msk =
     (if msk > 32 then (intf, False)
      else case parseIPv4 ip_str of
        None \<Rightarrow> (intf, False)
      | Some ip \<Rightarrow>
          (intf\<lparr>intf_nw_props := (intf_nw_props intf)
             \<lparr>mode := INTF_MODE_L3, access_vlan := VLAN_DEFAULT, native_vlan := VLAN_DEFAULT,
              allowed_vlan_count := 0, ip_addr := ip, ip_mask := msk,
              is_ip_addr_config := True\<rparr>\<rparr>, True))"

definition SetIPConfig :: "Interface \<Rightarrow> string \<Rightarrow> byte \<Rightarrow> Interface \<times> bool" where
  "SetIPConfig intf ip_str msk = SetInterfaceL3Mode intf ip_str msk"

definition SetAccessVLAN :: "Interface \<Rightarrow> u16 \<Rightarrow> Interface \<times> bool" where
  "SetAccessVLAN intf vlan_id =
     (if vlan_id < VLAN_MIN \<or> vlan_id > VLAN_MAX then (intf, False)
      else SetInterfaceL2Mode intf INTF_MODE_ACCESS vlan_id 0 [])"

definition SetTrunkConfig :: "Interface \<Rightarrow> u16 \<Rightarrow> u16 list \<Rightarrow> Interface \<times> bool" where
  "SetTrunkConfig intf nat_vlan allowed =
     (if nat_vlan < VLAN_MIN \<or> nat_vlan > VLAN_MAX then (intf, False)
      else SetInterfaceL2Mode intf INTF_MODE_TRUNK 0 nat_vlan allowed)"

section \<open>The well-formed interface\<close>

text \<open>
  What the setters maintain: the address flag and the mode agree, the configured VLANs are real
  VLAN identifiers, and the trunk list fits its ten-element array without duplicates.
\<close>

definition trunk_vlans :: "Interface \<Rightarrow> u16 list" where
  "trunk_vlans intf = take (allowed_vlan_count (intf_nw_props intf)) (allowed_vlans (intf_nw_props intf))"

definition wf_intf :: "Interface \<Rightarrow> bool" where
  "wf_intf intf \<longleftrightarrow>
     (let p = intf_nw_props intf in
      is_ip_addr_config p = (mode p = INTF_MODE_L3) \<and>
      (is_ip_addr_config p \<longrightarrow> ip_mask p \<le> 32) \<and>
      vlan_in_range (access_vlan p) \<and> vlan_in_range (native_vlan p) \<and>
      length (allowed_vlans p) = MAX_VLAN_MEMBERSHIP \<and>
      allowed_vlan_count p \<le> MAX_VLAN_MEMBERSHIP \<and>
      list_all vlan_in_range (trunk_vlans intf) \<and> distinct (trunk_vlans intf))"

lemma allowed_vlans_valid_iff:
  "allowed_vlans_valid seen vs \<longleftrightarrow>
     list_all vlan_in_range vs \<and> distinct vs \<and> set vs \<inter> set seen = {}"
  by (induction seen vs rule: allowed_vlans_valid.induct) auto

lemma vlan_in_range_default [simp]: "vlan_in_range VLAN_DEFAULT"
  by (simp add: vlan_in_range_def VLAN_DEFAULT_def VLAN_MIN_def VLAN_MAX_def)

lemma vlan_in_range_mask [simp]: "vlan_in_range v \<Longrightarrow> v AND 0x0FFF = v"
  by (rule vlan_max_mask) (simp add: vlan_in_range_def not_less)

lemma wf_init_intf: "wf_intf \<lparr>if_name = n, link = l, intf_nw_props = init_intf_nw_props\<lparr>mac_addr := m\<rparr>\<rparr>"
  by (simp add: wf_intf_def init_intf_nw_props_def trunk_vlans_def)

lemma wf_SetInterfaceL2Mode:
  "wf_intf intf \<Longrightarrow> wf_intf (fst (SetInterfaceL2Mode intf m v nv vs))"
  by (auto simp: SetInterfaceL2Mode_def wf_intf_def Let_def trunk_vlans_def go_copy_def
      allowed_vlans_valid_iff)

lemma wf_SetInterfaceL3Mode:
  "wf_intf intf \<Longrightarrow> wf_intf (fst (SetInterfaceL3Mode intf s m))"
  by (auto simp: SetInterfaceL3Mode_def wf_intf_def Let_def trunk_vlans_def split: option.splits)

lemmas wf_intf_setters = wf_SetInterfaceL2Mode wf_SetInterfaceL3Mode

lemma wf_SetAccessVLAN: "wf_intf intf \<Longrightarrow> wf_intf (fst (SetAccessVLAN intf v))"
  by (simp add: SetAccessVLAN_def wf_intf_setters)

lemma wf_SetTrunkConfig: "wf_intf intf \<Longrightarrow> wf_intf (fst (SetTrunkConfig intf nv vs))"
  by (simp add: SetTrunkConfig_def wf_intf_setters)

text \<open>A rejected change leaves the interface as it was.\<close>

lemma SetInterfaceL2Mode_rejected:
  "SetInterfaceL2Mode intf m v nv vs = (intf', False) \<Longrightarrow> intf' = intf"
  by (auto simp: SetInterfaceL2Mode_def Let_def split: if_splits)

lemma SetInterfaceL3Mode_rejected:
  "SetInterfaceL3Mode intf s m = (intf', False) \<Longrightarrow> intf' = intf"
  by (auto simp: SetInterfaceL3Mode_def split: if_splits option.splits)

text \<open>What an accepted change makes the port carry.\<close>

lemma SetAccessVLAN_accepted:
  "SetAccessVLAN intf v = (intf', True) \<Longrightarrow>
     IsVLANAllowed intf' w = (w = v) \<and> GetVLANMode intf' = INTF_MODE_ACCESS \<and> GetAccessVLAN intf' = v"
  by (auto simp: SetAccessVLAN_def SetInterfaceL2Mode_def Let_def IsVLANAllowed_def
      IS_INTF_L3_MODE_def GetVLANMode_def GetAccessVLAN_def VLAN_MIN_def split: if_splits)

lemma SetTrunkConfig_accepted:
  assumes "SetTrunkConfig intf nv vs = (intf', True)" "length (allowed_vlans (intf_nw_props intf)) = MAX_VLAN_MEMBERSHIP"
  shows "IsVLANAllowed intf' w = (w \<in> set vs) \<and> GetVLANMode intf' = INTF_MODE_TRUNK \<and> GetNativeVLAN intf' = nv"
  using assms
  by (auto simp: SetTrunkConfig_def SetInterfaceL2Mode_def Let_def IsVLANAllowed_def list_ex_iff
      IS_INTF_L3_MODE_def GetVLANMode_def GetNativeVLAN_def go_copy_def split: if_splits)

section \<open>Interface slots and links\<close>

text \<open>A node's \<open>intf\<close> array: ten slots, each empty or an interface.\<close>

type_synonym intf_array = "Interface option list"

fun slot_loop :: "nat \<Rightarrow> intf_array \<Rightarrow> nat option" where
  "slot_loop i [] = None"
| "slot_loop i (None # xs) = Some i"
| "slot_loop i (Some _ # xs) = slot_loop (i + 1) xs"

definition get_node_intf_available_slot :: "intf_array \<Rightarrow> nat option" where
  "get_node_intf_available_slot intfs = slot_loop 0 intfs"

fun if_by_name_loop :: "nat \<Rightarrow> intf_array \<Rightarrow> string \<Rightarrow> nat option" where
  "if_by_name_loop i [] name = None"
| "if_by_name_loop i (None # xs) name = if_by_name_loop (i + 1) xs name"
| "if_by_name_loop i (Some intf # xs) name =
     (if get_interface_name intf = name then Some i else if_by_name_loop (i + 1) xs name)"

definition get_node_if_by_name :: "intf_array \<Rightarrow> string \<Rightarrow> nat option" where
  "get_node_if_by_name intfs name = if_by_name_loop 0 intfs name"

text \<open>\<open>node_get_matching_intf_by_name\<close>: the same search, refusing the empty name.\<close>

definition node_get_matching_intf_by_name :: "intf_array \<Rightarrow> string \<Rightarrow> nat option" where
  "node_get_matching_intf_by_name intfs name = (if name = [] then None else get_node_if_by_name intfs name)"

definition intf_at :: "intf_array \<Rightarrow> nat \<Rightarrow> Interface option" where
  "intf_at intfs i = (if i < length intfs then intfs ! i else None)"

lemma if_by_name_loop_Some:
  "if_by_name_loop k intfs name = Some i \<Longrightarrow>
     k \<le> i \<and> i < k + length intfs \<and> (\<exists>intf. intfs ! (i - k) = Some intf \<and> get_interface_name intf = name)"
proof (induction k intfs name rule: if_by_name_loop.induct)
  case (2 i xs name)
  then show ?case by (auto simp: nth_Cons' Suc_diff_Suc)
next
  case (3 i intf xs name)
  then show ?case by (auto simp: nth_Cons' Suc_diff_Suc split: if_splits)
qed simp

lemma get_node_if_by_name_Some:
  "get_node_if_by_name intfs name = Some i \<Longrightarrow>
     \<exists>intf. intf_at intfs i = Some intf \<and> get_interface_name intf = name"
  using if_by_name_loop_Some [of 0 intfs name i] by (auto simp: get_node_if_by_name_def intf_at_def)

lemma if_by_name_loop_None:
  "if_by_name_loop k intfs name = None \<longleftrightarrow>
     (\<forall>intf. Some intf \<in> set intfs \<longrightarrow> get_interface_name intf \<noteq> name)"
  by (induction k intfs name rule: if_by_name_loop.induct) auto

lemma get_node_if_by_name_None:
  "get_node_if_by_name intfs name = None \<longleftrightarrow>
     (\<forall>intf. Some intf \<in> set intfs \<longrightarrow> get_interface_name intf \<noteq> name)"
  by (simp add: get_node_if_by_name_def if_by_name_loop_None)

text \<open>\<open>create_node_interface\<close>: a fresh MAC, the first free slot, no duplicate name.\<close>

definition create_node_interface ::
  "intf_array \<Rightarrow> 64 word \<Rightarrow> string \<Rightarrow> string + (intf_array \<times> 64 word)" where
  "create_node_interface intfs counter interface_name =
     (if get_node_if_by_name intfs interface_name \<noteq> None then Inl ''interface already exists''
      else case get_node_intf_available_slot intfs of
        None \<Rightarrow> Inl ''node supports at most 10 interfaces''
      | Some slot \<Rightarrow>
          (let (mac, counter') = generate_unique_mac_address counter;
               intf = \<lparr>if_name = name_array IF_NAME_SIZE interface_name, link = None,
                       intf_nw_props = init_intf_nw_props\<lparr>mac_addr := mac\<rparr>\<rparr>
           in Inr (intfs[slot := Some intf], counter')))"

definition IsUp :: "Link list \<Rightarrow> nat option \<Rightarrow> bool" where
  "IsUp lks l = (case l of None \<Rightarrow> False | Some k \<Rightarrow> k < length lks \<and> up (lks ! k))"

definition get_remote_interface :: "Link list \<Rightarrow> intf_id \<Rightarrow> Interface \<Rightarrow> intf_id option" where
  "get_remote_interface lks self local_intf =
     (case link local_intf of
        None \<Rightarrow> None
      | Some k \<Rightarrow>
          (if k \<ge> length lks then None
           else if intf1 (lks ! k) = self then Some (intf2 (lks ! k))
           else if intf2 (lks ! k) = self then Some (intf1 (lks ! k))
           else None))"

text \<open>
  \<open>insert_link_between_two_nodes\<close> on the nodes' interface arrays (\<open>arrs ! n\<close> is the array of
  node \<open>n\<close>).  The Go code checks both ends before it creates the link.
\<close>

definition set_intf_link :: "nat \<Rightarrow> Interface option \<Rightarrow> Interface option" where
  "set_intf_link k = map_option (\<lambda>intf. intf\<lparr>link := Some k\<rparr>)"

definition upd_arr :: "intf_array list \<Rightarrow> intf_id \<Rightarrow> (Interface option \<Rightarrow> Interface option) \<Rightarrow> intf_array list" where
  "upd_arr arrs x f = arrs[fst x := (arrs ! fst x)[snd x := f (arrs ! fst x ! snd x)]]"

definition insert_link_between_two_nodes ::
  "intf_array list \<Rightarrow> Link list \<Rightarrow> nat \<Rightarrow> nat \<Rightarrow> string \<Rightarrow> string \<Rightarrow> u32
     \<Rightarrow> string + (intf_array list \<times> Link list)" where
  "insert_link_between_two_nodes arrs lks n1 n2 from_if to_if c =
     (case (get_node_if_by_name (arrs ! n1) from_if, get_node_if_by_name (arrs ! n2) to_if) of
        (Some i1, Some i2) \<Rightarrow>
          (case (arrs ! n1 ! i1, arrs ! n2 ! i2) of
             (Some a, Some b) \<Rightarrow>
               (if link a \<noteq> None \<or> link b \<noteq> None
                then Inl ''an interface cannot be connected to more than one link''
                else
                  (let k = length lks;
                       arrs1 = upd_arr arrs (n1, i1) (set_intf_link k);
                       arrs2 = upd_arr arrs1 (n2, i2) (set_intf_link k)
                   in Inr (arrs2, lks @ [\<lparr>intf1 = (n1, i1), intf2 = (n2, i2), cost = c, up = True\<rparr>])))
           | _ \<Rightarrow> Inl ''cannot link missing interfaces'')
      | _ \<Rightarrow> Inl ''cannot link missing interfaces'')"

end
