(* ===== verification/Ether.thy ===== *)
theory Ether
  imports Iface
begin

text \<open>
  Ethernet frames and 802.1Q tags: the codecs of \<open>src/src/l2_ethernet.go\<close> and all of
  \<open>src/src/l2_vlan.go\<close>.  A frame on the wire is its list of bytes.
\<close>

definition ETHERNET_HDR_SIZE :: nat where "ETHERNET_HDR_SIZE = 14"
definition ETHERTYPE_IP :: u16 where "ETHERTYPE_IP = 0x0800"
definition ETHERTYPE_ARP :: u16 where "ETHERTYPE_ARP = 0x0806"
definition ETHERTYPE_IPV6 :: u16 where "ETHERTYPE_IPV6 = 0x86DD"
definition ETHERTYPE_VLAN :: u16 where "ETHERTYPE_VLAN = 0x8100"
definition ETHERTYPE_LLDP :: u16 where "ETHERTYPE_LLDP = 0x88CC"

definition lldpMulticastMAC :: MacAddr where
  "lldpMulticastMAC = Mac 0x01 0x80 0xC2 0x00 0x00 0x0E"

definition stpBridgeGroupMAC :: MacAddr where
  "stpBridgeGroupMAC = Mac 0x01 0x80 0xC2 0x00 0x00 0x00"

definition isLLDPMulticastMAC :: "MacAddr \<Rightarrow> bool" where
  "isLLDPMulticastMAC mac \<longleftrightarrow> mac = lldpMulticastMAC"

definition isSTPBridgeGroupMAC :: "MacAddr \<Rightarrow> bool" where
  "isSTPBridgeGroupMAC mac \<longleftrightarrow> mac = stpBridgeGroupMAC"

lemmas ethertype_defs = ETHERTYPE_IP_def ETHERTYPE_ARP_def ETHERTYPE_IPV6_def ETHERTYPE_VLAN_def
  ETHERTYPE_LLDP_def VLAN_TPID_def

lemmas size_defs [frame_lens] = ETHERNET_HDR_SIZE_def VLAN_HEADER_SIZE_def VLAN_TAG_SIZE_def

section \<open>The Ethernet II header\<close>

record EthernetHeader =
  dst_mac :: MacAddr
  src_mac :: MacAddr
  ethertype :: u16

record EthernetFrame =
  fr_header :: EthernetHeader
  fr_payload :: bytes
  fr_fcs :: u32

definition serialize_ethernet_header :: "EthernetHeader \<Rightarrow> bytes" where
  "serialize_ethernet_header hdr =
     mac_bytes (dst_mac hdr) @ mac_bytes (src_mac hdr) @ put16 (ethertype hdr)"

definition deserialize_ethernet_header :: "bytes \<Rightarrow> string + EthernetHeader" where
  "deserialize_ethernet_header buffer =
     (if length buffer < ETHERNET_HDR_SIZE then Inl ''buffer too small for Ethernet header''
      else Inr \<lparr>dst_mac = mac_at buffer 0, src_mac = mac_at buffer 6, ethertype = u16_at buffer 12\<rparr>)"

definition serialize_ethernet_frame :: "EthernetFrame \<Rightarrow> bytes" where
  "serialize_ethernet_frame frame = serialize_ethernet_header (fr_header frame) @ fr_payload frame"

text \<open>\<open>tag_packet_with_ethernet_hdr\<close>: a zeroed header around the first \<open>pkt_size\<close> bytes.\<close>

definition tag_packet_with_ethernet_hdr :: "bytes \<Rightarrow> nat \<Rightarrow> EthernetFrame option" where
  "tag_packet_with_ethernet_hdr pkt pkt_size =
     (if pkt_size = 0 then None
      else Some \<lparr>fr_header = \<lparr>dst_mac = zero_mac, src_mac = zero_mac, ethertype = 0\<rparr>,
                 fr_payload = take (if pkt_size > length pkt then length pkt else pkt_size) pkt,
                 fr_fcs = 0\<rparr>)"

lemma length_serialize_ethernet_header [simp, frame_lens]:
  "length (serialize_ethernet_header hdr) = 14"
  by (simp add: serialize_ethernet_header_def)

lemma deserialize_serialize_ethernet_header [simp, codec_simps]:
  "deserialize_ethernet_header (serialize_ethernet_header hdr @ rest) = Inr hdr"
proof -
  have "mac_at (mac_bytes (dst_mac hdr) @ mac_bytes (src_mac hdr) @ put16 (ethertype hdr) @ rest) 0 = dst_mac hdr"
    using mac_at_append [of "[]" 0 "dst_mac hdr" "mac_bytes (src_mac hdr) @ put16 (ethertype hdr) @ rest"]
    by simp
  moreover have "u16_at (mac_bytes (dst_mac hdr) @ mac_bytes (src_mac hdr) @ put16 (ethertype hdr) @ rest) 12 = ethertype hdr"
    using u16_at_put16 [of "mac_bytes (dst_mac hdr) @ mac_bytes (src_mac hdr)" 12 "ethertype hdr" rest]
    by simp
  ultimately show ?thesis
    by (simp add: deserialize_ethernet_header_def serialize_ethernet_header_def ETHERNET_HDR_SIZE_def)
qed

text \<open>\<open>l2_frame_recv_qualify_on_iface\<close>: own MAC, or a group address (low bit of the first octet).\<close>

definition l2_frame_recv_qualify_on_iface :: "Interface \<Rightarrow> EthernetHeader \<Rightarrow> bool" where
  "l2_frame_recv_qualify_on_iface intf ethernet_hdr =
     (if \<not> IS_INTF_L3_MODE intf then False
      else if dst_mac ethernet_hdr = GetMac intf then True
      else if mac_bytes (dst_mac ethernet_hdr) ! 0 AND 0x01 \<noteq> 0 then True
      else False)"

section \<open>802.1Q tags\<close>

record VlanTag =
  tpid :: u16
  tci :: u16

text \<open>\<open>parse_ethernet_frame_with_vlan\<close>: header, tag if any, payload offset.\<close>

definition parse_ethernet_frame_with_vlan ::
  "bytes \<Rightarrow> string + (EthernetHeader \<times> VlanTag option \<times> nat)" where
  "parse_ethernet_frame_with_vlan pkt =
     (if length pkt < ETHERNET_HDR_SIZE then Inl ''packet too small for Ethernet header''
      else
        (let hdr = \<lparr>dst_mac = mac_at pkt 0, src_mac = mac_at pkt 6, ethertype = u16_at pkt 12\<rparr>
         in if u16_at pkt 12 = VLAN_TPID then
              (if length pkt < VLAN_HEADER_SIZE then Inl ''packet too small for VLAN tag''
               else Inr (hdr\<lparr>ethertype := u16_at pkt 16\<rparr>,
                         Some \<lparr>tpid = VLAN_TPID, tci = u16_at pkt 14\<rparr>, 18))
            else Inr (hdr, None, 14)))"

definition is_frame_vlan_tagged :: "bytes \<Rightarrow> bool" where
  "is_frame_vlan_tagged pkt =
     (if length pkt < ETHERNET_HDR_SIZE then False else u16_at pkt 12 = VLAN_TPID)"

text \<open>
  \<open>add_vlan_tag\<close>.  A tagged frame is rewritten in the caller's buffer, so the result also says
  what the buffer holds afterwards (the second component); an untagged frame is copied.  The
  slice \<open>pkt[14:16]\<close> of a tagged frame shorter than 16 bytes is out of range.
\<close>

definition add_vlan_tag :: "bytes \<Rightarrow> u16 \<Rightarrow> byte \<Rightarrow> byte \<Rightarrow> string + (bytes \<times> bytes)" where
  "add_vlan_tag pkt vlan_id pcp dei =
     (if length pkt < ETHERNET_HDR_SIZE then Inl ''packet too small''
      else if u16_at pkt 12 = VLAN_TPID then
        (if length pkt < 16 then Inl ''slice bounds out of range''
         else (let pkt' = put16_at pkt 14 (make_tci pcp dei vlan_id) in Inr (pkt', pkt')))
      else Inr (slice pkt 0 12 @ put16 VLAN_TPID @ put16 (make_tci pcp dei vlan_id) @ drop 12 pkt, pkt))"

definition remove_vlan_tag :: "bytes \<Rightarrow> string + bytes" where
  "remove_vlan_tag pkt =
     (if length pkt < VLAN_HEADER_SIZE then Inl ''packet too small for VLAN tag''
      else if u16_at pkt 12 \<noteq> VLAN_TPID then Inr pkt
      else Inr (slice pkt 0 12 @ drop 16 pkt))"

definition get_frame_vlan_id :: "bytes \<Rightarrow> u16" where
  "get_frame_vlan_id pkt =
     (if length pkt < ETHERNET_HDR_SIZE + 2 then VLAN_DEFAULT
      else if u16_at pkt 12 \<noteq> VLAN_TPID then VLAN_DEFAULT
      else if length pkt < VLAN_HEADER_SIZE then VLAN_DEFAULT
      else extract_vlan_id (u16_at pkt 14))"

definition determine_frame_vlan :: "Interface \<Rightarrow> bytes \<Rightarrow> u16" where
  "determine_frame_vlan iif pkt =
     (if IS_INTF_L3_MODE iif then VLAN_DEFAULT
      else
        (let frame_vlan_id = get_frame_vlan_id pkt in
         case GetVLANMode iif of
           INTF_MODE_ACCESS \<Rightarrow> (if is_frame_vlan_tagged pkt then 0 else GetAccessVLAN iif)
         | INTF_MODE_TRUNK \<Rightarrow> (if is_frame_vlan_tagged pkt then frame_vlan_id else GetNativeVLAN iif)
         | INTF_MODE_L3 \<Rightarrow> VLAN_DEFAULT))"

text \<open>\<open>prepare_frame_for_interface\<close>: the outgoing frame, and the caller's buffer afterwards.\<close>

definition prepare_frame_for_interface :: "Interface \<Rightarrow> bytes \<Rightarrow> u16 \<Rightarrow> string + (bytes \<times> bytes)" where
  "prepare_frame_for_interface oif pkt vlan_id =
     (if IS_INTF_L3_MODE oif then Inr (pkt, pkt)
      else case GetVLANMode oif of
        INTF_MODE_ACCESS \<Rightarrow> map_sum id (\<lambda>f. (f, pkt)) (remove_vlan_tag pkt)
      | INTF_MODE_TRUNK \<Rightarrow>
          (if vlan_id = GetNativeVLAN oif then map_sum id (\<lambda>f. (f, pkt)) (remove_vlan_tag pkt)
           else add_vlan_tag pkt vlan_id 0 0)
      | INTF_MODE_L3 \<Rightarrow> Inr (pkt, pkt))"

section \<open>What the tag operations preserve\<close>

text \<open>A frame with the 802.1Q tag taken out: addresses, then whatever follows the tag.\<close>

definition untagged_view :: "bytes \<Rightarrow> bytes" where
  "untagged_view pkt = (if is_frame_vlan_tagged pkt then take 12 pkt @ drop 16 pkt else pkt)"

lemma u16_at_append_left: "i + 1 < length xs \<Longrightarrow> u16_at (xs @ ys) i = u16_at xs i"
  by (simp add: u16_at_def nth_append)

lemma u16_at_append_right: "length xs \<le> i \<Longrightarrow> u16_at (xs @ ys) i = u16_at ys (i - length xs)"
  by (simp add: u16_at_def nth_append Suc_diff_le)

lemma u16_at_drop: "i + k + 1 < length xs \<Longrightarrow> u16_at (drop k xs) i = u16_at xs (i + k)"
  by (simp add: u16_at_def add.commute)

lemma u16_at_take: "i + 1 < n \<Longrightarrow> u16_at (take n xs) i = u16_at xs i"
  by (simp add: u16_at_def)

lemma u16_at_put16_Cons [simp]: "u16_at (put16 w @ ys) 0 = w"
  using u16_at_put16 [of "[]" 0 w ys] by simp

lemma u16_at_put16_at_other: "i + 1 < j \<Longrightarrow> u16_at (put16_at buf j w) i = u16_at buf i"
  by (simp add: u16_at_def nth_put16_at_other)

lemma slice_0 [simp]: "slice xs 0 n = take n xs"
  by (simp add: slice_def)

lemma take_put16_at: "n \<le> i \<Longrightarrow> take n (put16_at buf i w) = take n buf"
  by (simp add: put16_at_def)

lemma drop_put16_at: "i + 2 \<le> n \<Longrightarrow> drop n (put16_at buf i w) = drop n buf"
  by (simp add: put16_at_def)

lemmas tag_view_simps = u16_at_append_left u16_at_append_right u16_at_drop u16_at_take
  u16_at_put16_at_other take_put16_at drop_put16_at

lemma add_vlan_tag_tagged:
  assumes "add_vlan_tag pkt v pcp dei = Inr (out, buf)" "v \<le> VLAN_MAX" "length pkt \<ge> 14"
    and "is_frame_vlan_tagged pkt \<longrightarrow> length pkt \<ge> 18"
  shows "is_frame_vlan_tagged out" "get_frame_vlan_id out = v"
    "untagged_view out = untagged_view pkt" "length out \<ge> 18"
  using assms
  by (auto simp: add_vlan_tag_def is_frame_vlan_tagged_def get_frame_vlan_id_def untagged_view_def
      extract_vlan_id_make_tci vlan_max_mask frame_lens Let_def tag_view_simps split: if_splits)

lemma remove_vlan_tag_view:
  "remove_vlan_tag pkt = Inr out \<Longrightarrow> out = untagged_view pkt"
  by (auto simp: remove_vlan_tag_def untagged_view_def is_frame_vlan_tagged_def frame_lens split: if_splits)

lemma remove_add_vlan_tag:
  assumes "\<not> is_frame_vlan_tagged pkt" "length pkt \<ge> 14"
  shows "\<exists>out. add_vlan_tag pkt v pcp dei = Inr (out, pkt) \<and> remove_vlan_tag out = Inr pkt"
  using assms
  by (auto simp: add_vlan_tag_def remove_vlan_tag_def is_frame_vlan_tagged_def frame_lens tag_view_simps)

end
