(* ===== verification/Bpdu.thy ===== *)
theory Bpdu
  imports Ether
begin

text \<open>
  Spanning tree identifiers, priority vectors and BPDUs (the first part of
  \<open>src/src/l2_stp.go\<close>): bridge and port identifiers with the orders that rank them, the 35-byte
  configuration BPDU, and its 802.3/LLC frame.
\<close>

definition STP_PROTOCOL_ID :: u16 where "STP_PROTOCOL_ID = 0"
definition STP_VERSION_ID :: byte where "STP_VERSION_ID = 0"
definition STP_BPDU_TYPE_CONFIG :: byte where "STP_BPDU_TYPE_CONFIG = 0x00"
definition STP_BPDU_TYPE_TCN :: byte where "STP_BPDU_TYPE_TCN = 0x80"
definition STP_BPDU_SIZE :: nat where "STP_BPDU_SIZE = 35"
definition STP_TCN_SIZE :: nat where "STP_TCN_SIZE = 4"
definition STP_LLC_SIZE :: nat where "STP_LLC_SIZE = 3"
definition STP_LLC_DSAP :: byte where "STP_LLC_DSAP = 0x42"
definition STP_LLC_SSAP :: byte where "STP_LLC_SSAP = 0x42"
definition STP_LLC_CONTROL :: byte where "STP_LLC_CONTROL = 0x03"
definition STP_FLAG_TOPOLOGY_CHANGE :: byte where "STP_FLAG_TOPOLOGY_CHANGE = 0x01"
definition STP_DEFAULT_BRIDGE_PRIORITY :: u16 where "STP_DEFAULT_BRIDGE_PRIORITY = 32768"
definition STP_BRIDGE_PRIORITY_STEP :: u16 where "STP_BRIDGE_PRIORITY_STEP = 4096"
definition STP_DEFAULT_PORT_PRIORITY :: byte where "STP_DEFAULT_PORT_PRIORITY = 128"
definition STP_DEFAULT_PATH_COST :: u32 where "STP_DEFAULT_PATH_COST = 19"

lemmas stp_size_defs [frame_lens] = STP_BPDU_SIZE_def STP_TCN_SIZE_def STP_LLC_SIZE_def

section \<open>Bridge identifiers\<close>

datatype BridgeID = BridgeID (Priority: u16) (Address: MacAddr)

definition zero_bridge_id :: BridgeID where "zero_bridge_id = BridgeID 0 zero_mac"

text \<open>The byte loop of \<open>BridgeID.Compare\<close>, and the method.\<close>

fun compare_bytes :: "bytes \<Rightarrow> bytes \<Rightarrow> int" where
  "compare_bytes (a # as) (b # bs) =
     (if a \<noteq> b then (if a < b then -1 else 1) else compare_bytes as bs)"
| "compare_bytes _ _ = 0"

fun BridgeID_Compare :: "BridgeID \<Rightarrow> BridgeID \<Rightarrow> int" where
  "BridgeID_Compare (BridgeID p a) (BridgeID q b) =
     (if p \<noteq> q then (if p < q then -1 else 1) else compare_bytes (mac_bytes a) (mac_bytes b))"

definition makePortID :: "byte \<Rightarrow> byte \<Rightarrow> u16" where
  "makePortID priority portNumber = push_bit 8 (ucast priority) OR ucast portNumber"

record stpPriorityVector =
  pv_RootID :: BridgeID
  pv_RootPathCost :: u32
  pv_BridgeID :: BridgeID
  pv_PortID :: u16

definition zero_vector :: stpPriorityVector where
  "zero_vector = \<lparr>pv_RootID = zero_bridge_id, pv_RootPathCost = 0, pv_BridgeID = zero_bridge_id, pv_PortID = 0\<rparr>"

definition stpPriorityVector_Compare :: "stpPriorityVector \<Rightarrow> stpPriorityVector \<Rightarrow> int" where
  "stpPriorityVector_Compare vector other =
     (if BridgeID_Compare (pv_RootID vector) (pv_RootID other) \<noteq> 0
      then BridgeID_Compare (pv_RootID vector) (pv_RootID other)
      else if pv_RootPathCost vector \<noteq> pv_RootPathCost other
      then (if pv_RootPathCost vector < pv_RootPathCost other then -1 else 1)
      else if BridgeID_Compare (pv_BridgeID vector) (pv_BridgeID other) \<noteq> 0
      then BridgeID_Compare (pv_BridgeID vector) (pv_BridgeID other)
      else if pv_PortID vector \<noteq> pv_PortID other
      then (if pv_PortID vector < pv_PortID other then -1 else 1)
      else 0)"

section \<open>The comparisons are total orders\<close>

text \<open>An abstract three-way comparison, its laws, and what every such comparison gives.\<close>

locale three_way =
  fixes cmp :: "'a \<Rightarrow> 'a \<Rightarrow> int"
  assumes cmp_zero: "cmp a b = 0 \<longleftrightarrow> a = b"
    and cmp_antisym: "cmp a b < 0 \<longleftrightarrow> cmp b a > 0"
    and cmp_trans: "cmp a b < 0 \<Longrightarrow> cmp b c < 0 \<Longrightarrow> cmp a c < 0"
begin

lemma cmp_refl [simp]: "cmp a a = 0"
  by (simp add: cmp_zero)

lemma cmp_total: "cmp a b < 0 \<or> a = b \<or> cmp b a < 0"
  using cmp_antisym [of a b] cmp_antisym [of b a] cmp_zero [of a b] by linarith

lemma cmp_irrefl: "\<not> cmp a a < 0"
  by simp

lemma cmp_asym: "cmp a b < 0 \<Longrightarrow> \<not> cmp b a < 0"
  using cmp_antisym [of a b] by linarith

lemma cmp_le_trans: "\<not> cmp b a < 0 \<Longrightarrow> \<not> cmp c b < 0 \<Longrightarrow> \<not> cmp c a < 0"
  using cmp_total cmp_trans by metis

text \<open>The scan that keeps the first smallest element, as the root election and the root port
  choice do.\<close>

definition scan_min :: "'a \<Rightarrow> 'a list \<Rightarrow> 'a" where
  "scan_min b xs = foldl (\<lambda>best x. if cmp x best < 0 then x else best) b xs"

lemma scan_min_in: "scan_min b xs \<in> insert b (set xs)"
  by (induction xs arbitrary: b) (auto simp: scan_min_def)

lemma scan_min_le: "x \<in> insert b (set xs) \<Longrightarrow> \<not> cmp x (scan_min b xs) < 0"
proof (induction xs arbitrary: b x)
  case (Cons y ys)
  let ?b = "if cmp y b < 0 then y else b"
  have eq: "scan_min b (y # ys) = scan_min ?b ys" by (simp add: scan_min_def)
  have b: "\<not> cmp b ?b < 0" "\<not> cmp y ?b < 0" using cmp_asym by auto
  from Cons.prems have "x = b \<or> x = y \<or> x \<in> set ys" by auto
  moreover have "\<not> cmp ?b (scan_min ?b ys) < 0" by (rule Cons.IH) simp
  moreover have "\<not> cmp x (scan_min ?b ys) < 0" if "x \<in> set ys" by (rule Cons.IH) (use that in simp)
  ultimately show ?case unfolding eq using b cmp_le_trans by blast
qed (simp add: scan_min_def)

end

lemma compare_bytes_zero: "length a = length b \<Longrightarrow> compare_bytes a b = 0 \<longleftrightarrow> a = b"
  by (induction a b rule: compare_bytes.induct) auto

lemma compare_bytes_antisym: "compare_bytes a b < 0 \<longleftrightarrow> compare_bytes b a > 0"
  by (induction a b rule: compare_bytes.induct) (auto split: list.splits)

lemma compare_bytes_trans:
  "length a = length b \<Longrightarrow> length b = length c \<Longrightarrow>
     compare_bytes a b < 0 \<Longrightarrow> compare_bytes b c < 0 \<Longrightarrow> compare_bytes a c < 0"
proof (induction a arbitrary: b c)
  case (Cons x xs)
  then obtain y ys z zs where "b = y # ys" "c = z # zs" by (metis length_Suc_conv)
  with Cons.prems Cons.IH [of ys zs] show ?case
    by (cases "x = y"; cases "y = z") (simp_all split: if_splits, metis less_trans less_irrefl)
qed simp

interpretation bid: three_way BridgeID_Compare
proof
  fix a b c :: BridgeID
  show "BridgeID_Compare a b = 0 \<longleftrightarrow> a = b"
    by (cases a; cases b) (auto simp: compare_bytes_zero)
  show "BridgeID_Compare a b < 0 \<longleftrightarrow> BridgeID_Compare b a > 0"
    by (cases a; cases b) (auto simp: compare_bytes_antisym)
  show "BridgeID_Compare a b < 0 \<Longrightarrow> BridgeID_Compare b c < 0 \<Longrightarrow> BridgeID_Compare a c < 0"
    by (cases a; cases b; cases c)
       (auto intro: compare_bytes_trans [of _ "mac_bytes _"] split: if_splits)
qed

interpretation pvec: three_way stpPriorityVector_Compare
proof
  fix a b c :: stpPriorityVector
  show "stpPriorityVector_Compare a b = 0 \<longleftrightarrow> a = b"
    by (auto simp: stpPriorityVector_Compare_def bid.cmp_zero split: if_splits)
  show "stpPriorityVector_Compare a b < 0 \<longleftrightarrow> stpPriorityVector_Compare b a > 0"
    by (auto simp: stpPriorityVector_Compare_def bid.cmp_zero bid.cmp_antisym)
  show "stpPriorityVector_Compare a b < 0 \<Longrightarrow> stpPriorityVector_Compare b c < 0 \<Longrightarrow>
      stpPriorityVector_Compare a c < 0"
    by (auto simp: stpPriorityVector_Compare_def bid.cmp_zero dest: bid.cmp_trans split: if_splits)
qed

section \<open>The BPDU\<close>

record BPDU =
  ProtocolID :: u16
  Version :: byte
  Type :: byte
  Flags :: byte
  RootID :: BridgeID
  RootPathCost :: u32
  BridgeID_f :: BridgeID
  PortID :: u16
  MessageAge :: u16
  MaxAge :: u16
  HelloTime :: u16
  ForwardDelay :: u16

definition serializeBridgeID :: "BridgeID \<Rightarrow> bytes" where
  "serializeBridgeID i = put16 (Priority i) @ mac_bytes (Address i)"

definition deserializeBridgeID :: "bytes \<Rightarrow> nat \<Rightarrow> BridgeID" where
  "deserializeBridgeID buf i = BridgeID (u16_at buf i) (mac_at buf (i + 2))"

definition serializeBPDU :: "BPDU \<Rightarrow> bytes" where
  "serializeBPDU bpdu =
     put16 (ProtocolID bpdu) @ [Version bpdu, Type bpdu, Flags bpdu] @
     serializeBridgeID (RootID bpdu) @ put32 (RootPathCost bpdu) @
     serializeBridgeID (BridgeID_f bpdu) @ put16 (PortID bpdu) @ put16 (MessageAge bpdu) @
     put16 (MaxAge bpdu) @ put16 (HelloTime bpdu) @ put16 (ForwardDelay bpdu)"

text \<open>\<open>deserializeBPDU\<close>: the fields a topology change notification does not carry stay zero.\<close>

definition deserializeBPDU :: "bytes \<Rightarrow> string + BPDU" where
  "deserializeBPDU buf =
     (if length buf < STP_TCN_SIZE then Inl ''buffer too small for BPDU''
      else
        (let bpdu = \<lparr>ProtocolID = u16_at buf 0, Version = buf ! 2, Type = buf ! 3, Flags = 0,
                     RootID = zero_bridge_id, RootPathCost = 0, BridgeID_f = zero_bridge_id,
                     PortID = 0, MessageAge = 0, MaxAge = 0, HelloTime = 0, ForwardDelay = 0\<rparr>
         in if ProtocolID bpdu \<noteq> STP_PROTOCOL_ID then Inl ''unsupported BPDU protocol identifier''
            else if Type bpdu = STP_BPDU_TYPE_TCN then Inr bpdu
            else if Type bpdu \<noteq> STP_BPDU_TYPE_CONFIG then Inl ''unsupported BPDU type''
            else if length buf < STP_BPDU_SIZE then Inl ''configuration BPDU is truncated''
            else
              (let bpdu' = bpdu\<lparr>Flags := buf ! 4, RootID := deserializeBridgeID buf 5,
                     RootPathCost := u32_at buf 13, BridgeID_f := deserializeBridgeID buf 17,
                     PortID := u16_at buf 25, MessageAge := u16_at buf 27, MaxAge := u16_at buf 29,
                     HelloTime := u16_at buf 31, ForwardDelay := u16_at buf 33\<rparr>
               in if MessageAge bpdu' \<ge> MaxAge bpdu' then Inl ''BPDU message age exceeds max age''
                  else Inr bpdu')))"

definition buildSTPFrame :: "MacAddr \<Rightarrow> bytes \<Rightarrow> bytes" where
  "buildSTPFrame srcMAC payload =
     (let llcLength = STP_LLC_SIZE + length payload in
      mac_bytes stpBridgeGroupMAC @ mac_bytes srcMAC @ put16 (word_of_nat llcLength) @
      [STP_LLC_DSAP, STP_LLC_SSAP, STP_LLC_CONTROL] @ payload)"

definition parseSTPFrame :: "bytes \<Rightarrow> string + bytes" where
  "parseSTPFrame frame =
     (if length frame < ETHERNET_HDR_SIZE + STP_LLC_SIZE then Inl ''frame too small to contain an LLC header''
      else if frame ! 14 \<noteq> STP_LLC_DSAP \<or> frame ! 15 \<noteq> STP_LLC_SSAP
      then Inl ''frame is not addressed to the bridge spanning tree LLC SAP''
      else if frame ! 16 \<noteq> STP_LLC_CONTROL then Inl ''unsupported LLC control field''
      else
        (let llcLength = unat (u16_at frame 12);
             payload = drop (ETHERNET_HDR_SIZE + STP_LLC_SIZE) frame
         in if llcLength \<ge> STP_LLC_SIZE \<and> llcLength - STP_LLC_SIZE \<le> length payload
            then Inr (take (llcLength - STP_LLC_SIZE) payload)
            else Inr payload))"

lemma length_serializeBridgeID [simp, frame_lens]: "length (serializeBridgeID i) = 8"
  by (simp add: serializeBridgeID_def)

lemma length_serializeBPDU [simp, frame_lens]: "length (serializeBPDU b) = 35"
  by (simp add: serializeBPDU_def)

lemma deserializeBridgeID_append [simp, codec_simps]:
  assumes "length xs = i"
  shows "deserializeBridgeID (xs @ serializeBridgeID b @ ys) i = b"
proof -
  have "mac_at (xs @ put16 (Priority b) @ mac_bytes (Address b) @ ys) (i + 2) = Address b"
    using mac_at_append [of "xs @ put16 (Priority b)" "i + 2" "Address b" ys] assms by simp
  with assms show ?thesis by (simp add: deserializeBridgeID_def serializeBridgeID_def)
qed


text \<open>Reading the fields of a serialised BPDU back, whatever follows it in the buffer.\<close>

lemma serializeBPDU_fields:
  fixes b :: BPDU and rest :: bytes
  defines "buf \<equiv> serializeBPDU b @ rest"
  shows "u16_at buf 0 = ProtocolID b" "buf ! 2 = Version b" "buf ! 3 = Type b" "buf ! 4 = Flags b"
    "deserializeBridgeID buf 5 = RootID b" "u32_at buf 13 = RootPathCost b"
    "deserializeBridgeID buf 17 = BridgeID_f b" "u16_at buf 25 = PortID b"
    "u16_at buf 27 = MessageAge b" "u16_at buf 29 = MaxAge b"
    "u16_at buf 31 = HelloTime b" "u16_at buf 33 = ForwardDelay b"
proof -
  let ?h = "put16 (ProtocolID b) @ [Version b, Type b, Flags b]"
  let ?r = "serializeBridgeID (RootID b)" and ?c = "put32 (RootPathCost b)"
  let ?i = "serializeBridgeID (BridgeID_f b)" and ?p = "put16 (PortID b)"
  let ?a = "put16 (MessageAge b)" and ?m = "put16 (MaxAge b)" and ?t = "put16 (HelloTime b)"
  note d = buf_def serializeBPDU_def
  show "u16_at buf 0 = ProtocolID b" by (simp add: d)
  show "buf ! 2 = Version b" "buf ! 3 = Type b" "buf ! 4 = Flags b"
    by (simp_all add: d nth_append)
  show "deserializeBridgeID buf 5 = RootID b"
    using deserializeBridgeID_append [of ?h 5 "RootID b"] by (simp add: d)
  show "u32_at buf 13 = RootPathCost b"
    using u32_at_put32 [of "?h @ ?r" 13 "RootPathCost b"] by (simp add: d)
  show "deserializeBridgeID buf 17 = BridgeID_f b"
    using deserializeBridgeID_append [of "?h @ ?r @ ?c" 17 "BridgeID_f b"] by (simp add: d)
  show "u16_at buf 25 = PortID b"
    using u16_at_put16 [of "?h @ ?r @ ?c @ ?i" 25 "PortID b"] by (simp add: d)
  show "u16_at buf 27 = MessageAge b"
    using u16_at_put16 [of "?h @ ?r @ ?c @ ?i @ ?p" 27 "MessageAge b"] by (simp add: d)
  show "u16_at buf 29 = MaxAge b"
    using u16_at_put16 [of "?h @ ?r @ ?c @ ?i @ ?p @ ?a" 29 "MaxAge b"] by (simp add: d)
  show "u16_at buf 31 = HelloTime b"
    using u16_at_put16 [of "?h @ ?r @ ?c @ ?i @ ?p @ ?a @ ?m" 31 "HelloTime b"] by (simp add: d)
  show "u16_at buf 33 = ForwardDelay b"
    using u16_at_put16 [of "?h @ ?r @ ?c @ ?i @ ?p @ ?a @ ?m @ ?t" 33 "ForwardDelay b"] by (simp add: d)
qed

text \<open>The configuration BPDUs a receiver accepts.\<close>

definition valid_config_bpdu :: "BPDU \<Rightarrow> bool" where
  "valid_config_bpdu b \<longleftrightarrow>
     ProtocolID b = STP_PROTOCOL_ID \<and> Type b = STP_BPDU_TYPE_CONFIG \<and> MessageAge b < MaxAge b"

lemma deserialize_serialize_BPDU:
  "valid_config_bpdu b \<Longrightarrow> deserializeBPDU (serializeBPDU b @ rest) = Inr b"
  by (simp add: deserializeBPDU_def serializeBPDU_fields valid_config_bpdu_def frame_lens
      STP_BPDU_TYPE_TCN_def STP_BPDU_TYPE_CONFIG_def Let_def not_le)

lemma parse_build_STPFrame:
  assumes "length p + 3 < 2 ^ 16"
  shows "parseSTPFrame (buildSTPFrame src p @ pad) = Inr p"
proof -
  obtain k where k: "k = 3 + length p" by simp
  let ?l = "word_of_nat k :: u16"
  let ?pre = "mac_bytes stpBridgeGroupMAC @ mac_bytes src"
  have "k < 65536" using assms k by simp
  then have n: "unat ?l = k" by (simp add: unsigned_of_nat take_bit_nat_eq_self)
  have l: "u16_at (?pre @ put16 ?l @ [STP_LLC_DSAP, STP_LLC_SSAP, STP_LLC_CONTROL] @ p @ pad) 12 = ?l"
    by (rule u16_at_put16) simp
  show ?thesis
    using l n unfolding buildSTPFrame_def frame_lens Let_def k [symmetric]
    by (simp add: parseSTPFrame_def frame_lens nth_append Let_def k)
qed

end
