(* ===== verification/MacTable.thy ===== *)
theory MacTable
  imports Addr
begin

text \<open>
  The MAC table of a switch (\<open>src/src/l2_switch.go\<close>): a linked list of learned addresses, newest
  at the head, keyed by MAC address and VLAN.  The list is a HOL list; \<open>time.Now()\<close> is a parameter
  \<open>now\<close>, and times and durations are integers in nanoseconds.  The interface name sits in a
  16-byte array that \<open>copy\<close> overwrites from the left.
\<close>

record mac_table_entry =
  me_mac_addr :: MacAddr
  me_vlan_id :: u16
  me_oif_name :: string
  me_created_at :: int
  me_updated_at :: int

type_synonym mac_table = "mac_table_entry list"

definition second :: int where "second = 1000000000"
definition MAC_TABLE_ENTRY_TIMEOUT :: int where "MAC_TABLE_ENTRY_TIMEOUT = 300 * second"
definition MAC_TABLE_REFRESH_THRESHOLD :: int where "MAC_TABLE_REFRESH_THRESHOLD = 30 * second"

definition init_mac_table :: mac_table where "init_mac_table = []"

abbreviation me_key :: "mac_table_entry \<Rightarrow> MacAddr \<times> u16" where
  "me_key e \<equiv> (me_mac_addr e, me_vlan_id e)"

abbreviation me_name :: "mac_table_entry \<Rightarrow> string" where
  "me_name e \<equiv> byteArrayString (me_oif_name e)"

section \<open>Operations\<close>

fun mac_table_lookup_vlan :: "mac_table \<Rightarrow> MacAddr \<Rightarrow> u16 \<Rightarrow> string" where
  "mac_table_lookup_vlan [] mac vlan = []"
| "mac_table_lookup_vlan (current # rest) mac vlan =
     (if me_mac_addr current = mac \<and> me_vlan_id current = vlan
      then byteArrayString (me_oif_name current)
      else mac_table_lookup_vlan rest mac vlan)"

text \<open>The scan of \<open>mac_table_add_or_update_vlan\<close>: None when no entry has the key.\<close>

fun mac_update_scan ::
  "mac_table \<Rightarrow> int \<Rightarrow> MacAddr \<Rightarrow> u16 \<Rightarrow> string \<Rightarrow> (mac_table \<times> bool) option" where
  "mac_update_scan [] now mac vlan oif_name = None"
| "mac_update_scan (current # rest) now mac vlan oif_name =
     (if me_mac_addr current = mac \<and> me_vlan_id current = vlan then
        (if byteArrayString (me_oif_name current) \<noteq> oif_name then
           Some (current\<lparr>me_oif_name := go_copy (me_oif_name current) oif_name,
                         me_updated_at := now\<rparr> # rest, True)
         else if now - me_updated_at current \<ge> MAC_TABLE_REFRESH_THRESHOLD then
           Some (current\<lparr>me_updated_at := now\<rparr> # rest, True)
         else Some (current # rest, False))
      else map_option (\<lambda>(t, r). (current # t, r)) (mac_update_scan rest now mac vlan oif_name))"

definition mac_table_add_or_update_vlan ::
  "mac_table \<Rightarrow> int \<Rightarrow> MacAddr \<Rightarrow> u16 \<Rightarrow> string \<Rightarrow> mac_table \<times> bool" where
  "mac_table_add_or_update_vlan table now mac vlan oif_name =
     (case mac_update_scan table now mac vlan oif_name of
        Some r \<Rightarrow> r
      | None \<Rightarrow>
          (\<lparr>me_mac_addr = mac, me_vlan_id = vlan, me_oif_name = name_array IF_NAME_SIZE oif_name,
            me_created_at = now, me_updated_at = now\<rparr> # table, True))"

text \<open>\<open>mac_table_delete_entry\<close>: the first entry of the address, whatever its VLAN.\<close>

fun mac_table_delete_entry :: "mac_table \<Rightarrow> MacAddr \<Rightarrow> mac_table \<times> bool" where
  "mac_table_delete_entry [] mac = ([], False)"
| "mac_table_delete_entry (e # rest) mac =
     (if me_mac_addr e = mac then (rest, True)
      else (let (t, r) = mac_table_delete_entry rest mac in (e # t, r)))"

text \<open>
  The removal loops come in two passes: first the head is advanced over matching entries, then
  \<open>current.next\<close> is unlinked while it matches.  \<open>remove_after\<close> is the second pass behind a kept
  entry.
\<close>

fun remove_head :: "('e \<Rightarrow> bool) \<Rightarrow> 'e list \<Rightarrow> 'e list \<times> nat" where
  "remove_head p [] = ([], 0)"
| "remove_head p (e # rest) =
     (if p e then (let (t, n) = remove_head p rest in (t, n + 1)) else (e # rest, 0))"

fun remove_after :: "('e \<Rightarrow> bool) \<Rightarrow> 'e list \<Rightarrow> 'e list \<times> nat" where
  "remove_after p (current # nxt # rest) =
     (if p nxt then (let (t, n) = remove_after p (current # rest) in (t, n + 1))
      else (let (t, n) = remove_after p (nxt # rest) in (current # t, n)))"
| "remove_after p es = (es, 0)"

definition remove_matching :: "('e \<Rightarrow> bool) \<Rightarrow> 'e list \<Rightarrow> 'e list \<times> nat" where
  "remove_matching p es =
     (let (t1, n1) = remove_head p es; (t2, n2) = remove_after p t1 in (t2, n1 + n2))"

definition mac_table_cleanup_expired :: "mac_table \<Rightarrow> int \<Rightarrow> mac_table \<times> nat" where
  "mac_table_cleanup_expired table now =
     remove_matching (\<lambda>e. now - me_updated_at e > MAC_TABLE_ENTRY_TIMEOUT) table"

definition flush_mac_table :: "mac_table \<Rightarrow> mac_table \<times> nat" where
  "flush_mac_table table = ([], length table)"

definition flush_mac_table_for_interface :: "mac_table \<Rightarrow> string \<Rightarrow> mac_table \<times> nat" where
  "flush_mac_table_for_interface table oif_name =
     (if oif_name = [] then (table, 0)
      else remove_matching (\<lambda>e. byteArrayString (me_oif_name e) = oif_name) table)"

section \<open>The two-pass removal is a filter\<close>

lemma remove_after_filter:
  "remove_after p (e # es) = (e # filter (\<lambda>x. \<not> p x) es, length (filter p es))"
proof (induction es arbitrary: e)
  case (Cons x xs)
  then show ?case by (cases "p x") simp_all
qed simp

lemma remove_head_spec:
  "remove_head p es = (t, n) \<Longrightarrow>
     (t = [] \<or> \<not> p (hd t)) \<and> filter (\<lambda>x. \<not> p x) es = filter (\<lambda>x. \<not> p x) t
     \<and> length (filter p es) = n + length (filter p t)"
  by (induction es arbitrary: t n) (auto split: if_splits prod.splits)

lemma remove_matching_filter:
  "remove_matching p es = (filter (\<lambda>x. \<not> p x) es, length (filter p es))"
proof -
  obtain t n where tn: "remove_head p es = (t, n)" by fastforce
  note sp = remove_head_spec [OF tn]
  show ?thesis
    by (cases t) (use sp tn in \<open>auto simp: remove_matching_def remove_after_filter\<close>)
qed

section \<open>Invariant and laws\<close>

text \<open>Keys are unique, and every name array is a NUL-padded name.\<close>

definition valid_name :: "string \<Rightarrow> bool" where
  "valid_name s \<longleftrightarrow> s \<noteq> [] \<and> length s \<le> IF_NAME_SIZE \<and> NUL \<notin> set s"

definition padded :: "string \<Rightarrow> bool" where
  "padded arr \<longleftrightarrow> (\<exists>s. valid_name s \<and> arr = name_array IF_NAME_SIZE s)"

definition mac_table_inv :: "mac_table \<Rightarrow> bool" where
  "mac_table_inv t \<longleftrightarrow> distinct (map me_key t) \<and> (\<forall>e\<in>set t. padded (me_oif_name e))"

lemma padded_name_array: "valid_name s \<Longrightarrow> padded (name_array IF_NAME_SIZE s)"
  by (auto simp: padded_def)

lemma byteArrayString_padded: "valid_name s \<Longrightarrow> byteArrayString (name_array IF_NAME_SIZE s) = s"
  by (simp add: valid_name_def)

text \<open>What \<open>copy\<close> makes of the array when a name is replaced by another.\<close>

definition overwrite :: "string \<Rightarrow> string \<Rightarrow> string" where
  "overwrite old new = new @ drop (length new) old"

lemma overwrite_longer [simp]: "length old \<le> length new \<Longrightarrow> overwrite old new = new"
  by (simp add: overwrite_def)

lemma valid_name_overwrite: "valid_name old \<Longrightarrow> valid_name new \<Longrightarrow> valid_name (overwrite old new)"
  by (auto simp: valid_name_def overwrite_def dest: in_set_dropD)

lemma go_copy_name_array:
  assumes "valid_name old" "valid_name new"
  shows "go_copy (name_array IF_NAME_SIZE old) new = name_array IF_NAME_SIZE (overwrite old new)"
  using assms
  by (auto simp: go_copy_def name_array_def overwrite_def valid_name_def drop_append)

lemma padded_go_copy: "padded arr \<Longrightarrow> valid_name new \<Longrightarrow> padded (go_copy arr new)"
  by (auto simp: padded_def go_copy_name_array intro: valid_name_overwrite)

lemma lookup_not_mem:
  "(mac, vlan) \<notin> me_key ` set t \<Longrightarrow> mac_table_lookup_vlan t mac vlan = []"
  by (induction t) auto

lemma lookup_mem:
  "distinct (map me_key t) \<Longrightarrow> e \<in> set t \<Longrightarrow> mac_table_lookup_vlan t (me_mac_addr e) (me_vlan_id e) = me_name e"
  by (induction t) force+

lemma lookup_eq_name:
  "mac_table_inv t \<Longrightarrow> mac_table_lookup_vlan t mac vlan \<noteq> [] \<longleftrightarrow> (mac, vlan) \<in> me_key ` set t"
proof
  assume inv: "mac_table_inv t" and "(mac, vlan) \<in> me_key ` set t"
  then obtain e where e: "e \<in> set t" "me_mac_addr e = mac" "me_vlan_id e = vlan" by auto
  with inv obtain s where "valid_name s" "me_oif_name e = name_array IF_NAME_SIZE s"
    by (auto simp: mac_table_inv_def padded_def)
  moreover have "mac_table_lookup_vlan t mac vlan = me_name e"
    using inv e lookup_mem by (auto simp: mac_table_inv_def)
  ultimately show "mac_table_lookup_vlan t mac vlan \<noteq> []"
    by (simp add: byteArrayString_padded) (simp add: valid_name_def)
qed (use lookup_not_mem in blast)

lemma mac_update_scan_keys:
  "mac_update_scan t now mac vlan oif = Some (t', r) \<Longrightarrow> map me_key t' = map me_key t"
  by (induction t arbitrary: t' r) (auto split: if_splits)

lemma mac_update_scan_None:
  "mac_update_scan t now mac vlan oif = None \<longleftrightarrow> (mac, vlan) \<notin> me_key ` set t"
  by (induction t) auto

lemma mac_update_scan_padded:
  "mac_update_scan t now mac vlan oif = Some (t', r) \<Longrightarrow> valid_name oif \<Longrightarrow>
     \<forall>e\<in>set t. padded (me_oif_name e) \<Longrightarrow> \<forall>e\<in>set t'. padded (me_oif_name e)"
proof (induction t arbitrary: t' r)
  case (Cons e t)
  then show ?case by (auto simp: padded_go_copy split: if_splits)
qed simp

lemma mac_table_inv_add:
  assumes "mac_table_inv t" "valid_name oif"
  shows "mac_table_inv (fst (mac_table_add_or_update_vlan t now mac vlan oif))"
proof (cases "mac_update_scan t now mac vlan oif")
  case None
  then have "(mac, vlan) \<notin> me_key ` set t" by (rule mac_update_scan_None [THEN iffD1])
  with assms show ?thesis
    by (auto simp: None mac_table_add_or_update_vlan_def mac_table_inv_def padded_name_array)
next
  case (Some p)
  obtain t' r where p: "p = (t', r)" by fastforce
  with Some assms show ?thesis
    using mac_update_scan_keys [of t now mac vlan oif t' r] mac_update_scan_padded [of t now mac vlan oif t' r]
    by (simp add: mac_table_add_or_update_vlan_def mac_table_inv_def)
qed

lemma mac_table_inv_filter: "mac_table_inv t \<Longrightarrow> mac_table_inv (filter p t)"
  by (auto simp: mac_table_inv_def distinct_map_filter)

lemma mac_table_inv_cleanup: "mac_table_inv t \<Longrightarrow> mac_table_inv (fst (mac_table_cleanup_expired t now))"
  by (simp add: mac_table_cleanup_expired_def remove_matching_filter mac_table_inv_filter)

lemma mac_table_inv_flush_if: "mac_table_inv t \<Longrightarrow> mac_table_inv (fst (flush_mac_table_for_interface t oif))"
  by (simp add: flush_mac_table_for_interface_def remove_matching_filter mac_table_inv_filter)

lemma mac_table_delete_sub:
  "set (fst (mac_table_delete_entry t mac)) \<subseteq> set t"
  "distinct (map me_key t) \<Longrightarrow> distinct (map me_key (fst (mac_table_delete_entry t mac)))"
proof (induction t)
  case (Cons e t)
  { case 1 with Cons show ?case by (auto split: prod.splits) }
  { case 2 with Cons show ?case by (force split: prod.splits) }
qed simp_all

lemma mac_table_inv_delete: "mac_table_inv t \<Longrightarrow> mac_table_inv (fst (mac_table_delete_entry t mac))"
  using mac_table_delete_sub [of t mac] by (auto simp: mac_table_inv_def)

lemma mac_table_inv_empty [simp]: "mac_table_inv []"
  by (simp add: mac_table_inv_def)


section \<open>Lookup after each operation\<close>

lemma lookup_scan:
  assumes "mac_update_scan t now mac vlan oif = Some (t', r)"
    and "\<forall>e\<in>set t. padded (me_oif_name e)" and "valid_name oif"
  shows "mac_table_lookup_vlan t' m v =
    (if m = mac \<and> v = vlan then overwrite (mac_table_lookup_vlan t mac vlan) oif
     else mac_table_lookup_vlan t m v)"
  using assms
proof (induction t arbitrary: t' r)
  case (Cons e t)
  from Cons.prems(2) obtain s where s: "valid_name s" "me_oif_name e = name_array IF_NAME_SIZE s"
    by (auto simp: padded_def)
  show ?case
  proof (cases "me_mac_addr e = mac \<and> me_vlan_id e = vlan")
    case True
    with Cons.prems(1,3) s show ?thesis
      by (auto simp: go_copy_name_array byteArrayString_padded valid_name_overwrite split: if_splits)
  next
    case False
    with Cons.prems(1) obtain t2 where t2: "mac_update_scan t now mac vlan oif = Some (t2, r)" "t' = e # t2"
      by auto
    with Cons.IH [OF t2(1)] Cons.prems(2,3) False show ?thesis by auto
  qed
qed simp

lemma lookup_add:
  assumes "mac_table_inv t" "valid_name oif"
  shows "mac_table_lookup_vlan (fst (mac_table_add_or_update_vlan t now mac vlan oif)) m v =
    (if m = mac \<and> v = vlan then overwrite (mac_table_lookup_vlan t mac vlan) oif
     else mac_table_lookup_vlan t m v)"
proof (cases "mac_update_scan t now mac vlan oif")
  case None
  then have "(mac, vlan) \<notin> me_key ` set t" by (rule mac_update_scan_None [THEN iffD1])
  then have "mac_table_lookup_vlan t mac vlan = []" by (rule lookup_not_mem)
  with assms show ?thesis
    by (auto simp: None mac_table_add_or_update_vlan_def byteArrayString_padded)
next
  case (Some p)
  obtain t' r where p: "p = (t', r)" by fastforce
  with Some lookup_scan [of t now mac vlan oif t' r m v] assms show ?thesis
    by (simp add: mac_table_add_or_update_vlan_def mac_table_inv_def)
qed

lemma lookup_filter:
  assumes "distinct (map me_key t)"
  shows "mac_table_lookup_vlan (filter p t) m v =
    (if \<exists>e\<in>set t. me_mac_addr e = m \<and> me_vlan_id e = v \<and> p e then mac_table_lookup_vlan t m v else [])"
proof (cases "\<exists>e\<in>set t. me_mac_addr e = m \<and> me_vlan_id e = v \<and> p e")
  case True
  then obtain e where e: "e \<in> set t" "me_mac_addr e = m" "me_vlan_id e = v" "p e" by auto
  moreover have "distinct (map me_key (filter p t))" using assms by (simp add: distinct_map_filter)
  ultimately have "mac_table_lookup_vlan (filter p t) m v = me_name e"
    using lookup_mem [of "filter p t" e] by auto
  moreover have "mac_table_lookup_vlan t m v = me_name e"
    using lookup_mem [of t e] assms e by auto
  ultimately show ?thesis using True by simp
next
  case False
  then have "(m, v) \<notin> me_key ` set (filter p t)" by auto
  then have "mac_table_lookup_vlan (filter p t) m v = []" by (rule lookup_not_mem)
  then show ?thesis by (simp only: if_not_P [OF False])
qed

lemma lookup_flush_if:
  assumes "mac_table_inv t" "oif \<noteq> []"
  shows "mac_table_lookup_vlan (fst (flush_mac_table_for_interface t oif)) m v =
    (if mac_table_lookup_vlan t m v = oif then [] else mac_table_lookup_vlan t m v)"
proof (cases "(m, v) \<in> me_key ` set t")
  case True
  then obtain e where e: "e \<in> set t" "me_mac_addr e = m" "me_vlan_id e = v" by auto
  then have n: "mac_table_lookup_vlan t m v = me_name e"
    using lookup_mem [of t e] assms by (auto simp: mac_table_inv_def)
  have u: "e' = e" if "e' \<in> set t" "me_mac_addr e' = m" "me_vlan_id e' = v" for e'
    using that e assms(1) by (auto simp: mac_table_inv_def distinct_map inj_on_def)
  have "(\<exists>e\<in>set t. me_mac_addr e = m \<and> me_vlan_id e = v \<and> me_name e \<noteq> oif) \<longleftrightarrow> me_name e \<noteq> oif"
    using u e by metis
  then show ?thesis
    using assms unfolding flush_mac_table_for_interface_def mac_table_inv_def
    by (simp add: remove_matching_filter lookup_filter n)
next
  case False
  then have "mac_table_lookup_vlan t m v = []" by (rule lookup_not_mem)
  then show ?thesis
    using assms unfolding flush_mac_table_for_interface_def mac_table_inv_def
    by (simp add: remove_matching_filter lookup_filter)
qed

section \<open>The forwarding database interface\<close>

text \<open>
  What the switching path relies on.  Learning is exact for a key whose stored port name is not
  longer than the new one (\<open>fits\<close>): the general case is \<open>lookup_add\<close>, where the tail of a longer
  old name stays behind.
\<close>

locale fdb =
  fixes inv :: "'t \<Rightarrow> bool"
    and lookup :: "'t \<Rightarrow> MacAddr \<Rightarrow> u16 \<Rightarrow> string"
    and learn :: "'t \<Rightarrow> int \<Rightarrow> MacAddr \<Rightarrow> u16 \<Rightarrow> string \<Rightarrow> 't"
    and flush_if :: "'t \<Rightarrow> string \<Rightarrow> 't"
    and good :: "string \<Rightarrow> bool"
  assumes inv_learn: "inv t \<Longrightarrow> good oif \<Longrightarrow> inv (learn t now m v oif)"
    and inv_flush: "inv t \<Longrightarrow> inv (flush_if t oif)"
    and lookup_learn: "inv t \<Longrightarrow> good oif \<Longrightarrow> length (lookup t m v) \<le> length oif \<Longrightarrow>
      lookup (learn t now m v oif) m v = oif"
    and lookup_learn_other: "inv t \<Longrightarrow> good oif \<Longrightarrow> (m', v') \<noteq> (m, v) \<Longrightarrow>
      lookup (learn t now m v oif) m' v' = lookup t m' v'"
    and lookup_flush: "inv t \<Longrightarrow> good oif \<Longrightarrow> lookup (flush_if t oif) m v \<noteq> oif"
    and lookup_flush_other: "inv t \<Longrightarrow> good oif \<Longrightarrow> lookup t m v \<noteq> oif \<Longrightarrow>
      lookup (flush_if t oif) m v = lookup t m v"
begin

text \<open>A list of observations (source address, VLAN, port), learned in order.\<close>

definition learn_all :: "'t \<Rightarrow> int \<Rightarrow> (MacAddr \<times> u16 \<times> string) list \<Rightarrow> 't" where
  "learn_all t now obs = foldl (\<lambda>t (m, v, oif). learn t now m v oif) t obs"

lemma inv_learn_all:
  "inv t \<Longrightarrow> \<forall>(m, v, oif)\<in>set obs. good oif \<Longrightarrow> inv (learn_all t now obs)"
  by (induction obs arbitrary: t) (auto simp: learn_all_def inv_learn)

lemma learn_all_other:
  "inv t \<Longrightarrow> \<forall>(m', v', oif)\<in>set obs. good oif \<and> (m', v') \<noteq> (m, v) \<Longrightarrow>
     lookup (learn_all t now obs) m v = lookup t m v"
proof (induction obs arbitrary: t)
  case (Cons ob obs)
  obtain m' v' oif where ob: "ob = (m', v', oif)" by (cases ob)
  from Cons.prems ob have "inv (learn t now m' v' oif)" "lookup (learn t now m' v' oif) m v = lookup t m v"
    by (auto simp: inv_learn lookup_learn_other)
  with Cons.IH [of "learn t now m' v' oif"] Cons.prems ob show ?case
    by (simp add: learn_all_def)
qed (simp add: learn_all_def)

text \<open>The last observation of an address wins, when all ports have names of one length.\<close>

lemma last_observation_wins:
  assumes "inv t" "good oif" "\<forall>(m', v', o')\<in>set (before @ after). good o'"
    and "\<forall>(m', v', o')\<in>set after. (m', v') \<noteq> (m, v)"
    and "length (lookup (learn_all t now before) m v) \<le> length oif"
  shows "lookup (learn_all t now (before @ (m, v, oif) # after)) m v = oif"
proof -
  let ?t1 = "learn_all t now before"
  have i1: "inv ?t1" by (rule inv_learn_all) (use assms in auto)
  then have i2: "inv (learn ?t1 now m v oif)" using assms by (simp add: inv_learn)
  have "learn_all t now (before @ (m, v, oif) # after) = learn_all (learn ?t1 now m v oif) now after"
    by (simp add: learn_all_def)
  moreover have "\<forall>(m', v', o')\<in>set after. good o' \<and> (m', v') \<noteq> (m, v)"
    using assms(3,4) by fastforce
  ultimately have "lookup (learn_all t now (before @ (m, v, oif) # after)) m v =
      lookup (learn ?t1 now m v oif) m v"
    by (simp only: learn_all_other [OF i2])
  with i1 assms show ?thesis by (simp add: lookup_learn)
qed

end

abbreviation mac_learn :: "mac_table \<Rightarrow> int \<Rightarrow> MacAddr \<Rightarrow> u16 \<Rightarrow> string \<Rightarrow> mac_table" where
  "mac_learn t now m v oif \<equiv> fst (mac_table_add_or_update_vlan t now m v oif)"

abbreviation mac_flush_if :: "mac_table \<Rightarrow> string \<Rightarrow> mac_table" where
  "mac_flush_if t oif \<equiv> fst (flush_mac_table_for_interface t oif)"

interpretation macdb: fdb mac_table_inv mac_table_lookup_vlan mac_learn mac_flush_if valid_name
  by unfold_locales
     (auto simp: mac_table_inv_add mac_table_inv_flush_if lookup_add lookup_flush_if valid_name_def)

text \<open>The locale's fold over observations, at the model's table.\<close>

definition mac_learn_all :: "mac_table \<Rightarrow> int \<Rightarrow> (MacAddr \<times> u16 \<times> string) list \<Rightarrow> mac_table" where
  "mac_learn_all t now obs = foldl (\<lambda>t (m, v, oif). mac_learn t now m v oif) t obs"

lemma mac_learn_all_eq: "mac_learn_all = macdb.learn_all"
  by (intro ext) (simp add: mac_learn_all_def macdb.learn_all_def)

end
