(* ===== verification/Stp.thy ===== *)
theory Stp
  imports Bpdu MacTable
begin

text \<open>
  The spanning tree state of one bridge (\<open>src/src/l2_stp.go\<close>): port table, role computation, port
  state machine, BPDU reception and transmission, ageing.

  The Go map \<open>ports\<close> is keyed by interface name; the model keeps its values as a list with the
  name in each port (\<open>sp_name\<close>), because every loop of the code runs over \<open>portsSorted\<close>, that is
  \<open>sort_key sp_portID\<close>.  A \<open>*STPPort\<close> shared with the map is mutated in place; here the new port
  replaces the old one of the same name.  \<open>time.Time\<close> is an integer of nanoseconds and the zero
  time of \<open>stateDeadline\<close> is None.  Calls that touch the node are made explicit: the MAC table is
  a parameter and a result, and frames handed to \<open>send_frame\<close> are returned as (slot, bytes).
\<close>

datatype STPPortRole = STP_ROLE_DISABLED | STP_ROLE_ROOT | STP_ROLE_DESIGNATED | STP_ROLE_ALTERNATE

datatype STPPortState =
    STP_STATE_DISABLED | STP_STATE_BLOCKING | STP_STATE_LISTENING | STP_STATE_LEARNING
  | STP_STATE_FORWARDING

record STPPort =
  sp_intf :: nat
  sp_name :: string
  sp_portID :: u16
  sp_pathCost :: u32
  sp_role :: STPPortRole
  sp_state :: STPPortState
  sp_hasBPDU :: bool
  sp_received :: stpPriorityVector
  sp_messageAge :: int
  sp_receivedAt :: int
  sp_stateDeadline :: "int option"

record STPState =
  st_enabled :: bool
  st_priority :: u16
  st_bridgeID :: BridgeID
  st_rootID :: BridgeID
  st_rootPathCost :: u32
  st_rootPortName :: string
  st_ports :: "STPPort list"
  st_helloTime :: int
  st_maxAge :: int
  st_forwardDelay :: int
  st_topologyChange :: bool

record stpChange =
  ch_port :: string
  ch_role :: STPPortRole
  ch_state :: STPPortState
  ch_oldRole :: STPPortRole
  ch_oldState :: STPPortState

definition STP_HELLO_TIME :: int where "STP_HELLO_TIME = 2 * second"
definition STP_MAX_AGE :: int where "STP_MAX_AGE = 20 * second"
definition STP_FORWARD_DELAY :: int where "STP_FORWARD_DELAY = 15 * second"

definition InitSTPState :: STPState where
  "InitSTPState =
     \<lparr>st_enabled = False, st_priority = STP_DEFAULT_BRIDGE_PRIORITY, st_bridgeID = zero_bridge_id,
      st_rootID = zero_bridge_id, st_rootPathCost = 0, st_rootPortName = [], st_ports = [],
      st_helloTime = STP_HELLO_TIME, st_maxAge = STP_MAX_AGE, st_forwardDelay = STP_FORWARD_DELAY,
      st_topologyChange = False\<rparr>"

text \<open>BPDU times are 1/256ths of a second, 3906250 nanoseconds each; the conversion truncates.\<close>

definition durationToBPDUTime :: "int \<Rightarrow> u16" where
  "durationToBPDUTime value =
     (let ticks = value * 256 div second in
      if ticks < 0 then 0 else if ticks > 65535 then 65535 else word_of_int ticks)"

definition bpduTimeToDuration :: "u16 \<Rightarrow> int" where
  "bpduTimeToDuration value = int (unat value) * 3906250"

lemma durationToBPDUTime_bpduTimeToDuration:
  "durationToBPDUTime (bpduTimeToDuration v) = v"
proof -
  have "uint v < 65536" using unsigned_less [of v, where ?'a = int] by simp
  moreover have "bpduTimeToDuration v * 256 div second = int (unat v)"
    by (simp add: bpduTimeToDuration_def second_def)
  ultimately show ?thesis by (simp add: durationToBPDUTime_def Let_def)
qed

section \<open>Ports\<close>

definition portsSorted :: "STPState \<Rightarrow> STPPort list" where
  "portsSorted stp = sort_key sp_portID (st_ports stp)"

definition port_by_name :: "STPState \<Rightarrow> string \<Rightarrow> STPPort option" where
  "port_by_name stp name = find (\<lambda>p. sp_name p = name) (st_ports stp)"

definition set_port :: "STPState \<Rightarrow> STPPort \<Rightarrow> STPState" where
  "set_port stp port =
     stp\<lparr>st_ports := map (\<lambda>p. if sp_name p = sp_name port then port else p) (st_ports stp)\<rparr>"

text \<open>\<open>bridgeAddress\<close>: the lowest interface MAC of the node, the zero address without interfaces.\<close>

definition bridgeAddress :: "intf_array \<Rightarrow> MacAddr" where
  "bridgeAddress intfs =
     (case foldl (\<lambda>acc x. case x of None \<Rightarrow> acc
         | Some intf \<Rightarrow>
             (case acc of None \<Rightarrow> Some (GetMac intf)
              | Some address \<Rightarrow>
                  if BridgeID_Compare (BridgeID 0 (GetMac intf)) (BridgeID 0 address) < 0
                  then Some (GetMac intf) else Some address)) None intfs of
        None \<Rightarrow> zero_mac | Some a \<Rightarrow> a)"

definition stpPortEligible :: "Link list \<Rightarrow> Interface \<Rightarrow> bool" where
  "stpPortEligible lks intf \<longleftrightarrow> link intf \<noteq> None \<and> IsUp lks (link intf) \<and> \<not> IS_INTF_L3_MODE intf"

definition new_port :: "Link list \<Rightarrow> nat \<Rightarrow> Interface \<Rightarrow> STPPort" where
  "new_port lks index intf =
     \<lparr>sp_intf = index, sp_name = get_interface_name intf,
      sp_portID = makePortID STP_DEFAULT_PORT_PRIORITY (word_of_nat (index + 1)),
      sp_pathCost =
        (case link intf of
           None \<Rightarrow> STP_DEFAULT_PATH_COST
         | Some k \<Rightarrow> if cost (lks ! k) > 0 then cost (lks ! k) else STP_DEFAULT_PATH_COST),
      sp_role = STP_ROLE_DESIGNATED, sp_state = STP_STATE_BLOCKING, sp_hasBPDU = False,
      sp_received = zero_vector, sp_messageAge = 0, sp_receivedAt = 0, sp_stateDeadline = None\<rparr>"

text \<open>\<open>syncPorts\<close>: the loop over the node's slots, then the removal of ports not seen.\<close>

fun sync_loop :: "Link list \<Rightarrow> nat \<Rightarrow> intf_array \<Rightarrow> STPState \<Rightarrow> string list \<Rightarrow> STPState \<times> string list" where
  "sync_loop lks index [] stp seen = (stp, seen)"
| "sync_loop lks index (None # rest) stp seen = sync_loop lks (index + 1) rest stp seen"
| "sync_loop lks index (Some intf # rest) stp seen =
     (if \<not> stpPortEligible lks intf then sync_loop lks (index + 1) rest stp seen
      else
        (let name = get_interface_name intf in
         case port_by_name stp name of
           Some port \<Rightarrow> sync_loop lks (index + 1) rest (set_port stp (port\<lparr>sp_intf := index\<rparr>)) (name # seen)
         | None \<Rightarrow> sync_loop lks (index + 1) rest
                     (stp\<lparr>st_ports := st_ports stp @ [new_port lks index intf]\<rparr>) (name # seen)))"

definition syncPorts :: "STPState \<Rightarrow> Link list \<Rightarrow> intf_array \<Rightarrow> STPState" where
  "syncPorts stp lks intfs =
     (let (stp1, seen) = sync_loop lks 0 intfs stp [] in
      stp1\<lparr>st_ports := filter (\<lambda>p. sp_name p \<in> set seen) (st_ports stp1)\<rparr>)"

section \<open>Roles and port states\<close>

text \<open>\<open>setPortRole\<close>: the new port, and whether the MAC entries learned on it are flushed.\<close>

definition setPortRole :: "int \<Rightarrow> int \<Rightarrow> STPPort \<Rightarrow> STPPortRole \<Rightarrow> STPPort \<times> bool" where
  "setPortRole forwardDelay now port role =
     (let previousRole = sp_role port; port1 = port\<lparr>sp_role := role\<rparr> in
      if role = STP_ROLE_ROOT \<or> role = STP_ROLE_DESIGNATED then
        (if sp_state port1 = STP_STATE_FORWARDING \<or> sp_state port1 = STP_STATE_LEARNING
         then (port1, False)
         else if forwardDelay \<le> 0
         then (port1\<lparr>sp_state := STP_STATE_FORWARDING, sp_stateDeadline := None\<rparr>, False)
         else (port1\<lparr>sp_state := STP_STATE_LISTENING, sp_stateDeadline := Some (now + forwardDelay)\<rparr>, False))
      else
        (port1\<lparr>sp_state := STP_STATE_BLOCKING, sp_stateDeadline := None\<rparr>,
         previousRole \<noteq> role \<and> sp_state port1 = STP_STATE_FORWARDING))"

text \<open>Step 1 of \<open>recomputeLocked\<close>: the best root identifier heard of.\<close>

definition elect_root :: "BridgeID \<Rightarrow> STPPort list \<Rightarrow> BridgeID" where
  "elect_root bridgeID ports =
     foldl (\<lambda>rootID port.
       if sp_hasBPDU port \<and> BridgeID_Compare (pv_RootID (sp_received port)) rootID < 0
       then pv_RootID (sp_received port) else rootID) bridgeID ports"

text \<open>Step 2: the root port and the vector it was chosen for.  The path cost wraps at 32 bits.\<close>

definition root_candidate :: "BridgeID \<Rightarrow> STPPort \<Rightarrow> stpPriorityVector" where
  "root_candidate rootID port =
     \<lparr>pv_RootID = rootID, pv_RootPathCost = pv_RootPathCost (sp_received port) + sp_pathCost port,
      pv_BridgeID = pv_BridgeID (sp_received port), pv_PortID = pv_PortID (sp_received port)\<rparr>"

definition choose_root_port :: "BridgeID \<Rightarrow> STPPort list \<Rightarrow> (STPPort \<times> stpPriorityVector) option" where
  "choose_root_port rootID ports =
     foldl (\<lambda>best port.
       if \<not> sp_hasBPDU port \<or> BridgeID_Compare (pv_RootID (sp_received port)) rootID \<noteq> 0 then best
       else case best of
         None \<Rightarrow> Some (port, root_candidate rootID port)
       | Some (rootPort, bestVector) \<Rightarrow>
           if stpPriorityVector_Compare (root_candidate rootID port) bestVector < 0
           then Some (port, root_candidate rootID port) else Some (rootPort, bestVector)) None ports"

text \<open>Step 3: the role of one port.\<close>

definition our_vector :: "BridgeID \<Rightarrow> u32 \<Rightarrow> BridgeID \<Rightarrow> STPPort \<Rightarrow> stpPriorityVector" where
  "our_vector rootID rootCost bridgeID port =
     \<lparr>pv_RootID = rootID, pv_RootPathCost = rootCost, pv_BridgeID = bridgeID, pv_PortID = sp_portID port\<rparr>"

definition port_role :: "BridgeID \<Rightarrow> u32 \<Rightarrow> BridgeID \<Rightarrow> STPPort option \<Rightarrow> STPPort \<Rightarrow> STPPortRole" where
  "port_role rootID rootCost bridgeID rootPort port =
     (if map_option sp_name rootPort = Some (sp_name port) then STP_ROLE_ROOT
      else if \<not> sp_hasBPDU port
        \<or> stpPriorityVector_Compare (our_vector rootID rootCost bridgeID port) (sp_received port) < 0
      then STP_ROLE_DESIGNATED else STP_ROLE_ALTERNATE)"

definition mk_change :: "STPPort \<Rightarrow> STPPort \<Rightarrow> stpChange" where
  "mk_change old new =
     \<lparr>ch_port = sp_name new, ch_role = sp_role new, ch_state = sp_state new,
      ch_oldRole = sp_role old, ch_oldState = sp_state old\<rparr>"

definition port_moved :: "STPPort \<Rightarrow> STPPort \<Rightarrow> bool" where
  "port_moved old new \<longleftrightarrow> \<not> (sp_role old = sp_role new \<and> sp_state old = sp_state new)"

definition recomputeLocked ::
  "STPState \<Rightarrow> int \<Rightarrow> mac_table \<Rightarrow> STPState \<times> mac_table \<times> stpChange list" where
  "recomputeLocked stp now macs =
     (let ports = portsSorted stp;
          rootID = elect_root (st_bridgeID stp) ports;
          isRoot = (BridgeID_Compare rootID (st_bridgeID stp) = 0);
          choice = (if isRoot then None else choose_root_port rootID ports);
          rootPort = map_option fst choice;
          rootCost = (case choice of None \<Rightarrow> 0 | Some (_, bestVector) \<Rightarrow> pv_RootPathCost bestVector);
          rootPortName = (case rootPort of None \<Rightarrow> [] | Some p \<Rightarrow> sp_name p);
          moved = map (\<lambda>p. setPortRole (st_forwardDelay stp) now p
                             (port_role rootID rootCost (st_bridgeID stp) rootPort p)) ports;
          newPorts = map fst moved;
          macs' = foldl (\<lambda>t (p, flush). if flush then fst (flush_mac_table_for_interface t (sp_name p)) else t)
                    macs moved;
          changes = map (\<lambda>(o', n). mk_change o' n) (filter (\<lambda>(o', n). port_moved o' n) (zip ports newPorts));
          topo = (BridgeID_Compare (st_rootID stp) rootID \<noteq> 0 \<or> st_rootPortName stp \<noteq> rootPortName)
      in (stp\<lparr>st_rootID := rootID, st_rootPathCost := rootCost, st_rootPortName := rootPortName,
              st_ports := newPorts, st_topologyChange := st_topologyChange stp \<or> topo\<rparr>,
          macs', changes))"

section \<open>Transmission\<close>

definition configBPDU :: "STPState \<Rightarrow> STPPort \<Rightarrow> int \<Rightarrow> BPDU" where
  "configBPDU stp port messageAge =
     \<lparr>ProtocolID = STP_PROTOCOL_ID, Version = STP_VERSION_ID, Type = STP_BPDU_TYPE_CONFIG,
      Flags = (if st_topologyChange stp then 0 OR STP_FLAG_TOPOLOGY_CHANGE else 0),
      RootID = st_rootID stp, RootPathCost = st_rootPathCost stp, BridgeID_f = st_bridgeID stp,
      PortID = sp_portID port, MessageAge = durationToBPDUTime messageAge,
      MaxAge = durationToBPDUTime (st_maxAge stp), HelloTime = durationToBPDUTime (st_helloTime stp),
      ForwardDelay = durationToBPDUTime (st_forwardDelay stp)\<rparr>"

text \<open>The age of the information a bridge relays: zero at the root.\<close>

definition relayed_age :: "STPState \<Rightarrow> int" where
  "relayed_age stp =
     (if st_rootPortName stp \<noteq> [] then
        (case port_by_name stp (st_rootPortName stp) of
           Some rootPort \<Rightarrow> if sp_hasBPDU rootPort then sp_messageAge rootPort + st_helloTime stp else 0
         | None \<Rightarrow> 0)
      else 0)"

type_synonym pendingBPDU = "STPPort \<times> BPDU"

definition collectDesignatedBPDUs :: "STPState \<Rightarrow> pendingBPDU list" where
  "collectDesignatedBPDUs stp =
     (let messageAge = relayed_age stp in
      map (\<lambda>port. (port, configBPDU stp port messageAge))
        (filter (\<lambda>port. \<not> (sp_role port \<noteq> STP_ROLE_DESIGNATED \<or> sp_state port = STP_STATE_DISABLED)
                   \<and> \<not> messageAge \<ge> st_maxAge stp) (portsSorted stp)))"

text \<open>
  \<open>transmit\<close> draws on the graph's BPDU budget, one unit per BPDU, and stops for good when the
  budget is spent.  The result is the budget left and the frames for \<open>send_frame\<close>.
\<close>

fun transmit :: "intf_array \<Rightarrow> int \<Rightarrow> pendingBPDU list \<Rightarrow> int \<times> (nat \<times> bytes) list" where
  "transmit intfs budget [] = (budget, [])"
| "transmit intfs budget ((port, bpdu) # rest) =
     (if \<not> budget - 1 \<ge> 0 then (budget - 1, [])
      else case intf_at intfs (sp_intf port) of
        None \<Rightarrow> transmit intfs (budget - 1) rest
      | Some intf \<Rightarrow>
          (let frame = buildSTPFrame (GetMac intf) (serializeBPDU bpdu);
               (budget', frames) = transmit intfs (budget - 1) rest
           in (budget', (sp_intf port, frame) # frames)))"

section \<open>Reception\<close>

text \<open>
  The outcome of a BPDU: the new state, the MAC table, what to transmit, the role changes, and the
  error if the frame is refused.
\<close>

record stp_outcome =
  so_state :: STPState
  so_macs :: mac_table
  so_pending :: "pendingBPDU list"
  so_changes :: "stpChange list"
  so_error :: "string option"

definition unchanged_outcome :: "STPState \<Rightarrow> mac_table \<Rightarrow> string option \<Rightarrow> stp_outcome" where
  "unchanged_outcome stp macs e =
     \<lparr>so_state = stp, so_macs = macs, so_pending = [], so_changes = [], so_error = e\<rparr>"

definition bpdu_vector :: "BPDU \<Rightarrow> stpPriorityVector" where
  "bpdu_vector bpdu =
     \<lparr>pv_RootID = RootID bpdu, pv_RootPathCost = RootPathCost bpdu, pv_BridgeID = BridgeID_f bpdu,
      pv_PortID = PortID bpdu\<rparr>"

definition processTopologyChangeNotification :: "STPState \<Rightarrow> mac_table \<Rightarrow> stp_outcome" where
  "processTopologyChangeNotification stp macs =
     unchanged_outcome (stp\<lparr>st_topologyChange := True\<rparr>) (fst (flush_mac_table macs)) None"

text \<open>The inferior and refresh branch, and the superior branch, of \<open>ProcessBPDU\<close>.\<close>

definition process_not_superior ::
  "STPState \<Rightarrow> int \<Rightarrow> mac_table \<Rightarrow> STPPort \<Rightarrow> BPDU \<Rightarrow> stp_outcome" where
  "process_not_superior stp now macs port bpdu =
     (let received = bpdu_vector bpdu;
          ownVector = our_vector (st_rootID stp) (st_rootPathCost stp) (st_bridgeID stp) port;
          inferiorToUs = (stpPriorityVector_Compare ownVector received < 0)
      in if sp_role port = STP_ROLE_DESIGNATED \<and> inferiorToUs then
           (unchanged_outcome stp macs None)\<lparr>so_pending := [(port, configBPDU stp port (relayed_age stp))]\<rparr>
         else if stpPriorityVector_Compare received (sp_received port) = 0 then
           unchanged_outcome
             (set_port stp (port\<lparr>sp_receivedAt := now, sp_messageAge := bpduTimeToDuration (MessageAge bpdu)\<rparr>))
             macs None
         else unchanged_outcome stp macs None)"

definition record_bpdu :: "STPState \<Rightarrow> int \<Rightarrow> STPPort \<Rightarrow> BPDU \<Rightarrow> STPState" where
  "record_bpdu stp now port bpdu =
     (let received = bpdu_vector bpdu;
          stp1 = set_port stp (port\<lparr>sp_hasBPDU := True, sp_received := received,
                   sp_messageAge := bpduTimeToDuration (MessageAge bpdu), sp_receivedAt := now\<rparr>)
      in if BridgeID_Compare (pv_RootID received) (st_bridgeID stp) < 0
         then stp1\<lparr>st_maxAge := bpduTimeToDuration (MaxAge bpdu),
                   st_helloTime := bpduTimeToDuration (HelloTime bpdu),
                   st_forwardDelay := bpduTimeToDuration (ForwardDelay bpdu)\<rparr>
         else stp1)"

definition process_superior ::
  "STPState \<Rightarrow> int \<Rightarrow> mac_table \<Rightarrow> STPPort \<Rightarrow> BPDU \<Rightarrow> stp_outcome" where
  "process_superior stp now macs port bpdu =
     (let (stp2, macs2, changes) = recomputeLocked (record_bpdu stp now port bpdu) now macs;
          pending = collectDesignatedBPDUs stp2
      in \<lparr>so_state = stp2, so_macs = macs2, so_pending = (if changes \<noteq> [] then pending else []),
          so_changes = changes, so_error = None\<rparr>)"

definition superior :: "STPPort \<Rightarrow> stpPriorityVector \<Rightarrow> bool" where
  "superior port received \<longleftrightarrow> \<not> sp_hasBPDU port \<or> stpPriorityVector_Compare received (sp_received port) < 0"

definition ProcessBPDU ::
  "STPState \<Rightarrow> int \<Rightarrow> mac_table \<Rightarrow> string \<Rightarrow> EthernetHeader \<Rightarrow> bytes \<Rightarrow> stp_outcome" where
  "ProcessBPDU stp now macs portName ethHdr payload =
     (if \<not> isSTPBridgeGroupMAC (dst_mac ethHdr) then
        unchanged_outcome stp macs (Some ''BPDU is not addressed to the bridge group address'')
      else if \<not> st_enabled stp then unchanged_outcome stp macs None
      else case deserializeBPDU payload of
        Inl e \<Rightarrow> unchanged_outcome stp macs (Some e)
      | Inr bpdu \<Rightarrow>
          if Type bpdu = STP_BPDU_TYPE_TCN then processTopologyChangeNotification stp macs
          else case port_by_name stp portName of
            None \<Rightarrow> unchanged_outcome stp macs (Some ''interface does not take part in the spanning tree'')
          | Some port \<Rightarrow>
              if BridgeID_Compare (pv_BridgeID (bpdu_vector bpdu)) (st_bridgeID stp) = 0
              then unchanged_outcome stp macs None
              else if \<not> superior port (bpdu_vector bpdu)
              then process_not_superior stp now macs port bpdu
              else process_superior stp now macs port bpdu)"


section \<open>Life cycle and timers\<close>

definition seed_root :: "STPState \<Rightarrow> STPState" where
  "seed_root stp = stp\<lparr>st_rootID := st_bridgeID stp, st_rootPathCost := 0, st_rootPortName := []\<rparr>"

text \<open>\<open>Converge\<close>: recompute, then everything to advertise (None: the bridge is not enabled).\<close>

definition Converge :: "STPState \<Rightarrow> int \<Rightarrow> mac_table \<Rightarrow> stp_outcome" where
  "Converge stp now macs =
     (if \<not> st_enabled stp then unchanged_outcome stp macs None
      else
        (let (stp1, macs1, changes) = recomputeLocked stp now macs
         in \<lparr>so_state = stp1, so_macs = macs1, so_pending = collectDesignatedBPDUs stp1,
             so_changes = changes, so_error = None\<rparr>))"

definition StartSTP :: "STPState \<Rightarrow> Link list \<Rightarrow> intf_array \<Rightarrow> int \<Rightarrow> mac_table \<Rightarrow> stp_outcome" where
  "StartSTP stp lks intfs now macs =
     (if st_enabled stp then unchanged_outcome stp macs None
      else
        (let stp1 = stp\<lparr>st_enabled := True,
                        st_bridgeID := BridgeID (st_priority stp) (bridgeAddress intfs)\<rparr>
         in Converge (syncPorts (seed_root stp1) lks intfs) now macs))"

definition StopSTP :: "STPState \<Rightarrow> STPState" where
  "StopSTP stp =
     (if \<not> st_enabled stp then stp
      else stp\<lparr>st_enabled := False,
               st_ports := map (\<lambda>port. port\<lparr>sp_role := STP_ROLE_DISABLED, sp_state := STP_STATE_DISABLED,
                                         sp_hasBPDU := False, sp_stateDeadline := None\<rparr>) (st_ports stp)\<rparr>)"

definition SetPriority :: "STPState \<Rightarrow> u16 \<Rightarrow> int \<Rightarrow> mac_table \<Rightarrow> stp_outcome \<times> bool" where
  "SetPriority stp priority now macs =
     (if priority mod STP_BRIDGE_PRIORITY_STEP \<noteq> 0 then (unchanged_outcome stp macs None, False)
      else
        (let stp1 = stp\<lparr>st_priority := priority,
                        st_bridgeID := BridgeID priority (Address (st_bridgeID stp))\<rparr>;
             stp2 = (if st_enabled stp then seed_root stp1 else stp1)
         in (if st_enabled stp then Converge stp2 now macs else unchanged_outcome stp2 macs None, True)))"

definition resetForTopologyChange :: "STPState \<Rightarrow> Link list \<Rightarrow> intf_array \<Rightarrow> STPState" where
  "resetForTopologyChange stp lks intfs =
     (if \<not> st_enabled stp then stp
      else
        (let stp1 = syncPorts
               (seed_root (stp\<lparr>st_bridgeID := BridgeID (st_priority stp) (bridgeAddress intfs)\<rparr>)) lks intfs
         in stp1\<lparr>st_ports := map (\<lambda>port. port\<lparr>sp_role := STP_ROLE_DESIGNATED, sp_state := STP_STATE_BLOCKING,
                     sp_hasBPDU := False, sp_messageAge := 0, sp_receivedAt := 0,
                     sp_stateDeadline := None\<rparr>) (st_ports stp1),
                 st_topologyChange := True\<rparr>))"

definition SendHello :: "STPState \<Rightarrow> pendingBPDU list" where
  "SendHello stp = (if \<not> st_enabled stp then [] else collectDesignatedBPDUs stp)"

text \<open>\<open>advancePortStates\<close>: one port whose deadline may have passed.\<close>

definition advance_port :: "int \<Rightarrow> int \<Rightarrow> STPPort \<Rightarrow> STPPort" where
  "advance_port forwardDelay now port =
     (case sp_stateDeadline port of
        None \<Rightarrow> port
      | Some deadline \<Rightarrow>
          if now < deadline then port
          else if sp_state port = STP_STATE_LISTENING
          then port\<lparr>sp_state := STP_STATE_LEARNING, sp_stateDeadline := Some (now + forwardDelay)\<rparr>
          else if sp_state port = STP_STATE_LEARNING
          then port\<lparr>sp_state := STP_STATE_FORWARDING, sp_stateDeadline := None\<rparr>
          else port\<lparr>sp_stateDeadline := None\<rparr>)"

definition changes_between :: "STPPort list \<Rightarrow> STPPort list \<Rightarrow> stpChange list" where
  "changes_between olds news =
     map (\<lambda>(o', n). mk_change o' n) (filter (\<lambda>(o', n). port_moved o' n) (zip olds news))"

definition advancePortStates :: "STPState \<Rightarrow> int \<Rightarrow> STPState \<times> stpChange list" where
  "advancePortStates stp now =
     (if \<not> st_enabled stp then (stp, [])
      else
        (let news = map (advance_port (st_forwardDelay stp) now) (portsSorted stp)
         in (stp\<lparr>st_ports := news\<rparr>, changes_between (portsSorted stp) news)))"

definition promote_port :: "STPPort \<Rightarrow> STPPort" where
  "promote_port port =
     (if sp_role port \<noteq> STP_ROLE_ROOT \<and> sp_role port \<noteq> STP_ROLE_DESIGNATED then port
      else if sp_state port = STP_STATE_FORWARDING then port
      else port\<lparr>sp_state := STP_STATE_FORWARDING, sp_stateDeadline := None\<rparr>)"

definition promoteForwardingPorts :: "STPState \<Rightarrow> STPState \<times> stpChange list" where
  "promoteForwardingPorts stp =
     (if \<not> st_enabled stp then (stp, [])
      else
        (let news = map promote_port (portsSorted stp)
         in (stp\<lparr>st_ports := news\<rparr>, changes_between (portsSorted stp) news)))"

definition age_expired :: "int \<Rightarrow> int \<Rightarrow> STPPort \<Rightarrow> bool" where
  "age_expired maxAge now port \<longleftrightarrow>
     sp_hasBPDU port \<and> \<not> (now - sp_receivedAt port) + sp_messageAge port \<le> maxAge"

definition forget_bpdu :: "STPPort \<Rightarrow> STPPort" where
  "forget_bpdu port = port\<lparr>sp_hasBPDU := False, sp_received := zero_vector, sp_messageAge := 0\<rparr>"

definition ageOutBPDUs :: "STPState \<Rightarrow> int \<Rightarrow> mac_table \<Rightarrow> stp_outcome" where
  "ageOutBPDUs stp now macs =
     (if \<not> st_enabled stp then unchanged_outcome stp macs None
      else if \<not> list_ex (age_expired (st_maxAge stp) now) (portsSorted stp) then unchanged_outcome stp macs None
      else
        (let stp1 = stp\<lparr>st_ports := map (\<lambda>p. if age_expired (st_maxAge stp) now p then forget_bpdu p else p)
                                        (portsSorted stp)\<rparr>;
             (stp2, macs2, changes) = recomputeLocked stp1 now macs
         in \<lparr>so_state = stp2, so_macs = macs2, so_pending = collectDesignatedBPDUs stp2,
             so_changes = changes, so_error = None\<rparr>))"

section \<open>Queries\<close>

definition stp_port_can_forward :: "Link list \<Rightarrow> STPState \<Rightarrow> Interface \<Rightarrow> bool" where
  "stp_port_can_forward lks stp intf =
     (if link intf = None \<or> \<not> IsUp lks (link intf) then False
      else if \<not> st_enabled stp then True
      else case port_by_name stp (get_interface_name intf) of
        None \<Rightarrow> True
      | Some port \<Rightarrow> sp_state port = STP_STATE_FORWARDING)"

definition stp_port_can_learn :: "Link list \<Rightarrow> STPState \<Rightarrow> Interface \<Rightarrow> bool" where
  "stp_port_can_learn lks stp intf =
     (if link intf = None \<or> \<not> IsUp lks (link intf) then False
      else if \<not> st_enabled stp then True
      else case port_by_name stp (get_interface_name intf) of
        None \<Rightarrow> True
      | Some port \<Rightarrow> sp_state port = STP_STATE_LEARNING \<or> sp_state port = STP_STATE_FORWARDING)"

definition IsRootBridge :: "STPState \<Rightarrow> bool" where
  "IsRootBridge stp \<longleftrightarrow> st_enabled stp \<and> BridgeID_Compare (st_rootID stp) (st_bridgeID stp) = 0"

text \<open>\<open>convergenceMark\<close>: what must stand still for a bridge to count as settled.\<close>

definition convergenceMark ::
  "STPState \<Rightarrow> BridgeID \<times> u32 \<times> string \<times> (STPPortRole \<times> STPPortState) list" where
  "convergenceMark stp =
     (st_rootID stp, st_rootPathCost stp, st_rootPortName stp,
      map (\<lambda>p. (sp_role p, sp_state p)) (portsSorted stp))"

lemma can_forward_can_learn: "stp_port_can_forward lks stp intf \<Longrightarrow> stp_port_can_learn lks stp intf"
  by (auto simp: stp_port_can_forward_def stp_port_can_learn_def split: if_splits option.splits)

end
