(* ===== verification/ArpTable.thy ===== *)
theory ArpTable
  imports MacTable Ether
begin

text \<open>
  The ARP header codec and the ARP table (\<open>src/src/l2_arp.go\<close>): a linked list of bindings, newest
  at the head, whose incomplete entries hold the packets that wait for the answer.

  Go's callbacks are values of a type parameter \<open>'c\<close>: the table stores and returns them, it never
  looks inside.  \<open>time.Now()\<close> is the parameter \<open>now\<close>, nanoseconds as in \<open>MacTable\<close>.  The field
  \<open>is_sane\<close> keeps the source's meaning: True while the entry waits for an answer.
\<close>

definition ARP_OP_REQUEST :: u16 where "ARP_OP_REQUEST = 1"
definition ARP_OP_REPLY :: u16 where "ARP_OP_REPLY = 2"
definition ARP_HW_TYPE_ETHERNET :: u16 where "ARP_HW_TYPE_ETHERNET = 1"
definition ARP_PROTO_TYPE_IP :: u16 where "ARP_PROTO_TYPE_IP = 0x0800"
definition ARP_HW_ADDR_LEN :: byte where "ARP_HW_ADDR_LEN = 6"
definition ARP_PROTO_ADDR_LEN :: byte where "ARP_PROTO_ADDR_LEN = 4"
definition ARP_HDR_SIZE :: nat where "ARP_HDR_SIZE = 28"

section \<open>The header codec\<close>

record arp_hdr_t =
  ah_hw_type :: u16
  ah_proto_type :: u16
  ah_hw_addr_len :: byte
  ah_proto_addr_len :: byte
  ah_op_code :: u16
  ah_src_mac :: MacAddr
  ah_src_ip :: u32
  ah_dst_mac :: MacAddr
  ah_dst_ip :: u32

definition serialize_arp_header :: "arp_hdr_t \<Rightarrow> bytes" where
  "serialize_arp_header hdr =
     put16 (ah_hw_type hdr) @ put16 (ah_proto_type hdr) @ [ah_hw_addr_len hdr, ah_proto_addr_len hdr] @
     put16 (ah_op_code hdr) @ mac_bytes (ah_src_mac hdr) @ put32 (ah_src_ip hdr) @
     mac_bytes (ah_dst_mac hdr) @ put32 (ah_dst_ip hdr)"

definition deserialize_arp_header :: "bytes \<Rightarrow> string + arp_hdr_t" where
  "deserialize_arp_header buffer =
     (if length buffer < ARP_HDR_SIZE then Inl ''buffer too small for ARP header''
      else Inr \<lparr>ah_hw_type = u16_at buffer 0, ah_proto_type = u16_at buffer 2, ah_hw_addr_len = buffer ! 4,
                ah_proto_addr_len = buffer ! 5, ah_op_code = u16_at buffer 6,
                ah_src_mac = mac_at buffer 8, ah_src_ip = u32_at buffer 14,
                ah_dst_mac = mac_at buffer 18, ah_dst_ip = u32_at buffer 24\<rparr>)"

lemma length_serialize_arp_header [simp, frame_lens]: "length (serialize_arp_header h) = 28"
  by (simp add: serialize_arp_header_def)

lemma deserialize_serialize_arp_header [codec_simps]:
  "deserialize_arp_header (serialize_arp_header h @ rest) = Inr h"
proof -
  let ?a = "put16 (ah_hw_type h)" and ?b = "put16 (ah_proto_type h)"
  let ?c = "[ah_hw_addr_len h, ah_proto_addr_len h]" and ?o = "put16 (ah_op_code h)"
  let ?m = "mac_bytes (ah_src_mac h)" and ?i = "put32 (ah_src_ip h)"
  let ?n = "mac_bytes (ah_dst_mac h)" and ?j = "put32 (ah_dst_ip h)"
  let ?buf = "serialize_arp_header h @ rest"
  have "u16_at ?buf 0 = ah_hw_type h" "u16_at ?buf 2 = ah_proto_type h" "u16_at ?buf 6 = ah_op_code h"
    using u16_at_put16 [of "[]" 0 "ah_hw_type h"] u16_at_put16 [of "?a" 2 "ah_proto_type h"]
      u16_at_put16 [of "?a @ ?b @ ?c" 6 "ah_op_code h"]
    by (simp_all add: serialize_arp_header_def)
  moreover have "?buf ! 4 = ah_hw_addr_len h" "?buf ! 5 = ah_proto_addr_len h"
    by (simp_all add: serialize_arp_header_def nth_append)
  moreover have "mac_at ?buf 8 = ah_src_mac h" "mac_at ?buf 18 = ah_dst_mac h"
    using mac_at_append [of "?a @ ?b @ ?c @ ?o" 8 "ah_src_mac h"]
      mac_at_append [of "?a @ ?b @ ?c @ ?o @ ?m @ ?i" 18 "ah_dst_mac h"]
    by (simp_all add: serialize_arp_header_def)
  moreover have "u32_at ?buf 14 = ah_src_ip h" "u32_at ?buf 24 = ah_dst_ip h"
    using u32_at_put32 [of "?a @ ?b @ ?c @ ?o @ ?m" 14 "ah_src_ip h"]
      u32_at_put32 [of "?a @ ?b @ ?c @ ?o @ ?m @ ?i @ ?n" 24 "ah_dst_ip h" rest]
    by (simp_all add: serialize_arp_header_def)
  ultimately show ?thesis by (simp add: deserialize_arp_header_def ARP_HDR_SIZE_def)
qed

section \<open>Entries\<close>

record 'c arp_pending_entry =
  pe_pkt :: bytes
  pe_pkt_size :: nat
  pe_callback :: "'c option"
  pe_failure_callback :: "'c option"

record 'c arp_entry =
  ae_ip_addr :: IpAddr
  ae_mac_addr :: MacAddr
  ae_oif_name :: string
  ae_is_sane :: bool
  ae_created_at :: int
  ae_updated_at :: int
  ae_pending_list :: "'c arp_pending_entry list"
  ae_retry :: "'c option"
  ae_requests :: nat

type_synonym 'c arp_table = "'c arp_entry list"

definition ARP_ENTRY_TIMEOUT :: int where "ARP_ENTRY_TIMEOUT = 60 * second"
definition ARP_REQUEST_RETRY_INTERVAL :: int where "ARP_REQUEST_RETRY_INTERVAL = second"
definition ARP_REQUEST_MAX_ATTEMPTS :: nat where "ARP_REQUEST_MAX_ATTEMPTS = 3"
definition ARP_PENDING_TIMEOUT :: int where
  "ARP_PENDING_TIMEOUT = int ARP_REQUEST_MAX_ATTEMPTS * ARP_REQUEST_RETRY_INTERVAL"

definition init_arp_table :: "'c arp_table" where "init_arp_table = []"

text \<open>A complete entry, as \<open>arp_table_add_entry\<close> and \<open>arp_learn_binding\<close> allocate it.\<close>

definition complete_entry :: "IpAddr \<Rightarrow> MacAddr \<Rightarrow> string \<Rightarrow> int \<Rightarrow> 'c arp_entry" where
  "complete_entry ip mac oif_name now =
     \<lparr>ae_ip_addr = ip, ae_mac_addr = mac, ae_oif_name = name_array IF_NAME_SIZE oif_name, ae_is_sane = False,
      ae_created_at = now, ae_updated_at = now, ae_pending_list = [], ae_retry = None, ae_requests = 0\<rparr>"

section \<open>Operations\<close>

definition arp_table_add_entry ::
  "'c arp_table \<Rightarrow> int \<Rightarrow> IpAddr \<Rightarrow> MacAddr \<Rightarrow> string \<Rightarrow> 'c arp_table \<times> bool" where
  "arp_table_add_entry table now ip mac oif_name =
     (if list_ex (\<lambda>e. ae_ip_addr e = ip) table then (table, False)
      else (complete_entry ip mac oif_name now # table, True))"

fun arp_table_lookup :: "'c arp_table \<Rightarrow> IpAddr \<Rightarrow> MacAddr option" where
  "arp_table_lookup [] ip = None"
| "arp_table_lookup (current # rest) ip =
     (if ae_ip_addr current = ip \<and> \<not> ae_is_sane current then Some (ae_mac_addr current)
      else arp_table_lookup rest ip)"

fun arp_table_update_entry ::
  "'c arp_table \<Rightarrow> int \<Rightarrow> IpAddr \<Rightarrow> MacAddr \<Rightarrow> string \<Rightarrow> 'c arp_table \<times> bool" where
  "arp_table_update_entry [] now ip mac oif_name = ([], False)"
| "arp_table_update_entry (current # rest) now ip mac oif_name =
     (if ae_ip_addr current = ip
      then (current\<lparr>ae_mac_addr := mac, ae_oif_name := go_copy (ae_oif_name current) oif_name,
                    ae_is_sane := False, ae_updated_at := now\<rparr> # rest, True)
      else (let (t, r) = arp_table_update_entry rest now ip mac oif_name in (current # t, r)))"

fun arp_table_delete_entry :: "'c arp_table \<Rightarrow> IpAddr \<Rightarrow> 'c arp_table \<times> bool" where
  "arp_table_delete_entry [] ip = ([], False)"
| "arp_table_delete_entry (e # rest) ip =
     (if ae_ip_addr e = ip then (rest, True)
      else (let (t, r) = arp_table_delete_entry rest ip in (e # t, r)))"

definition arp_table_clear :: "'c arp_table \<Rightarrow> 'c arp_table" where
  "arp_table_clear table = []"

text \<open>The loop through \<open>link := &table.head\<close> unlinks expired complete entries.\<close>

fun arp_table_cleanup_expired :: "'c arp_table \<Rightarrow> int \<Rightarrow> 'c arp_table \<times> nat" where
  "arp_table_cleanup_expired [] now = ([], 0)"
| "arp_table_cleanup_expired (entry # rest) now =
     (let (t, n) = arp_table_cleanup_expired rest now in
      if \<not> ae_is_sane entry \<and> now - ae_updated_at entry > ARP_ENTRY_TIMEOUT then (t, n + 1)
      else (entry # t, n))"

text \<open>
  \<open>arp_table_resolve_or_queue\<close>.  The scan stops at the first entry of the address: it either
  yields its MAC or takes the packet (at the front of its list).  None: no entry.
\<close>

datatype resolve_result = Resolved MacAddr | Queued bool | Rejected

fun resolve_scan ::
  "'c arp_table \<Rightarrow> IpAddr \<Rightarrow> 'c arp_pending_entry \<Rightarrow> 'c option \<Rightarrow> ('c arp_table \<times> resolve_result) option" where
  "resolve_scan [] ip pending retry = None"
| "resolve_scan (entry # rest) ip pending retry =
     (if ae_ip_addr entry \<noteq> ip then map_option (\<lambda>(t, r). (entry # t, r)) (resolve_scan rest ip pending retry)
      else if \<not> ae_is_sane entry then Some (entry # rest, Resolved (ae_mac_addr entry))
      else Some (entry\<lparr>ae_pending_list := pending # ae_pending_list entry,
                       ae_retry := (if ae_retry entry = None then retry else ae_retry entry)\<rparr> # rest,
                 Queued False))"

definition mk_pending :: "bytes \<Rightarrow> nat \<Rightarrow> 'c option \<Rightarrow> 'c option \<Rightarrow> 'c arp_pending_entry" where
  "mk_pending pkt pkt_size callback failure_callback =
     \<lparr>pe_pkt = take pkt_size pkt, pe_pkt_size = pkt_size, pe_callback = callback,
      pe_failure_callback = failure_callback\<rparr>"

definition incomplete_entry :: "IpAddr \<Rightarrow> string \<Rightarrow> int \<Rightarrow> 'c arp_pending_entry \<Rightarrow> 'c option \<Rightarrow> 'c arp_entry" where
  "incomplete_entry ip oif_name now pending retry =
     \<lparr>ae_ip_addr = ip, ae_mac_addr = zero_mac, ae_oif_name = name_array IF_NAME_SIZE oif_name, ae_is_sane = True,
      ae_created_at = now, ae_updated_at = now, ae_pending_list = [pending], ae_retry = retry, ae_requests = 1\<rparr>"

definition arp_table_resolve_or_queue ::
  "'c arp_table \<Rightarrow> int \<Rightarrow> IpAddr \<Rightarrow> string \<Rightarrow> bytes \<Rightarrow> nat \<Rightarrow> 'c option \<Rightarrow> 'c option \<Rightarrow> 'c option
     \<Rightarrow> 'c arp_table \<times> resolve_result" where
  "arp_table_resolve_or_queue table now ip oif_name pkt pkt_size callback failure_callback retry =
     (if pkt_size = 0 \<or> pkt_size > length pkt then (table, Rejected)
      else
        (let pending = mk_pending pkt pkt_size callback failure_callback in
         case resolve_scan table ip pending retry of
           Some r \<Rightarrow> r
         | None \<Rightarrow> (incomplete_entry ip oif_name now pending retry # table, Queued True)))"

text \<open>\<open>collect_arp_pending_actions\<close>: the retries to send and the failures to report.\<close>

record 'c arp_retry_action =
  ra_ip :: string
  ra_oif_name :: string
  ra_attempt :: nat
  ra_retry :: "'c option"

record 'c arp_failure_action =
  fa_ip :: string
  fa_oif_name :: string
  fa_attempts :: nat
  fa_pending_count :: nat
  fa_callbacks :: "'c list"

text \<open>\<open>strings.TrimRight(string(oif_name[:]), "\x00")\<close>.\<close>

definition trim_nul :: "string \<Rightarrow> string" where
  "trim_nul s = rev (dropWhile (\<lambda>c. c = NUL) (rev s))"

definition failure_of :: "'c arp_entry \<Rightarrow> 'c arp_failure_action" where
  "failure_of entry =
     \<lparr>fa_ip = ip_string (ae_ip_addr entry), fa_oif_name = trim_nul (ae_oif_name entry),
      fa_attempts = ae_requests entry, fa_pending_count = length (ae_pending_list entry),
      fa_callbacks = List.map_filter pe_failure_callback (ae_pending_list entry)\<rparr>"

definition retry_of :: "'c arp_entry \<Rightarrow> 'c arp_retry_action" where
  "retry_of entry =
     \<lparr>ra_ip = ip_string (ae_ip_addr entry), ra_oif_name = trim_nul (ae_oif_name entry),
      ra_attempt = ae_requests entry, ra_retry = ae_retry entry\<rparr>"

fun collect_arp_pending_actions ::
  "'c arp_table \<Rightarrow> int \<Rightarrow> 'c arp_table \<times> 'c arp_retry_action list \<times> 'c arp_failure_action list" where
  "collect_arp_pending_actions [] now = ([], [], [])"
| "collect_arp_pending_actions (entry # rest) now =
     (let (t, rs, fs) = collect_arp_pending_actions rest now in
      if \<not> ae_is_sane entry then (entry # t, rs, fs)
      else if now - ae_created_at entry \<ge> ARP_PENDING_TIMEOUT then (t, rs, failure_of entry # fs)
      else if ae_requests entry < ARP_REQUEST_MAX_ATTEMPTS
              \<and> now - ae_updated_at entry \<ge> ARP_REQUEST_RETRY_INTERVAL
      then (let entry' = entry\<lparr>ae_requests := ae_requests entry + 1, ae_updated_at := now\<rparr>
            in (entry' # t, retry_of entry' # rs, fs))
      else (entry # t, rs, fs))"

text \<open>
  The table part of \<open>arp_learn_binding\<close>: the new table, the packets released in order, and the
  label of the event (None: nothing merged).
\<close>

datatype cache_state = CacheLearned | CacheUpdated

fun learn_scan ::
  "'c arp_table \<Rightarrow> int \<Rightarrow> IpAddr \<Rightarrow> MacAddr \<Rightarrow> string \<Rightarrow> ('c arp_table \<times> 'c arp_pending_entry list) option" where
  "learn_scan [] now ip mac iif_name = None"
| "learn_scan (entry # rest) now ip mac iif_name =
     (if ae_ip_addr entry = ip
      then Some (entry\<lparr>ae_mac_addr := mac, ae_is_sane := False, ae_updated_at := now,
                       ae_oif_name := go_copy (ae_oif_name entry) iif_name,
                       ae_pending_list := [], ae_retry := None\<rparr> # rest, ae_pending_list entry)
      else map_option (\<lambda>(t, ps). (entry # t, ps)) (learn_scan rest now ip mac iif_name))"

definition arp_table_learn ::
  "'c arp_table \<Rightarrow> int \<Rightarrow> string \<Rightarrow> IpAddr \<Rightarrow> MacAddr \<Rightarrow> bool
     \<Rightarrow> 'c arp_table \<times> 'c arp_pending_entry list \<times> cache_state option" where
  "arp_table_learn table now iif_name ip mac existingOnly =
     (case learn_scan table now ip mac iif_name of
        Some (t, ps) \<Rightarrow> (t, ps, Some CacheUpdated)
      | None \<Rightarrow>
          if existingOnly then (table, [], None)
          else (complete_entry ip mac iif_name now # table, [], Some CacheLearned))"

end
