(* ===== verification/IpHeader.thy ===== *)
theory IpHeader
  imports Ether
begin

text \<open>
  The IPv4 header of \<open>src/src/l3_routing.go\<close>: its codec, the RFC 1071 checksum, and the checksum
  repair every hop makes.  Fields keep their Go width; the running sum of \<open>internetChecksum\<close> is a
  32-bit word that wraps, and its folding loop is a \<open>function\<close> with a termination proof.
\<close>

definition PROTO_ICMP :: byte where "PROTO_ICMP = 1"
definition PROTO_MTCP :: byte where "PROTO_MTCP = 20"
definition PROTO_USERAPP1 :: byte where "PROTO_USERAPP1 = 21"
definition PROTO_IP_IN_IP :: byte where "PROTO_IP_IN_IP = 4"
definition IPPROTO_IPIP :: byte where "IPPROTO_IPIP = 4"
definition PROTO_RIP :: byte where "PROTO_RIP = 200"

record IPHeader =
  ih_Version :: byte
  ih_IHL :: byte
  ih_TOS :: byte
  ih_TotalLen :: u16
  ih_ID :: u16
  ih_Flags :: byte
  ih_FragOffset :: u16
  ih_TTL :: byte
  ih_Protocol :: byte
  ih_Checksum :: u16
  ih_SrcIP :: u32
  ih_DstIP :: u32

definition InitializeIPHeader :: IPHeader where
  "InitializeIPHeader =
     \<lparr>ih_Version = 4, ih_IHL = 5, ih_TOS = 0, ih_TotalLen = 0, ih_ID = 0, ih_Flags = 0x02,
      ih_FragOffset = 0, ih_TTL = 64, ih_Protocol = 0, ih_Checksum = 0, ih_SrcIP = 0, ih_DstIP = 0\<rparr>"

section \<open>The checksum\<close>

fun sum16 :: "bytes \<Rightarrow> u32 \<Rightarrow> u32" where
  "sum16 (a # b # data) s = sum16 data (s + ucast (get16 a b))"
| "sum16 [a] s = s + push_bit 8 (ucast a)"
| "sum16 [] s = s"

lemma unat_and_ffff: "unat (s AND 0xffff :: u32) = unat s mod 65536"
proof -
  have "s AND 0xffff = take_bit 16 s" by (simp add: take_bit_eq_mask mask_eq_exp_minus_1)
  then show ?thesis by (simp only: unsigned_take_bit_eq) (simp add: take_bit_eq_mod)
qed

lemma unat_drop16: "unat (drop_bit 16 s :: u32) = unat s div 65536"
  by (simp only: unat_drop_bit_eq) (simp add: drop_bit_eq_div)

lemma unat_fold_step: "unat ((s AND 0xffff) + drop_bit 16 s :: u32) = unat s mod 65536 + unat s div 65536"
proof -
  have "unat s < 4294967296" using unsigned_less [of s, where ?'a = nat] by simp
  then have "unat s div 65536 < 65536" by (simp add: less_mult_imp_div_less)
  then have "unat s mod 65536 + unat s div 65536 < 4294967296" using mod_less_divisor [of 65536 "unat s"] by simp
  then show ?thesis by (simp add: unat_word_ariths unat_and_ffff unat_drop16)
qed

lemma drop16_zero: "drop_bit 16 (s :: u32) = 0 \<longleftrightarrow> unat s < 65536"
  using unat_drop16 [of s] by (metis div_eq_0_iff unsigned_0 word_unat_eq_iff zero_neq_numeral)

lemma fold_less: "65536 \<le> n \<Longrightarrow> n mod 65536 + n div 65536 < (n::nat)"
proof -
  assume "65536 \<le> n"
  then have "1 \<le> n div 65536" by simp
  moreover have "n = n div 65536 * 65536 + n mod 65536" by simp
  ultimately show ?thesis by linarith
qed

function fold16 :: "u32 \<Rightarrow> u32" where
  "fold16 s = (if drop_bit 16 s \<noteq> 0 then fold16 ((s AND 0xffff) + drop_bit 16 s) else s)"
  by pat_completeness auto
termination
proof (relation "measure unat")
  fix s :: u32 assume "drop_bit 16 s \<noteq> 0"
  then have "65536 \<le> unat s" by (simp add: drop16_zero not_less)
  then show "((s AND 0xffff) + drop_bit 16 s, s) \<in> measure unat"
    by (simp only: in_measure unat_fold_step fold_less)
qed simp

declare fold16.simps [simp del]

definition internetChecksum :: "bytes \<Rightarrow> u16" where
  "internetChecksum data = NOT (ucast (fold16 (sum16 data 0)))"

definition ipHeaderChecksum :: "bytes \<Rightarrow> u16" where
  "ipHeaderChecksum header = (if length header < 20 then 0 else internetChecksum (put16_at header 10 0))"

definition setIPHeaderChecksum :: "bytes \<Rightarrow> bytes" where
  "setIPHeaderChecksum header =
     (if length header < 20 then header else put16_at header 10 (ipHeaderChecksum header))"

definition validIPHeaderChecksum :: "bytes \<Rightarrow> bool" where
  "validIPHeaderChecksum header = (if length header < 20 then False else internetChecksum header = 0)"

section \<open>The codec\<close>

definition GetIPHeaderLen :: "IPHeader \<Rightarrow> nat" where
  "GetIPHeaderLen hdr = unat (ih_IHL hdr) * 4"

definition flags_and_offset :: "IPHeader \<Rightarrow> u16" where
  "flags_and_offset hdr = push_bit 13 (ucast (ih_Flags hdr)) OR (ih_FragOffset hdr AND 0x1FFF)"

definition SerializeIPHeader :: "IPHeader \<Rightarrow> bytes" where
  "SerializeIPHeader hdr =
     setIPHeaderChecksum
       ([push_bit 4 (ih_Version hdr) OR (ih_IHL hdr AND 0x0F), ih_TOS hdr] @ put16 (ih_TotalLen hdr) @
        put16 (ih_ID hdr) @ put16 (flags_and_offset hdr) @
        [ih_TTL hdr, ih_Protocol hdr] @ put16 (ih_Checksum hdr) @ put32 (ih_SrcIP hdr) @ put32 (ih_DstIP hdr))"

definition ip_header_at :: "bytes \<Rightarrow> IPHeader" where
  "ip_header_at buf =
     \<lparr>ih_Version = drop_bit 4 (buf ! 0) AND 0x0F, ih_IHL = buf ! 0 AND 0x0F, ih_TOS = buf ! 1,
      ih_TotalLen = u16_at buf 2, ih_ID = u16_at buf 4,
      ih_Flags = ucast (drop_bit 13 (u16_at buf 6) AND 0x07), ih_FragOffset = u16_at buf 6 AND 0x1FFF,
      ih_TTL = buf ! 8, ih_Protocol = buf ! 9, ih_Checksum = u16_at buf 10,
      ih_SrcIP = u32_at buf 12, ih_DstIP = u32_at buf 16\<rparr>"

definition DeserializeIPHeader :: "bytes \<Rightarrow> string + IPHeader" where
  "DeserializeIPHeader buf =
     (if length buf < 20 then Inl ''buffer too small for IP header''
      else
        (let hdr = ip_header_at buf in
         if ih_Version hdr \<noteq> 4 then Inl ''unsupported IP version''
         else if ih_IHL hdr < 5 \<or> GetIPHeaderLen hdr > length buf then Inl ''invalid IP header length''
         else if unat (ih_TotalLen hdr) < GetIPHeaderLen hdr \<or> unat (ih_TotalLen hdr) > length buf
         then Inl ''invalid IP total length''
         else Inr hdr))"


section \<open>The checksum as a sum of naturals\<close>

fun nsum :: "bytes \<Rightarrow> nat" where
  "nsum (a # b # data) = 256 * unat a + unat b + nsum data"
| "nsum [a] = 256 * unat a"
| "nsum [] = 0"

lemma small_mods:
  "n < 256 \<Longrightarrow> n * 256 mod 4294967296 = 256 * n" "n < 256 \<Longrightarrow> n * 256 mod 65536 = 256 * (n::nat)"
  by simp_all

lemma unat_ucast8: "unat (ucast (a :: byte) :: u32) = unat a" "unat (ucast (a :: byte) :: u16) = unat a"
proof -
  have "unat a < 4294967296" "unat a < 65536" using byte_less_256 [of a] by linarith+
  then show "unat (ucast a :: u32) = unat a" "unat (ucast a :: u16) = unat a"
    by (simp_all add: unsigned_ucast_eq take_bit_eq_mod)
qed

lemma unat_high_byte:
  "unat (push_bit 8 (ucast (a :: byte)) :: u32) = 256 * unat a"
  "unat (push_bit 8 (ucast (a :: byte)) :: u16) = 256 * unat a"
  by (simp_all add: push_bit_eq_mult unat_word_ariths unat_ucast8 small_mods [OF byte_less_256])

lemma unat_get16: "unat (get16 a b) = 256 * unat a + unat b"
proof -
  have "get16 a b = push_bit 8 (ucast a) + ucast b"
    unfolding get16_def by (rule disjunctive_add [symmetric]) (auto simp: bit_simps dest: bit_imp_le_length)
  moreover have "256 * unat a + unat b < 65536" using byte_less_256 [of a] byte_less_256 [of b] by linarith
  ultimately show ?thesis by (simp add: unat_word_ariths unat_high_byte unat_ucast8)
qed

lemma unat_add_u32: "unat (a :: u32) + unat b < 4294967296 \<Longrightarrow> unat (a + b) = unat a + unat b"
  by (simp add: unat_word_ariths)

lemma unat_ucast_16_32: "unat (ucast (w :: u16) :: u32) = unat w"
  using unsigned_less [of w, where ?'a = nat] by (simp add: unsigned_ucast_eq take_bit_eq_mod)

lemma unat_sum16: "unat s + nsum data < 4294967296 \<Longrightarrow> unat (sum16 data s) = unat s + nsum data"
proof (induction data s rule: sum16.induct)
  case (1 a b data s)
  have e: "unat (s + ucast (get16 a b)) = unat s + (256 * unat a + unat b)"
    by (subst unat_add_u32) (use 1(2) in \<open>simp_all add: unat_ucast_16_32 unat_get16\<close>)
  with 1 show ?case by simp
next
  case (2 a s)
  then show ?case by (simp add: unat_add_u32 unat_high_byte)
qed simp

lemma nsum_bound: "nsum data \<le> 65535 * ((length data + 1) div 2)"
proof (induction data rule: nsum.induct)
  case (1 a b data)
  moreover have "256 * unat a + unat b \<le> 65535" using byte_less_256 [of a] byte_less_256 [of b] by linarith
  ultimately show ?case by simp
next
  case (2 a)
  have "256 * unat a \<le> 65535" using byte_less_256 [of a] by linarith
  then show ?case by simp
qed simp

lemma fold_mod: "(n mod 65536 + n div 65536) mod 65535 = (n::nat) mod 65535"
proof -
  have "n = n div 65536 * 65535 + (n mod 65536 + n div 65536)" using div_mult_mod_eq [of n 65536] by linarith
  then show ?thesis by (metis mod_mult_self3)
qed

lemma fold_zero: "n mod 65536 + n div 65536 = 0 \<longleftrightarrow> n = (0::nat)"
  using div_mult_mod_eq [of n 65536] by (cases "n mod 65536 = 0"; cases "n div 65536 = 0") auto

text \<open>Folding keeps the residue modulo 65535, and reaches zero only from zero.\<close>

lemma fold16_props:
  "unat (fold16 s) < 65536 \<and> unat (fold16 s) mod 65535 = unat s mod 65535 \<and> (unat (fold16 s) = 0 \<longleftrightarrow> unat s = 0)"
proof (induction s rule: fold16.induct)
  case (1 s)
  show ?case
  proof (cases "drop_bit 16 s = 0")
    case True
    then show ?thesis by (subst (1 2 3) fold16.simps) (simp add: drop16_zero)
  next
    case False
    let ?t = "(s AND 0xffff) + drop_bit 16 s"
    have f: "fold16 s = fold16 ?t" using False by (subst fold16.simps) simp
    have t: "unat ?t = unat s mod 65536 + unat s div 65536" by (rule unat_fold_step)
    have "unat ?t mod 65535 = unat s mod 65535" unfolding t by (rule fold_mod)
    moreover have "unat ?t = 0 \<longleftrightarrow> unat s = 0" unfolding t by (rule fold_zero)
    ultimately show ?thesis using 1 [OF False] unfolding f by simp
  qed
qed

text \<open>The one's complement of the folded sum.\<close>

lemma unat_NOT_16: "unat (NOT (w :: u16)) = 65535 - unat w"
proof -
  have "(- 1 :: u16) = 65535" by simp
  then have "w \<le> 65535" using word_order.extremum [of w] by metis
  then have "unat (65535 - w) = 65535 - unat w" using unat_sub [of w 65535] by simp
  moreover have "NOT w = 65535 - w" by (simp add: not_eq_complement)
  ultimately show ?thesis by simp
qed

lemma unat_internetChecksum:
  assumes "nsum data < 4294967296"
  obtains F where "unat (internetChecksum data) = 65535 - F" "F \<le> 65535" "F mod 65535 = nsum data mod 65535"
    "F = 0 \<longleftrightarrow> nsum data = 0"
proof -
  let ?s = "sum16 data 0"
  have s: "unat ?s = nsum data" using unat_sum16 [of 0 data] assms by simp
  note p = fold16_props [of ?s]
  have "unat (ucast (fold16 ?s) :: u16) = unat (fold16 ?s)"
    using p by (simp add: unsigned_ucast_eq take_bit_eq_mod)
  then have "unat (internetChecksum data) = 65535 - unat (fold16 ?s)"
    by (simp add: internetChecksum_def unat_NOT_16)
  with p s that [of "unat (fold16 ?s)"] show ?thesis by simp
qed

lemma internetChecksum_zero_iff:
  assumes "nsum data < 4294967296"
  shows "internetChecksum data = 0 \<longleftrightarrow> 0 < nsum data \<and> nsum data mod 65535 = 0"
proof -
  obtain F where F: "unat (internetChecksum data) = 65535 - F" "F \<le> 65535" "F mod 65535 = nsum data mod 65535"
    "F = 0 \<longleftrightarrow> nsum data = 0" by (rule unat_internetChecksum [OF assms])
  have "internetChecksum data = 0 \<longleftrightarrow> unat (internetChecksum data) = 0" by (simp add: unat_eq_zero)
  also have "\<dots> \<longleftrightarrow> F = 65535" using F(1,2) by auto
  also have "\<dots> \<longleftrightarrow> 0 < nsum data \<and> nsum data mod 65535 = 0"
    using F(2-4) by (cases "F = 65535") auto
  finally show ?thesis .
qed

section \<open>Setting the checksum makes the header valid\<close>

lemma nsum_append: "even (length xs) \<Longrightarrow> nsum (xs @ ys) = nsum xs + nsum ys"
  by (induction xs rule: nsum.induct) auto

lemma nsum_put16: "nsum (put16 w) = unat w"
  using unat_get16 [of "ucast (drop_bit 8 w)" "ucast w"] by (simp add: put16_def)

lemma put16_at_split:
  "i + 2 \<le> length buf \<Longrightarrow> put16_at buf i w = take i buf @ put16 w @ drop (i + 2) buf"
  by (rule nth_equalityI)
     (auto simp: put16_at_def put16_def nth_append nth_list_update nth_Cons' not_less not_le Suc_diff_Suc
        numeral_2_eq_2)

lemma nsum_put16_at:
  assumes "even i" "i + 2 \<le> length buf"
  shows "nsum (put16_at buf i w) = nsum (put16_at buf i 0) + unat w"
  using assms by (simp add: put16_at_split nsum_append nsum_put16)

text \<open>Writing the checksum of the data with a zero field into the field makes the data sum to zero.\<close>

lemma internetChecksum_put:
  assumes "even i" "i + 2 \<le> length data" "length data \<le> 131068"
  shows "internetChecksum (put16_at data i (internetChecksum (put16_at data i 0))) = 0"
proof -
  let ?z = "put16_at data i 0"
  have bz: "nsum ?z < 4294967296 - 65536"
    using nsum_bound [of ?z] assms by simp
  obtain F where F: "unat (internetChecksum ?z) = 65535 - F" "F \<le> 65535" "F mod 65535 = nsum ?z mod 65535"
    "F = 0 \<longleftrightarrow> nsum ?z = 0" by (rule unat_internetChecksum [of ?z]) (use bz in simp)
  let ?h = "put16_at data i (internetChecksum ?z)"
  have n: "nsum ?h = nsum ?z + (65535 - F)"
    using nsum_put16_at [OF assms(1,2), of "internetChecksum ?z"] F(1) by simp
  have "(nsum ?z + (65535 - F)) mod 65535 = (F + (65535 - F)) mod 65535"
    using F(3) by (metis mod_add_left_eq)
  then have "nsum ?h mod 65535 = 0" using F(2) n by simp
  moreover have "0 < nsum ?h" using n F(2,4) by (cases "F = 0") auto
  moreover have "nsum ?h < 4294967296" using n bz by simp
  ultimately show ?thesis using internetChecksum_zero_iff [of ?h] by simp
qed

lemma validIPHeaderChecksum_set:
  assumes "20 \<le> length header" "length header \<le> 131068"
  shows "validIPHeaderChecksum (setIPHeaderChecksum header)"
  using assms internetChecksum_put [of 10 header]
  by (simp add: validIPHeaderChecksum_def setIPHeaderChecksum_def ipHeaderChecksum_def)

section \<open>A single corrupted byte is always detected\<close>

definition byte_weight :: "nat \<Rightarrow> nat" where
  "byte_weight i = (if even i then 256 else 1)"

lemma nsum_update:
  "i < length data \<Longrightarrow> nsum (data[i := b]) + byte_weight i * unat (data ! i) = nsum data + byte_weight i * unat b"
proof (induction data arbitrary: i rule: nsum.induct)
  case (1 a c data)
  show ?case
  proof (cases i)
    case 0 then show ?thesis by (simp add: byte_weight_def)
  next
    case (Suc j)
    show ?thesis
    proof (cases j)
      case 0 with Suc show ?thesis by (simp add: byte_weight_def)
    next
      case (Suc k)
      with \<open>i = Suc j\<close> 1 show ?thesis by (simp add: byte_weight_def)
    qed
  qed
qed (simp_all add: byte_weight_def)

lemma weight_injective:
  assumes "x < 256" "y < 256" "x < (y::nat)" "w = 256 \<or> w = 1" shows "\<not> (65535::nat) dvd w * y - w * x"
proof
  assume d: "65535 dvd w * y - w * x"
  have "w * y - w * x = w * (y - x)" by (simp add: diff_mult_distrib2)
  moreover have "0 < y - x" "y - x < 256" using assms by auto
  moreover have "0 < w" "w \<le> 256" using assms(4) by auto
  ultimately have "0 < w * y - w * x" "w * y - w * x \<le> 256 * 255"
    using mult_le_mono [of w 256 "y - x" 255] by simp_all
  with dvd_imp_le [OF d] show False by simp
qed

lemma corrupted_byte_detected:
  assumes valid: "validIPHeaderChecksum header" and i: "i < length header" and len: "length header \<le> 131068"
    and b: "b \<noteq> header ! i"
  shows "\<not> validIPHeaderChecksum (header[i := b])"
proof
  assume valid': "validIPHeaderChecksum (header[i := b])"
  let ?h = "header[i := b]" and ?x = "unat (header ! i)" and ?y = "unat b" and ?w = "byte_weight i"
  have z: "nsum header mod 65535 = 0" "nsum ?h mod 65535 = 0"
    using valid valid' internetChecksum_zero_iff [of header] internetChecksum_zero_iff [of ?h]
      nsum_bound [of header] nsum_bound [of ?h] len
    by (simp_all add: validIPHeaderChecksum_def split: if_splits)
  have e: "nsum ?h + ?w * ?x = nsum header + ?w * ?y" by (rule nsum_update [OF i])
  have w: "?w = 256 \<or> ?w = 1" by (simp add: byte_weight_def)
  have ne: "?x \<noteq> ?y" using b by (simp add: word_unat_eq_iff)
  have dvd: "65535 dvd nsum header" "65535 dvd nsum ?h" using z by (simp_all add: dvd_eq_mod_eq_0)
  show False
  proof (cases "?x < ?y")
    case True
    have "nsum ?h - nsum header = ?w * ?y - ?w * ?x" using e by linarith
    with dvd_diff_nat [OF dvd(2,1)] weight_injective [OF _ _ True w] show False by simp
  next
    case False
    with ne have lt: "?y < ?x" by simp
    have "nsum header - nsum ?h = ?w * ?x - ?w * ?y" using e by linarith
    with dvd_diff_nat [OF dvd(1,2)] weight_injective [OF _ _ lt w] show False by simp
  qed
qed

section \<open>Round trip\<close>

text \<open>The headers a sender may serialise: IPv4 without options, fields within their bit width.\<close>

definition plain_header :: "IPHeader \<Rightarrow> bool" where
  "plain_header h \<longleftrightarrow> ih_Version h = 4 \<and> ih_IHL h = 5 \<and> ih_Flags h AND 0x07 = ih_Flags h \<and>
     ih_FragOffset h AND 0x1FFF = ih_FragOffset h"

lemma unat_total_length: "n \<le> 65515 \<Longrightarrow> unat (word_of_nat (20 + n) :: u16) = 20 + n"
  by (simp only: unsigned_of_nat take_bit_eq_mod) simp

lemma length_SerializeIPHeader [simp, frame_lens]: "length (SerializeIPHeader h) = 20"
  by (simp add: SerializeIPHeader_def setIPHeaderChecksum_def frame_lens)

lemma validIPHeaderChecksum_Serialize: "validIPHeaderChecksum (SerializeIPHeader h)"
  unfolding SerializeIPHeader_def by (rule validIPHeaderChecksum_set) (simp_all add: frame_lens)

lemma nth_SerializeIPHeader:
  assumes "i \<noteq> 10" "i \<noteq> 11"
  shows "SerializeIPHeader h ! i =
    ([push_bit 4 (ih_Version h) OR (ih_IHL h AND 0x0F), ih_TOS h] @ put16 (ih_TotalLen h) @
        put16 (ih_ID h) @ put16 (flags_and_offset h) @
        [ih_TTL h, ih_Protocol h] @ put16 (ih_Checksum h) @ put32 (ih_SrcIP h) @ put32 (ih_DstIP h)) ! i"
  using assms by (simp add: SerializeIPHeader_def setIPHeaderChecksum_def frame_lens nth_put16_at_other)

lemma version_byte:
  fixes v i :: byte
  assumes "v = 4" "i = 5"
  shows "drop_bit 4 (push_bit 4 v OR (i AND 0x0F)) AND 0x0F = v" "(push_bit 4 v OR (i AND 0x0F)) AND 0x0F = i"
  using assms by simp_all

lemma frag_word:
  assumes "ih_Flags h AND 0x07 = ih_Flags h" "ih_FragOffset h AND 0x1FFF = ih_FragOffset h"
  shows "ucast (drop_bit 13 (flags_and_offset h) AND 0x07) = ih_Flags h"
    "flags_and_offset h AND 0x1FFF = ih_FragOffset h"
proof -
  have m: "(0x07 :: byte) = Bit_Operations.mask 3" "(0x07 :: u16) = Bit_Operations.mask 3"
    "(0x1FFF :: u16) = Bit_Operations.mask 13" by (simp_all add: mask_eq_exp_minus_1)
  have bf: "bit (ih_Flags h) n \<Longrightarrow> n < 3" for n
    using arg_cong [OF assms(1), of "\<lambda>w. bit w n"] by (simp add: m(1) bit_simps)
  have bg: "bit (ih_FragOffset h) n \<Longrightarrow> n < 13" for n
    using arg_cong [OF assms(2), of "\<lambda>w. bit w n"] by (simp add: m(3) bit_simps)
  show "ucast (drop_bit 13 (flags_and_offset h) AND 0x07) = ih_Flags h"
    unfolding flags_and_offset_def m(2,3) by (rule bit_eqI) (auto simp: bit_simps dest: bf bg)
  show "flags_and_offset h AND 0x1FFF = ih_FragOffset h"
    unfolding flags_and_offset_def m(3) by (rule bit_eqI) (auto simp: bit_simps dest: bg)
qed

lemma Deserialize_Serialize:
  assumes "plain_header h" "20 \<le> unat (ih_TotalLen h)" "unat (ih_TotalLen h) \<le> 20 + length rest"
  shows "DeserializeIPHeader (SerializeIPHeader h @ rest) =
    Inr (h\<lparr>ih_Checksum := u16_at (SerializeIPHeader h) 10\<rparr>)"
proof -
  let ?b = "SerializeIPHeader h @ rest"
  have n: "?b ! i = SerializeIPHeader h ! i" if "i < 20" for i using that by (simp add: nth_append)
  have w: "u16_at ?b i = u16_at (SerializeIPHeader h) i" if "i < 19" for i
    using that by (simp add: u16_at_def n)
  have d: "u32_at ?b i = u32_at (SerializeIPHeader h) i" if "i < 17" for i
    using that by (simp add: u32_at_def n)
  have "ip_header_at ?b = h\<lparr>ih_Checksum := u16_at (SerializeIPHeader h) 10\<rparr>"
    using assms(1)
    by (simp add: ip_header_at_def n w d plain_header_def)
       (simp add: u16_at_def u32_at_def nth_SerializeIPHeader put16_def put32_def version_byte
          frag_word plain_header_def)
  with assms show ?thesis
    by (simp add: DeserializeIPHeader_def Let_def plain_header_def GetIPHeaderLen_def)
qed

end
