(* ===== verification/RouteTable.thy ===== *)
theory RouteTable
  imports Addr "HOL-Library.Multiset"
begin

text \<open>
  The routing table of \<open>src/src/l3_routing.go\<close>: insertion per source, deletion, longest prefix
  match.  Destinations are strings in dotted form, as in the code; \<open>matches\<close> relates them to
  32-bit prefixes.  The Go slice is a list: the swap with the last element of a deletion is kept.
\<close>

type_synonym RouteSource = byte

definition ROUTE_SOURCE_CONNECTED :: RouteSource where "ROUTE_SOURCE_CONNECTED = 0"
definition ROUTE_SOURCE_STATIC :: RouteSource where "ROUTE_SOURCE_STATIC = 1"
definition ROUTE_SOURCE_RIP :: RouteSource where "ROUTE_SOURCE_RIP = 120"
definition ROUTE_SOURCE_OSPF :: RouteSource where "ROUTE_SOURCE_OSPF = 110"
definition ROUTE_SOURCE_ISIS :: RouteSource where "ROUTE_SOURCE_ISIS = 115"
definition ROUTE_SOURCE_BGP :: RouteSource where "ROUTE_SOURCE_BGP = 20"
definition ROUTE_SOURCE_IBGP :: RouteSource where "ROUTE_SOURCE_IBGP = 200"

definition RouteSourceToString :: "RouteSource \<Rightarrow> string" where
  "RouteSourceToString source =
     (if source = ROUTE_SOURCE_CONNECTED then ''C'' else if source = ROUTE_SOURCE_STATIC then ''S''
      else if source = ROUTE_SOURCE_RIP then ''R'' else if source = ROUTE_SOURCE_OSPF then ''O''
      else if source = ROUTE_SOURCE_ISIS then ''I'' else if source = ROUTE_SOURCE_BGP then ''B''
      else if source = ROUTE_SOURCE_IBGP then ''i'' else ''?'')"

record L3Route =
  r_Dest :: string
  r_Mask :: byte
  r_GatewayIP :: string
  r_OIF :: string
  r_AdminDistance :: byte
  r_Metric :: u32
  r_Source :: RouteSource
  r_IsDirect :: bool

type_synonym RoutingTable = "L3Route list"

definition InitRoutingTable :: RoutingTable where "InitRoutingTable = []"

type_synonym route_key = "string \<times> byte \<times> RouteSource"

abbreviation r_key :: "L3Route \<Rightarrow> route_key" where
  "r_key r \<equiv> (r_Dest r, r_Mask r, r_Source r)"

section \<open>Operations\<close>

definition same_route :: "string \<Rightarrow> byte \<Rightarrow> RouteSource \<Rightarrow> L3Route \<Rightarrow> bool" where
  "same_route networkAddr msk source route \<longleftrightarrow>
     r_Dest route = networkAddr \<and> r_Mask route = msk \<and> r_Source route = source"

text \<open>The update loop of \<open>AddRouteWithParams\<close>; it appends when no route has the key.\<close>

fun add_loop ::
  "RoutingTable \<Rightarrow> string \<Rightarrow> byte \<Rightarrow> string \<Rightarrow> string \<Rightarrow> RouteSource \<Rightarrow> byte \<Rightarrow> u32 \<Rightarrow> RoutingTable" where
  "add_loop [] networkAddr msk gatewayIP oif source adminDistance metric =
     [\<lparr>r_Dest = networkAddr, r_Mask = msk, r_GatewayIP = gatewayIP, r_OIF = oif,
       r_AdminDistance = adminDistance, r_Metric = metric, r_Source = source,
       r_IsDirect = (gatewayIP = [])\<rparr>]"
| "add_loop (route # rest) networkAddr msk gatewayIP oif source adminDistance metric =
     (if same_route networkAddr msk source route
      then route\<lparr>r_GatewayIP := gatewayIP, r_OIF := oif, r_IsDirect := (gatewayIP = []),
                 r_AdminDistance := adminDistance, r_Metric := metric\<rparr> # rest
      else route # add_loop rest networkAddr msk gatewayIP oif source adminDistance metric)"

definition AddRouteWithParams ::
  "RoutingTable \<Rightarrow> string \<Rightarrow> byte \<Rightarrow> string \<Rightarrow> string \<Rightarrow> RouteSource \<Rightarrow> byte \<Rightarrow> u32 \<Rightarrow> RoutingTable \<times> string option" where
  "AddRouteWithParams rt dest msk gatewayIP oif source adminDistance metric =
     (case ApplyMask dest msk of
        Inl e \<Rightarrow> (rt, Some (''failed to apply mask: '' @ e))
      | Inr networkAddr \<Rightarrow>
          (case (if gatewayIP \<noteq> [] then IPStringToUint32 gatewayIP else Inr 0) of
             Inl e \<Rightarrow> (rt, Some (''invalid gateway: '' @ e))
           | Inr _ \<Rightarrow> (add_loop rt networkAddr msk gatewayIP oif source adminDistance metric, None)))"

definition AddRoute :: "RoutingTable \<Rightarrow> string \<Rightarrow> byte \<Rightarrow> string \<Rightarrow> string \<Rightarrow> RoutingTable \<times> string option" where
  "AddRoute rt dest msk gatewayIP oif =
     AddRouteWithParams rt dest msk gatewayIP oif ROUTE_SOURCE_STATIC ROUTE_SOURCE_STATIC 1"

text \<open>\<open>rt.routes[i] = rt.routes[len-1]; rt.routes = rt.routes[:len-1]\<close>.\<close>

definition swap_remove :: "'a list \<Rightarrow> nat \<Rightarrow> 'a list" where
  "swap_remove xs i = butlast (xs[i := last xs])"

fun find_route :: "nat \<Rightarrow> RoutingTable \<Rightarrow> string \<Rightarrow> byte \<Rightarrow> RouteSource \<Rightarrow> nat option" where
  "find_route i [] networkAddr msk source = None"
| "find_route i (route # rest) networkAddr msk source =
     (if same_route networkAddr msk source route then Some i
      else find_route (i + 1) rest networkAddr msk source)"

definition DeleteRouteFromSource ::
  "RoutingTable \<Rightarrow> string \<Rightarrow> byte \<Rightarrow> RouteSource \<Rightarrow> RoutingTable \<times> string option" where
  "DeleteRouteFromSource rt dest msk source =
     (case ApplyMask dest msk of
        Inl e \<Rightarrow> (rt, Some (''failed to apply mask: '' @ e))
      | Inr networkAddr \<Rightarrow>
          (case find_route 0 rt networkAddr msk source of
             Some i \<Rightarrow> (swap_remove rt i, None)
           | None \<Rightarrow> (rt, Some ''route not found'')))"

fun DeleteRouteBySource :: "RoutingTable \<Rightarrow> RouteSource \<Rightarrow> RoutingTable \<times> nat" where
  "DeleteRouteBySource [] source = ([], 0)"
| "DeleteRouteBySource (route # rest) source =
     (let (newRoutes, deleted) = DeleteRouteBySource rest source in
      if r_Source route = source then (newRoutes, deleted + 1) else (route # newRoutes, deleted))"

text \<open>\<open>LookupLPM\<close>: one pass with the best route so far and its mask.\<close>

fun lpm_loop :: "string \<Rightarrow> RoutingTable \<Rightarrow> L3Route option \<Rightarrow> byte \<Rightarrow> L3Route option" where
  "lpm_loop destIPStr [] best longestMask = best"
| "lpm_loop destIPStr (route # rest) best longestMask =
     (case ApplyMask destIPStr (r_Mask route) of
        Inl _ \<Rightarrow> lpm_loop destIPStr rest best longestMask
      | Inr networkAddr \<Rightarrow>
          if networkAddr = r_Dest route then
            (case best of
               None \<Rightarrow> lpm_loop destIPStr rest (Some route) (r_Mask route)
             | Some bestRoute \<Rightarrow>
                 if r_Mask route > longestMask then lpm_loop destIPStr rest (Some route) (r_Mask route)
                 else if r_Mask route = longestMask then
                   (if r_AdminDistance route < r_AdminDistance bestRoute
                    then lpm_loop destIPStr rest (Some route) longestMask
                    else if r_AdminDistance route = r_AdminDistance bestRoute \<and> r_Metric route < r_Metric bestRoute
                    then lpm_loop destIPStr rest (Some route) longestMask
                    else lpm_loop destIPStr rest best longestMask)
                 else lpm_loop destIPStr rest best longestMask)
          else lpm_loop destIPStr rest best longestMask)"

definition LookupLPM :: "RoutingTable \<Rightarrow> u32 \<Rightarrow> L3Route option" where
  "LookupLPM rt destIP = lpm_loop (IPUint32ToString destIP) rt None 0"

definition RoutesSnapshot :: "RoutingTable \<Rightarrow> L3Route list" where
  "RoutesSnapshot rt = rt"

section \<open>Longest prefix match\<close>

definition matches :: "u32 \<Rightarrow> L3Route \<Rightarrow> bool" where
  "matches d r \<longleftrightarrow> r_Mask r \<le> 32 \<and> r_Dest r = IPUint32ToString (d AND mask32 (r_Mask r))"

text \<open>The preference order: longer prefix, then lower distance, then lower metric.\<close>

definition better :: "L3Route \<Rightarrow> L3Route \<Rightarrow> bool" where
  "better r s \<longleftrightarrow>
     r_Mask r > r_Mask s \<or>
     r_Mask r = r_Mask s \<and>
       (r_AdminDistance r < r_AdminDistance s \<or>
        r_AdminDistance r = r_AdminDistance s \<and> r_Metric r < r_Metric s)"

lemma better_trans: "better r s \<Longrightarrow> better s t \<Longrightarrow> better r t"
  by (auto simp: better_def)

lemma better_total: "better r s \<or> better s r \<or>
    (r_Mask r = r_Mask s \<and> r_AdminDistance r = r_AdminDistance s \<and> r_Metric r = r_Metric s)"
  by (auto simp: better_def)

lemma not_better_trans: "\<not> better s r \<Longrightarrow> \<not> better t s \<Longrightarrow> \<not> better t r"
  by (auto simp: better_def not_less)

lemma better_irrefl: "\<not> better r r"
  by (simp add: better_def)

text \<open>The step of the scan in terms of \<open>matches\<close> and \<open>better\<close>.\<close>

lemma lpm_loop_step:
  assumes "\<forall>b. best = Some b \<longrightarrow> longest = r_Mask b"
  shows "lpm_loop (IPUint32ToString d) (route # rest) best longest =
    (if matches d route \<and> (\<forall>b. best = Some b \<longrightarrow> better route b)
     then lpm_loop (IPUint32ToString d) rest (Some route) (r_Mask route)
     else lpm_loop (IPUint32ToString d) rest best longest)"
proof (cases "r_Mask route \<le> 32")
  case True
  then show ?thesis using assms
    by (cases best) (auto simp: ApplyMask_IPUint32ToString matches_def better_def)
next
  case False
  then have "\<not> matches d route" "\<exists>e. ApplyMask (IPUint32ToString d) (r_Mask route) = Inl e"
    by (simp_all add: ApplyMask_def matches_def not_le)
  then show ?thesis by auto
qed

definition lpm_ok :: "u32 \<Rightarrow> L3Route set \<Rightarrow> L3Route option \<Rightarrow> bool" where
  "lpm_ok d S res \<longleftrightarrow>
     (case res of None \<Rightarrow> \<forall>r\<in>S. \<not> matches d r
      | Some b \<Rightarrow> b \<in> S \<and> matches d b \<and> (\<forall>r\<in>S. matches d r \<longrightarrow> \<not> better r b))"

lemma lpm_ok_step:
  assumes "lpm_ok d S best"
  shows "lpm_ok d (insert r S)
    (if matches d r \<and> (\<forall>b. best = Some b \<longrightarrow> better r b) then Some r else best)"
proof (cases best)
  case None
  with assms show ?thesis by (auto simp: lpm_ok_def better_irrefl)
next
  case (Some b)
  with assms have b: "b \<in> S" "matches d b" "\<And>s. s \<in> S \<Longrightarrow> matches d s \<Longrightarrow> \<not> better s b"
    by (auto simp: lpm_ok_def)
  show ?thesis
  proof (cases "matches d r \<and> better r b")
    case True
    have "\<not> better s r" if "s \<in> S" "matches d s" for s using b(3) [OF that] True better_trans by blast
    with True Some show ?thesis by (auto simp: lpm_ok_def better_irrefl)
  next
    case False
    with Some b show ?thesis by (auto simp: lpm_ok_def)
  qed
qed

lemma lpm_loop_ok:
  "lpm_ok d S best \<Longrightarrow> \<forall>b. best = Some b \<longrightarrow> longest = r_Mask b \<Longrightarrow>
     lpm_ok d (S \<union> set rt) (lpm_loop (IPUint32ToString d) rt best longest)"
proof (induction rt arbitrary: S best longest)
  case (Cons r rt)
  let ?u = "matches d r \<and> (\<forall>b. best = Some b \<longrightarrow> better r b)"
  note step = lpm_ok_step [OF Cons.prems(1), of r]
  show ?case
  proof (cases ?u)
    case True
    with step have ok: "lpm_ok d (insert r S) (Some r)" by simp
    have m: "\<forall>b. Some r = Some b \<longrightarrow> r_Mask r = r_Mask b" by simp
    show ?thesis unfolding lpm_loop_step [OF Cons.prems(2)] if_P [OF True]
      using Cons.IH [OF ok m] by simp
  next
    case False
    with step have ok: "lpm_ok d (insert r S) best" by (simp only: if_False)
    show ?thesis unfolding lpm_loop_step [OF Cons.prems(2)] if_not_P [OF False]
      using Cons.IH [OF ok Cons.prems(2)] by simp
  qed
qed simp

lemma LookupLPM_ok: "lpm_ok d (set rt) (LookupLPM rt d)"
  using lpm_loop_ok [of d "{}" None 0 rt] by (simp add: LookupLPM_def lpm_ok_def)


section \<open>The table as a map\<close>

text \<open>Keys are unique; a stored prefix is masked; a gateway parses; the direct flag says there is none.\<close>

definition route_ok :: "L3Route \<Rightarrow> bool" where
  "route_ok r \<longleftrightarrow>
     r_Mask r \<le> 32 \<and> (\<exists>w. r_Dest r = IPUint32ToString w \<and> w AND mask32 (r_Mask r) = w) \<and>
     (r_GatewayIP r = [] \<or> (\<exists>g. r_GatewayIP r = IPUint32ToString g)) \<and>
     r_IsDirect r = (r_GatewayIP r = [])"

definition rt_inv :: "RoutingTable \<Rightarrow> bool" where
  "rt_inv rt \<longleftrightarrow> distinct (map r_key rt) \<and> (\<forall>r\<in>set rt. route_ok r)"

definition rt_map :: "RoutingTable \<Rightarrow> route_key \<Rightarrow> L3Route option" where
  "rt_map rt = map_of (map (\<lambda>r. (r_key r, r)) rt)"

lemma rt_map_simps [simp]:
  "rt_map [] k = None"
  "rt_map (r # rt) k = (if r_key r = k then Some r else rt_map rt k)"
  by (simp_all add: rt_map_def)

definition mk_route :: "string \<Rightarrow> byte \<Rightarrow> string \<Rightarrow> string \<Rightarrow> RouteSource \<Rightarrow> byte \<Rightarrow> u32 \<Rightarrow> L3Route" where
  "mk_route n m g oif s ad mt =
     \<lparr>r_Dest = n, r_Mask = m, r_GatewayIP = g, r_OIF = oif, r_AdminDistance = ad, r_Metric = mt,
      r_Source = s, r_IsDirect = (g = [])\<rparr>"

lemma rt_map_add_loop:
  "rt_map (add_loop rt n m g oif s ad mt) k =
     (if k = (n, m, s) then Some (mk_route n m g oif s ad mt) else rt_map rt k)"
  by (induction rt) (auto simp: mk_route_def same_route_def)

lemma add_loop_keys:
  "set (map r_key (add_loop rt n m g oif s ad mt)) = insert (n, m, s) (set (map r_key rt))"
  by (induction rt) (auto simp: same_route_def)

lemma add_loop_distinct:
  "distinct (map r_key rt) \<Longrightarrow> distinct (map r_key (add_loop rt n m g oif s ad mt))"
proof (induction rt)
  case (Cons r rt)
  then show ?case using add_loop_keys [of rt n m g oif s ad mt] by (auto simp: same_route_def)
qed simp

lemma add_loop_ok:
  "\<forall>r\<in>set rt. route_ok r \<Longrightarrow> route_ok (mk_route n m g oif s ad mt) \<Longrightarrow>
     \<forall>r\<in>set (add_loop rt n m g oif s ad mt). route_ok r"
proof (induction rt)
  case (Cons r rt)
  have "same_route n m s r \<Longrightarrow> r\<lparr>r_GatewayIP := g, r_OIF := oif, r_IsDirect := (g = []),
      r_AdminDistance := ad, r_Metric := mt\<rparr> = mk_route n m g oif s ad mt"
    by (simp add: mk_route_def same_route_def)
  with Cons show ?case by auto
qed (simp add: mk_route_def)

lemma route_ok_mk:
  "ApplyMask dest m = Inr n \<Longrightarrow> g = [] \<or> (\<exists>w. g = IPUint32ToString w) \<Longrightarrow> route_ok (mk_route n m g oif s ad mt)"
  by (auto simp: route_ok_def mk_route_def ApplyMask_Inr and.assoc)

lemma AddRouteWithParams_ok:
  "ApplyMask dest m = Inr n \<Longrightarrow> g = [] \<or> (\<exists>w. g = IPUint32ToString w) \<Longrightarrow>
     AddRouteWithParams rt dest m g oif s ad mt = (add_loop rt n m g oif s ad mt, None)"
  by (auto simp: AddRouteWithParams_def)

lemma AddRouteWithParams_cases:
  assumes "AddRouteWithParams rt dest m g oif s ad mt = (rt', err)"
  obtains (ok) n where "ApplyMask dest m = Inr n" "g = [] \<or> (\<exists>w. g = IPUint32ToString w)"
      "rt' = add_loop rt n m g oif s ad mt" "err = None"
    | (rejected) e where "rt' = rt" "err = Some e"
  using assms
  by (auto simp: AddRouteWithParams_def IPStringToUint32_Inr split: sum.splits if_splits)

lemma rt_inv_add:
  assumes "rt_inv rt" shows "rt_inv (fst (AddRouteWithParams rt dest m g oif s ad mt))"
proof -
  obtain rt' err where r: "AddRouteWithParams rt dest m g oif s ad mt = (rt', err)" by fastforce
  then show ?thesis
  proof (cases rule: AddRouteWithParams_cases)
    case (ok n)
    have "\<forall>r\<in>set rt'. route_ok r" unfolding ok(3)
      by (rule add_loop_ok [OF _ route_ok_mk [OF ok(1,2)]]) (use assms in \<open>simp add: rt_inv_def\<close>)
    moreover have "distinct (map r_key rt')" unfolding ok(3)
      by (rule add_loop_distinct) (use assms in \<open>simp add: rt_inv_def\<close>)
    ultimately show ?thesis by (simp add: rt_inv_def r)
  qed (use assms r in simp)
qed

text \<open>Deletion swaps the last element in; as a multiset it removes one route.\<close>

lemma mset_swap_remove: "i < length xs \<Longrightarrow> mset (swap_remove xs i) = mset xs - {#xs ! i#}"
proof -
  assume i: "i < length xs"
  then obtain ys z where xs: "xs = ys @ [z]" by (cases xs rule: rev_cases) auto
  show ?thesis
  proof (cases "i = length ys")
    case True
    then show ?thesis by (simp add: xs swap_remove_def list_update_append)
  next
    case False
    with i have "i < length ys" by (simp add: xs)
    then show ?thesis
      by (simp add: xs swap_remove_def list_update_append nth_append mset_update)
  qed
qed

lemma find_route_Some:
  "find_route k rt n m s = Some i \<Longrightarrow> \<exists>j. i = k + j \<and> j < length rt \<and> same_route n m s (rt ! j)"
proof (induction rt arbitrary: k)
  case (Cons r rt)
  show ?case
  proof (cases "same_route n m s r")
    case True
    with Cons.prems show ?thesis by (intro exI [of _ 0]) simp
  next
    case False
    with Cons.prems have "find_route (k + 1) rt n m s = Some i" by simp
    from Cons.IH [OF this] obtain j where "i = k + 1 + j" "j < length rt" "same_route n m s (rt ! j)" by blast
    then show ?thesis by (intro exI [of _ "Suc j"]) simp
  qed
qed simp

lemma find_route_None: "find_route k rt n m s = None \<longleftrightarrow> (n, m, s) \<notin> set (map r_key rt)"
  by (induction rt arbitrary: k) (auto simp: same_route_def)

lemma rt_map_Some: "distinct (map r_key rt) \<Longrightarrow> rt_map rt k = Some r \<longleftrightarrow> r \<in> set rt \<and> r_key r = k"
proof (induction rt)
  case (Cons x rt)
  then show ?case by (cases "r_key x = k") (auto simp: rev_image_eqI)
qed simp

lemma rt_map_perm:
  assumes "mset rt' = mset rt - {#r#}" "distinct (map r_key rt)" "r \<in> set rt"
  shows "distinct (map r_key rt')" "rt_map rt' = (rt_map rt)(r_key r := None)" "set rt' \<subseteq> set rt"
proof -
  have rt: "mset rt = add_mset r (mset rt')" using assms(1,3) by simp
  then have s: "set rt = insert r (set rt')" by (metis set_mset_mset set_mset_add_mset_insert)
  have "mset (map r_key rt) = mset (map r_key (r # rt'))" using rt by simp
  from mset_eq_imp_distinct_iff [OF this] assms(2) have d: "distinct (map r_key (r # rt'))" by (simp only:)
  then show d': "distinct (map r_key rt')" by simp
  show "rt_map rt' = (rt_map rt)(r_key r := None)"
  proof
    fix k
    have nr: "x \<in> set rt' \<Longrightarrow> r_key x \<noteq> r_key r" for x
    proof
      assume x: "x \<in> set rt'" and k: "r_key x = r_key r"
      have "r_key x \<in> r_key ` set rt'" using x by (rule imageI)
      moreover have "r_key r \<notin> r_key ` set rt'" using d by simp
      ultimately show False unfolding k by contradiction
    qed
    show "rt_map rt' k = ((rt_map rt)(r_key r := None)) k"
    proof (cases "k = r_key r")
      case True
      have "rt_map rt' k \<noteq> Some x" for x using rt_map_Some [OF d', of k x] nr True by blast
      with True show ?thesis by (cases "rt_map rt' k") auto
    next
      case False
      have "rt_map rt' k = Some x \<longleftrightarrow> rt_map rt k = Some x" for x
        unfolding rt_map_Some [OF d'] rt_map_Some [OF assms(2)] s insert_iff using False by metis
      then have "rt_map rt' k = rt_map rt k" by (metis option.exhaust)
      with False show ?thesis by simp
    qed
  qed
  show "set rt' \<subseteq> set rt" using s by auto
qed

lemma DeleteRouteFromSource_spec:
  assumes "rt_inv rt" "ApplyMask dest m = Inr n"
  shows "rt_inv (fst (DeleteRouteFromSource rt dest m s)) \<and>
    rt_map (fst (DeleteRouteFromSource rt dest m s)) = (rt_map rt)((n, m, s) := None)"
proof (cases "find_route 0 rt n m s")
  case None
  then have "rt_map rt (n, m, s) = None" by (auto simp: find_route_None rt_map_def map_of_eq_None_iff)
  then have "(rt_map rt)((n, m, s) := None) = rt_map rt" by auto
  with None assms show ?thesis by (simp add: DeleteRouteFromSource_def)
next
  case (Some i)
  from find_route_Some [OF this] have i: "i < length rt" "r_key (rt ! i) = (n, m, s)"
    by (auto simp: same_route_def)
  have d: "distinct (map r_key rt)" using assms(1) by (simp add: rt_inv_def)
  note p = rt_map_perm [OF mset_swap_remove [OF i(1)] d nth_mem [OF i(1)]]
  show ?thesis using Some assms p i(2) by (auto simp: DeleteRouteFromSource_def rt_inv_def)
qed

lemma DeleteRouteBySource_filter:
  "DeleteRouteBySource rt s = (filter (\<lambda>r. r_Source r \<noteq> s) rt, length (filter (\<lambda>r. r_Source r = s) rt))"
  by (induction rt) auto

lemma rt_inv_DeleteRouteBySource: "rt_inv rt \<Longrightarrow> rt_inv (fst (DeleteRouteBySource rt s))"
  by (auto simp: DeleteRouteBySource_filter rt_inv_def distinct_map_filter)

lemma rt_map_DeleteRouteBySource:
  "rt_map (fst (DeleteRouteBySource rt s)) (n, m, s') = (if s' = s then None else rt_map rt (n, m, s'))"
  by (induction rt) (auto simp: DeleteRouteBySource_filter)


section \<open>The interface a routing protocol relies on\<close>

text \<open>
  A routing protocol owns the routes of its source and sees the table only through insertion and
  deletion under its keys.  The client's lemma says what a run of such updates leaves behind: the
  last update of a key decides it, and keys without an update are untouched.
\<close>

locale rib =
  fixes inv :: "'t \<Rightarrow> bool"
    and ok :: "'k \<Rightarrow> 'v \<Rightarrow> bool"
    and okk :: "'k \<Rightarrow> bool"
    and look :: "'t \<Rightarrow> 'k \<Rightarrow> 'v option"
    and ins :: "'t \<Rightarrow> 'k \<Rightarrow> 'v \<Rightarrow> 't"
    and del :: "'t \<Rightarrow> 'k \<Rightarrow> 't"
  assumes ins_inv: "inv t \<Longrightarrow> ok k v \<Longrightarrow> inv (ins t k v)"
    and ins_look: "inv t \<Longrightarrow> ok k v \<Longrightarrow> look (ins t k v) = (look t)(k := Some v)"
    and del_inv: "inv t \<Longrightarrow> okk k \<Longrightarrow> inv (del t k)"
    and del_look: "inv t \<Longrightarrow> okk k \<Longrightarrow> look (del t k) = (look t)(k := None)"
begin

fun update :: "'t \<Rightarrow> 'k \<times> 'v option \<Rightarrow> 't" where
  "update t (k, Some v) = ins t k v"
| "update t (k, None) = del t k"

fun update_ok :: "'k \<times> 'v option \<Rightarrow> bool" where
  "update_ok (k, Some v) = ok k v"
| "update_ok (k, None) = okk k"

lemma update_look: "inv t \<Longrightarrow> update_ok u \<Longrightarrow> look (update t u) = (look t)(fst u := snd u)"
  by (cases u rule: update_ok.cases) (simp_all add: ins_look del_look)

lemma update_inv: "inv t \<Longrightarrow> update_ok u \<Longrightarrow> inv (update t u)"
  by (cases u rule: update_ok.cases) (simp_all add: ins_inv del_inv)

lemma updates_inv: "inv t \<Longrightarrow> \<forall>u\<in>set us. update_ok u \<Longrightarrow> inv (foldl update t us)"
  by (induction us arbitrary: t) (simp_all add: update_inv)

lemma updates_look:
  "inv t \<Longrightarrow> \<forall>u\<in>set us. update_ok u \<Longrightarrow>
     look (foldl update t us) k = (case map_of (rev us) k of Some r \<Rightarrow> r | None \<Rightarrow> look t k)"
proof (induction us rule: rev_induct)
  case (snoc u us)
  have "look (update (foldl update t us) u) = (look (foldl update t us))(fst u := snd u)"
    by (rule update_look) (use snoc.prems in \<open>simp_all add: updates_inv\<close>)
  with snoc show ?case by (cases u) (auto split: option.splits)
qed simp

end

text \<open>The view of one source: prefix to next hop, interface and metric, at the source's distance.\<close>

type_synonym prefix = "string \<times> byte"

definition prefix_ok :: "prefix \<Rightarrow> bool" where
  "prefix_ok k \<longleftrightarrow> ApplyMask (fst k) (snd k) = Inr (fst k)"

definition source_look :: "RouteSource \<Rightarrow> RoutingTable \<Rightarrow> prefix \<Rightarrow> L3Route option" where
  "source_look s rt k = rt_map rt (fst k, snd k, s)"

definition source_ins :: "RouteSource \<Rightarrow> RoutingTable \<Rightarrow> prefix \<Rightarrow> L3Route \<Rightarrow> RoutingTable" where
  "source_ins s rt k r =
     fst (AddRouteWithParams rt (fst k) (snd k) (r_GatewayIP r) (r_OIF r) s (r_AdminDistance r) (r_Metric r))"

definition source_del :: "RouteSource \<Rightarrow> RoutingTable \<Rightarrow> prefix \<Rightarrow> RoutingTable" where
  "source_del s rt k = fst (DeleteRouteFromSource rt (fst k) (snd k) s)"

definition source_ok :: "RouteSource \<Rightarrow> prefix \<Rightarrow> L3Route \<Rightarrow> bool" where
  "source_ok s k r \<longleftrightarrow> prefix_ok k \<and> route_ok r \<and> r_key r = (fst k, snd k, s)"

lemma mk_route_eq: "route_ok r \<Longrightarrow>
    mk_route (r_Dest r) (r_Mask r) (r_GatewayIP r) (r_OIF r) (r_Source r) (r_AdminDistance r) (r_Metric r) = r"
  by (simp add: mk_route_def route_ok_def)

lemma source_ins_loop:
  "source_ok s k r \<Longrightarrow> source_ins s rt k r =
     add_loop rt (fst k) (snd k) (r_GatewayIP r) (r_OIF r) s (r_AdminDistance r) (r_Metric r)"
  unfolding source_ins_def source_ok_def prefix_ok_def
  by (subst AddRouteWithParams_ok) (auto simp: route_ok_def)

lemma source_ins_look:
  assumes "source_ok s k r" shows "source_look s (source_ins s rt k r) = (source_look s rt)(k := Some r)"
proof
  fix k'
  have "mk_route (fst k) (snd k) (r_GatewayIP r) (r_OIF r) s (r_AdminDistance r) (r_Metric r) = r"
    using assms mk_route_eq [of r] by (auto simp: source_ok_def)
  then show "source_look s (source_ins s rt k r) k' = ((source_look s rt)(k := Some r)) k'"
    by (simp add: source_look_def source_ins_loop [OF assms] rt_map_add_loop prod_eq_iff)
qed

interpretation rib_of: rib rt_inv "source_ok s" prefix_ok "source_look s" "source_ins s" "source_del s" for s
proof
  fix rt :: RoutingTable and k r
  assume inv: "rt_inv rt"
  show "rt_inv (source_ins s rt k r)" if "source_ok s k r"
    unfolding source_ins_def by (rule rt_inv_add [OF inv])
  show "source_look s (source_ins s rt k r) = (source_look s rt)(k := Some r)" if "source_ok s k r"
    using that by (rule source_ins_look)
  show "rt_inv (source_del s rt k)" if "prefix_ok k"
    using DeleteRouteFromSource_spec [OF inv, of "fst k" "snd k" "fst k" s] that
    by (simp add: source_del_def prefix_ok_def)
  show "source_look s (source_del s rt k) = (source_look s rt)(k := None)" if "prefix_ok k"
    using DeleteRouteFromSource_spec [OF inv, of "fst k" "snd k" "fst k" s] that
    by (auto simp: source_del_def prefix_ok_def source_look_def prod_eq_iff)
qed

lemma source_other: "s' \<noteq> s \<Longrightarrow> source_ok s k r \<Longrightarrow> source_look s' (source_ins s rt k r) = source_look s' rt"
  by (rule ext) (simp add: source_look_def source_ins_loop rt_map_add_loop)

end
