(* ===== verification/Rip.thy ===== *)
theory Rip
  imports RouteTable Iface MacTable
begin

text \<open>
  The RIP daemon of one node (\<open>src/src/rip.go\<close>): packet codec, response construction with split
  horizon, reception, expiry.  The Go map \<open>routes\<close> is keyed by "dest/mask"; the model keeps its
  values as a list whose key is the pair of those two fields, in some iteration order.  The
  triggered-update channel of capacity one is a flag.  \<open>time.Now()\<close> is \<open>now\<close>.
\<close>

definition RIP_VERSION :: byte where "RIP_VERSION = 2"
definition RIP_TIMEOUT :: int where "RIP_TIMEOUT = 180 * second"
definition RIP_GARBAGE_COLLECT :: int where "RIP_GARBAGE_COLLECT = 120 * second"
definition RIP_MAX_METRIC :: u32 where "RIP_MAX_METRIC = 16"
definition RIP_HEADER_SIZE :: nat where "RIP_HEADER_SIZE = 4"
definition RIP_ENTRY_SIZE :: nat where "RIP_ENTRY_SIZE = 20"
definition RIP_ADDRESS_FAMILY_IP :: u16 where "RIP_ADDRESS_FAMILY_IP = 2"
definition RIP_COMMAND_REQUEST :: byte where "RIP_COMMAND_REQUEST = 1"
definition RIP_COMMAND_RESPONSE :: byte where "RIP_COMMAND_RESPONSE = 2"

section \<open>The packet codec\<close>

record RIPEntry =
  re_AddressFamily :: u16
  re_RouteTag :: u16
  re_IPAddress :: u32
  re_SubnetMask :: u32
  re_NextHop :: u32
  re_Metric :: u32

record RIPPacket =
  rp_Command :: byte
  rp_Version :: byte
  rp_Zero :: u16
  rp_Entries :: "RIPEntry list"

definition rip_entry_bytes :: "RIPEntry \<Rightarrow> bytes" where
  "rip_entry_bytes e =
     put16 (re_AddressFamily e) @ put16 (re_RouteTag e) @ put32 (re_IPAddress e) @
     put32 (re_SubnetMask e) @ put32 (re_NextHop e) @ put32 (re_Metric e)"

definition SerializeRIPPacket :: "RIPPacket \<Rightarrow> bytes" where
  "SerializeRIPPacket pkt =
     [rp_Command pkt, rp_Version pkt] @ put16 (rp_Zero pkt) @ concat (map rip_entry_bytes (rp_Entries pkt))"

definition rip_entry_at :: "bytes \<Rightarrow> RIPEntry" where
  "rip_entry_at buf =
     \<lparr>re_AddressFamily = u16_at buf 0, re_RouteTag = u16_at buf 2, re_IPAddress = u32_at buf 4,
      re_SubnetMask = u32_at buf 8, re_NextHop = u32_at buf 12, re_Metric = u32_at buf 16\<rparr>"

text \<open>The loop \<open>for offset+RIP_ENTRY_SIZE <= len(buf)\<close> on what is left of the buffer.\<close>

function rip_entries :: "bytes \<Rightarrow> RIPEntry list" where
  "rip_entries buf =
     (if RIP_ENTRY_SIZE \<le> length buf then rip_entry_at buf # rip_entries (drop RIP_ENTRY_SIZE buf) else [])"
  by pat_completeness auto
termination
  by (relation "measure length") (auto simp: RIP_ENTRY_SIZE_def)

declare rip_entries.simps [simp del]

definition DeserializeRIPPacket :: "bytes \<Rightarrow> string + RIPPacket" where
  "DeserializeRIPPacket buf =
     (if length buf < RIP_HEADER_SIZE then Inl ''buffer too small for RIP header''
      else Inr \<lparr>rp_Command = buf ! 0, rp_Version = buf ! 1, rp_Zero = u16_at buf 2,
                rp_Entries = rip_entries (drop RIP_HEADER_SIZE buf)\<rparr>)"

section \<open>State\<close>

record RIPRoute =
  rr_Destination :: string
  rr_Mask :: byte
  rr_NextHop :: string
  rr_Interface :: string
  rr_Metric :: u32
  rr_LastUpdate :: int
  rr_IsExpired :: bool
  rr_ExpiredAt :: "int option"

abbreviation rr_key :: "RIPRoute \<Rightarrow> prefix" where
  "rr_key r \<equiv> (rr_Destination r, rr_Mask r)"

record RIPState =
  rip_enabled :: bool
  rip_routes :: "RIPRoute list"
  rip_trigger :: bool

definition InitRIPState :: RIPState where
  "InitRIPState = \<lparr>rip_enabled = False, rip_routes = [], rip_trigger = False\<rparr>"

definition rip_lookup :: "RIPRoute list \<Rightarrow> prefix \<Rightarrow> RIPRoute option" where
  "rip_lookup routes k = find (\<lambda>r. rr_key r = k) routes"

definition rip_put :: "RIPRoute list \<Rightarrow> RIPRoute \<Rightarrow> RIPRoute list" where
  "rip_put routes new =
     (if rip_lookup routes (rr_key new) = None then routes @ [new]
      else map (\<lambda>r. if rr_key r = rr_key new then new else r) routes)"

definition StartRIP :: "RIPState \<Rightarrow> RIPState" where
  "StartRIP rip = (if rip_enabled rip then rip else rip\<lparr>rip_enabled := True, rip_trigger := False\<rparr>)"

definition StopRIP :: "RIPState \<Rightarrow> RoutingTable \<Rightarrow> RIPState \<times> RoutingTable" where
  "StopRIP rip rt =
     (if \<not> rip_enabled rip then (rip, rt)
      else (rip\<lparr>rip_enabled := False, rip_trigger := False, rip_routes := []\<rparr>,
            fst (DeleteRouteBySource rt ROUTE_SOURCE_RIP)))"

definition requestTriggeredUpdate :: "RIPState \<Rightarrow> RIPState" where
  "requestTriggeredUpdate rip = (if \<not> rip_enabled rip then rip else rip\<lparr>rip_trigger := True\<rparr>)"

section \<open>Advertisement\<close>

definition poisoned_route :: "RIPRoute \<Rightarrow> L3Route" where
  "poisoned_route route =
     \<lparr>r_Dest = rr_Destination route, r_Mask = rr_Mask route, r_GatewayIP = rr_NextHop route,
      r_OIF = rr_Interface route, r_AdminDistance = ROUTE_SOURCE_RIP, r_Metric = RIP_MAX_METRIC,
      r_Source = ROUTE_SOURCE_RIP, r_IsDirect = False\<rparr>"

definition routesForAdvertisement :: "RIPState \<Rightarrow> RoutingTable \<Rightarrow> L3Route list" where
  "routesForAdvertisement rip rt =
     (let poisoned = map poisoned_route (filter rr_IsExpired (rip_routes rip));
          routes = RoutesSnapshot rt;
          advertised = map (\<lambda>r. (r_Dest r, r_Mask r)) routes
      in routes @ filter (\<lambda>r. (r_Dest r, r_Mask r) \<notin> set advertised) poisoned)"

definition advertised_metric :: "string \<Rightarrow> L3Route \<Rightarrow> u32" where
  "advertised_metric outgoingInterface route =
     (let metric = r_Metric route;
          metric = (if r_Source route \<noteq> ROUTE_SOURCE_CONNECTED \<and> metric = 0 then 1 else metric);
          metric = (if r_Source route = ROUTE_SOURCE_RIP \<and> r_OIF route = outgoingInterface
                    then RIP_MAX_METRIC else metric)
      in if metric > RIP_MAX_METRIC then RIP_MAX_METRIC else metric)"

definition mk_rip_entry :: "u32 \<Rightarrow> u32 \<Rightarrow> u32 \<Rightarrow> RIPEntry" where
  "mk_rip_entry destIP maskInt metric =
     \<lparr>re_AddressFamily = RIP_ADDRESS_FAMILY_IP, re_RouteTag = 0, re_IPAddress = destIP,
      re_SubnetMask = maskInt, re_NextHop = 0, re_Metric = metric\<rparr>"

fun rip_response_entries :: "L3Route list \<Rightarrow> string \<Rightarrow> RIPEntry list" where
  "rip_response_entries [] outgoingInterface = []"
| "rip_response_entries (route # routes) outgoingInterface =
     (case IPStringToUint32 (r_Dest route) of
        Inl _ \<Rightarrow> rip_response_entries routes outgoingInterface
      | Inr destIP \<Rightarrow>
          mk_rip_entry destIP (mask32 (r_Mask route)) (advertised_metric outgoingInterface route)
            # rip_response_entries routes outgoingInterface)"

definition buildRIPResponse :: "L3Route list \<Rightarrow> string \<Rightarrow> RIPPacket" where
  "buildRIPResponse routes outgoingInterface =
     \<lparr>rp_Command = RIP_COMMAND_RESPONSE, rp_Version = RIP_VERSION, rp_Zero = 0,
      rp_Entries = rip_response_entries routes outgoingInterface\<rparr>"

text \<open>
  \<open>SendRoutingUpdates\<close> and \<open>SendRIPPacket\<close>: for every configured interface with a configured
  neighbour, the neighbour's address and the packet for \<open>DemotePacketToLayer3\<close> with protocol 200.
  \<open>peer i\<close> stands for \<open>get_nbr_node\<close> and \<open>get_remote_interface\<close> on slot \<open>i\<close>.
\<close>

definition SendRIPPacket :: "bytes \<Rightarrow> Interface option \<Rightarrow> (u32 \<times> bytes) list" where
  "SendRIPPacket ripData remoteIntf =
     (case remoteIntf of
        None \<Rightarrow> []
      | Some intf \<Rightarrow>
          if \<not> IsIPConfigured intf then []
          else case IPStringToUint32 (ip_string (GetIP intf)) of
            Inl _ \<Rightarrow> [] | Inr nbrIPInt \<Rightarrow> [(nbrIPInt, ripData)])"

fun rip_send_loop ::
  "(nat \<Rightarrow> Interface option) \<Rightarrow> L3Route list \<Rightarrow> nat \<Rightarrow> intf_array \<Rightarrow> (u32 \<times> bytes) list" where
  "rip_send_loop peer routes i [] = []"
| "rip_send_loop peer routes i (None # rest) = rip_send_loop peer routes (i + 1) rest"
| "rip_send_loop peer routes i (Some intf # rest) =
     (if \<not> IsIPConfigured intf \<or> peer i = None then rip_send_loop peer routes (i + 1) rest
      else SendRIPPacket (SerializeRIPPacket (buildRIPResponse routes (get_interface_name intf))) (peer i)
             @ rip_send_loop peer routes (i + 1) rest)"

definition SendRoutingUpdates ::
  "RIPState \<Rightarrow> RoutingTable \<Rightarrow> (nat \<Rightarrow> Interface option) \<Rightarrow> intf_array \<Rightarrow> (u32 \<times> bytes) list" where
  "SendRoutingUpdates rip rt peer intfs =
     (let routes = routesForAdvertisement rip rt in
      if length routes = 0 then [] else rip_send_loop peer routes 0 intfs)"

section \<open>Reception\<close>

text \<open>\<open>subnetMaskToMaskBits\<close> counts the one bits by shifting the mask out on the left.\<close>

definition mask_weight :: "u32 \<Rightarrow> nat" where
  "mask_weight m = (\<Sum>i<32. if bit m i then 32 - i else 0)"

lemma mask_weight_shift:
  assumes "m \<noteq> 0" shows "mask_weight (push_bit 1 m) < mask_weight m"
proof -
  have n: "(32::nat) = Suc 31" by simp
  have b: "bit (push_bit 1 m) 0 = False" "i < 31 \<Longrightarrow> bit (push_bit 1 m) (Suc i) = bit m i" for i
    by (simp_all only: bit_push_bit_iff) simp_all
  have "mask_weight (push_bit 1 m) = (\<Sum>i<31. if bit (push_bit 1 m) (Suc i) then 32 - Suc i else 0)"
    unfolding mask_weight_def n sum.lessThan_Suc_shift b(1) by simp
  also have "\<dots> = (\<Sum>i<31. if bit m i then 31 - i else 0)"
    by (rule sum.cong) (auto simp only: b(2) lessThan_iff diff_Suc_Suc n)
  finally have "mask_weight (push_bit 1 m) = (\<Sum>i<31. if bit m i then 31 - i else 0)" .
  moreover have "(\<Sum>i<31. if bit m i then 31 - i else 0) \<le> (\<Sum>i<31. if bit m i then 32 - i else 0)"
    by (rule sum_mono) auto
  moreover have "mask_weight m = (\<Sum>i<31. if bit m i then 32 - i else 0) + (if bit m 31 then 1 else 0)"
    unfolding mask_weight_def n sum.lessThan_Suc by simp
  moreover have "(\<Sum>i<31. if bit m i then 31 - i else 0) < (\<Sum>i<31. if bit m i then 32 - i else 0)"
    if "\<exists>i<31. bit m i"
  proof (rule sum_strict_mono_ex1)
    from that obtain i where "i < 31" "bit m i" by blast
    then show "\<exists>i\<in>{..<31}. (if bit m i then 31 - i else 0) < (if bit m i then 32 - i else 0)"
      by (intro bexI [of _ i]) auto
  qed auto
  moreover have "(\<exists>i<31. bit m i) \<or> bit m 31"
  proof -
    from assms obtain i where "bit m i" by (auto simp: bit_eq_iff)
    moreover from this have "i < 32" by (auto dest: bit_imp_le_length)
    ultimately show ?thesis by (cases "i = 31") (auto intro!: exI [of _ i])
  qed
  ultimately show ?thesis by auto
qed

function mask_bits_loop :: "u32 \<Rightarrow> byte \<Rightarrow> byte" where
  "mask_bits_loop msk bits =
     (if msk \<noteq> 0 then
        mask_bits_loop (push_bit 1 msk) (if msk AND 0x80000000 \<noteq> 0 then bits + 1 else bits)
      else bits)"
  by pat_completeness auto
termination
  by (relation "measure (\<lambda>(m, _). mask_weight m)") (simp, unfold in_measure split_conv, rule mask_weight_shift)

declare mask_bits_loop.simps [simp del]

definition subnetMaskToMaskBits :: "u32 \<Rightarrow> byte" where
  "subnetMaskToMaskBits msk = mask_bits_loop msk 0"

text \<open>What a reception changes: routes, FIB, whether anything changed, and the events (action, route).\<close>

type_synonym rip_work = "RIPRoute list \<times> RoutingTable \<times> bool \<times> (string \<times> RIPRoute) list"

definition rip_install :: "RoutingTable \<Rightarrow> RIPRoute \<Rightarrow> RoutingTable" where
  "rip_install rt r =
     fst (AddRouteWithParams rt (rr_Destination r) (rr_Mask r) (rr_NextHop r) (rr_Interface r)
            ROUTE_SOURCE_RIP ROUTE_SOURCE_RIP (rr_Metric r))"

definition rip_learned :: "int \<Rightarrow> prefix \<Rightarrow> string \<Rightarrow> string \<Rightarrow> u32 \<Rightarrow> RIPRoute" where
  "rip_learned now k srcIP intfName newMetric =
     \<lparr>rr_Destination = fst k, rr_Mask = snd k, rr_NextHop = srcIP, rr_Interface = intfName,
      rr_Metric = newMetric, rr_LastUpdate = now, rr_IsExpired = False, rr_ExpiredAt = None\<rparr>"

definition rip_refreshed :: "int \<Rightarrow> RIPRoute \<Rightarrow> string \<Rightarrow> u32 \<Rightarrow> RIPRoute" where
  "rip_refreshed now existing intfName newMetric =
     (let expired = (newMetric \<ge> RIP_MAX_METRIC) in
      existing\<lparr>rr_Metric := newMetric, rr_LastUpdate := now, rr_IsExpired := expired, rr_Interface := intfName,
        rr_ExpiredAt := (if expired \<and> \<not> rr_IsExpired existing then Some now
                         else if \<not> expired then None else rr_ExpiredAt existing)\<rparr>)"

text \<open>The decision for one prefix: a new or better route, news from its next hop, or nothing.\<close>

fun rip_apply :: "int \<Rightarrow> string \<Rightarrow> string \<Rightarrow> prefix \<Rightarrow> u32 \<Rightarrow> rip_work \<Rightarrow> rip_work" where
  "rip_apply now srcIP intfName k newMetric (routes, rt, changed, events) =
     (if newMetric < RIP_MAX_METRIC
         \<and> (case rip_lookup routes k of None \<Rightarrow> True | Some r \<Rightarrow> newMetric < rr_Metric r) then
        (let new = rip_learned now k srcIP intfName newMetric
         in (rip_put routes new, rip_install rt new, True, events @ [(''rip_route_learned'', new)]))
      else case rip_lookup routes k of
        None \<Rightarrow> (routes, rt, changed, events)
      | Some r \<Rightarrow>
          if srcIP = rr_NextHop r then
            (let r' = rip_refreshed now r intfName newMetric;
                 rt' = (if rr_IsExpired r'
                        then fst (DeleteRouteFromSource rt (fst k) (snd k) ROUTE_SOURCE_RIP)
                        else rip_install rt r')
             in (rip_put routes r', rt',
                 changed \<or> rr_Metric r \<noteq> newMetric \<or> rr_IsExpired r \<noteq> rr_IsExpired r',
                 events @ [(if rr_IsExpired r' then ''rip_route_expired'' else ''rip_route_refreshed'', r')]))
          else (routes, rt, changed, events))"

definition received_metric :: "RIPEntry \<Rightarrow> u32" where
  "received_metric entry =
     (let newMetric = re_Metric entry + 1 in
      if newMetric > RIP_MAX_METRIC then RIP_MAX_METRIC else newMetric)"

definition process_entry :: "int \<Rightarrow> string \<Rightarrow> string \<Rightarrow> rip_work \<Rightarrow> RIPEntry \<Rightarrow> rip_work" where
  "process_entry now srcIP intfName w entry =
     (if re_AddressFamily entry \<noteq> RIP_ADDRESS_FAMILY_IP then w
      else
        (let maskBits = subnetMaskToMaskBits (re_SubnetMask entry) in
         case ApplyMask (IPUint32ToString (re_IPAddress entry)) maskBits of
           Inl _ \<Rightarrow> w
         | Inr networkAddr \<Rightarrow> rip_apply now srcIP intfName (networkAddr, maskBits) (received_metric entry) w))"

text \<open>\<open>ProcessRIPPacket\<close>; the flag says that a request is answered by \<open>SendRoutingUpdates\<close>.\<close>

record rip_outcome =
  ro_state :: RIPState
  ro_rt :: RoutingTable
  ro_respond :: bool
  ro_events :: "(string \<times> RIPRoute) list"

definition ProcessRIPPacket ::
  "RIPState \<Rightarrow> RoutingTable \<Rightarrow> int \<Rightarrow> RIPPacket \<Rightarrow> string \<Rightarrow> string \<Rightarrow> rip_outcome" where
  "ProcessRIPPacket rip rt now packet srcIP intfName =
     (if \<not> rip_enabled rip then \<lparr>ro_state = rip, ro_rt = rt, ro_respond = False, ro_events = []\<rparr>
      else if rp_Command packet = RIP_COMMAND_REQUEST
      then \<lparr>ro_state = rip, ro_rt = rt, ro_respond = True, ro_events = []\<rparr>
      else if rp_Command packet = RIP_COMMAND_RESPONSE then
        (let (routes', rt', changed, events) =
               foldl (process_entry now srcIP intfName) (rip_routes rip, rt, False, []) (rp_Entries packet);
             rip' = rip\<lparr>rip_routes := routes'\<rparr>
         in \<lparr>ro_state = (if changed then requestTriggeredUpdate rip' else rip'), ro_rt = rt',
             ro_respond = False, ro_events = events\<rparr>)
      else \<lparr>ro_state = rip, ro_rt = rt, ro_respond = False, ro_events = []\<rparr>)"

section \<open>Expiry\<close>

definition rip_timed_out :: "int \<Rightarrow> RIPRoute \<Rightarrow> bool" where
  "rip_timed_out now route \<longleftrightarrow> now - rr_LastUpdate route > RIP_TIMEOUT \<and> \<not> rr_IsExpired route"

definition rip_expire :: "int \<Rightarrow> RIPRoute \<Rightarrow> RIPRoute" where
  "rip_expire now route =
     (if rip_timed_out now route
      then route\<lparr>rr_IsExpired := True, rr_Metric := RIP_MAX_METRIC, rr_ExpiredAt := Some now\<rparr> else route)"

definition rip_garbage :: "int \<Rightarrow> RIPRoute \<Rightarrow> bool" where
  "rip_garbage now route \<longleftrightarrow>
     (rr_IsExpired route \<and> (case rr_ExpiredAt route of None \<Rightarrow> False | Some t \<Rightarrow> now - t > RIP_GARBAGE_COLLECT))"

definition CheckExpiredRoutes :: "RIPState \<Rightarrow> RoutingTable \<Rightarrow> int \<Rightarrow> rip_outcome" where
  "CheckExpiredRoutes rip rt now =
     (let old = rip_routes rip;
          timedOut = filter (rip_timed_out now) old;
          marked = map (rip_expire now) old;
          rt' = foldl (\<lambda>t r. fst (DeleteRouteFromSource t (rr_Destination r) (rr_Mask r) ROUTE_SOURCE_RIP)) rt timedOut;
          rip' = rip\<lparr>rip_routes := filter (\<lambda>r. \<not> rip_garbage now r) marked\<rparr>
      in \<lparr>ro_state = (if timedOut \<noteq> [] then requestTriggeredUpdate rip' else rip'), ro_rt = rt',
          ro_respond = False,
          ro_events = map (\<lambda>r. (''rip_route_expired'', rip_expire now r)) timedOut
                      @ map (\<lambda>r. (''rip_route_removed'', r)) (filter (rip_garbage now) marked)\<rparr>)"

end
