(* ===== verification/Lldp.thy ===== *)
theory Lldp
  imports Ether MacTable "HOL-Library.Char_ord" "HOL-Library.List_Lexorder" "HOL-Library.Product_Lexorder"
begin

text \<open>
  LLDP (\<open>src/src/l2_lldp.go\<close>): the TLV codec, the LLDPDU codec and the neighbour table of one node.
  The Go map \<open>neighbors\<close> is keyed by the local interface, chassis and port identifiers joined by
  NUL; the model keeps its values as a list keyed by the triple.  Go strings are byte strings:
  \<open>string_bytes\<close> and \<open>bytes_string\<close> convert.
\<close>

definition string_bytes :: "string \<Rightarrow> bytes" where "string_bytes s = map of_char s"
definition bytes_string :: "bytes \<Rightarrow> string" where "bytes_string b = map (\<lambda>x. char_of (unat x)) b"

lemma bytes_string_string_bytes [simp]: "bytes_string (string_bytes s) = s"
proof -
  have "char_of (unat (of_char c :: byte)) = c" for c
  proof -
    have "(of_char c :: nat) < 256" by simp
    moreover have "(of_char c :: byte) = of_nat (of_char c)" by (simp add: of_nat_of_char)
    ultimately have "unat (of_char c :: byte) = of_char c"
      by (simp only: unat_word_of_nat_byte)
    then show ?thesis by simp
  qed
  then show ?thesis by (simp add: bytes_string_def string_bytes_def o_def)
qed

lemma length_string_bytes [simp]: "length (string_bytes s) = length s"
  by (simp add: string_bytes_def)

definition LLDP_TLV_END :: byte where "LLDP_TLV_END = 0"
definition LLDP_TLV_CHASSIS_ID :: byte where "LLDP_TLV_CHASSIS_ID = 1"
definition LLDP_TLV_PORT_ID :: byte where "LLDP_TLV_PORT_ID = 2"
definition LLDP_TLV_TTL :: byte where "LLDP_TLV_TTL = 3"
definition LLDP_TLV_SYSTEM_NAME :: byte where "LLDP_TLV_SYSTEM_NAME = 5"
definition LLDP_TLV_SYSTEM_DESCRIPTION :: byte where "LLDP_TLV_SYSTEM_DESCRIPTION = 6"
definition LLDP_TLV_SYSTEM_CAPABILITIES :: byte where "LLDP_TLV_SYSTEM_CAPABILITIES = 7"
definition LLDP_CHASSIS_ID_LOCAL :: byte where "LLDP_CHASSIS_ID_LOCAL = 7"
definition LLDP_PORT_ID_INTERFACE_NAME :: byte where "LLDP_PORT_ID_INTERFACE_NAME = 5"
definition LLDP_DEFAULT_TTL :: u16 where "LLDP_DEFAULT_TTL = 120"
definition LLDP_MAX_TLV_LENGTH :: nat where "LLDP_MAX_TLV_LENGTH = 511"
definition LLDP_CAP_OTHER :: u16 where "LLDP_CAP_OTHER = 1"
definition LLDP_CAP_BRIDGE :: u16 where "LLDP_CAP_BRIDGE = 4"
definition LLDP_CAP_ROUTER :: u16 where "LLDP_CAP_ROUTER = 16"

lemmas lldp_tlv_defs = LLDP_TLV_END_def LLDP_TLV_CHASSIS_ID_def LLDP_TLV_PORT_ID_def LLDP_TLV_TTL_def
  LLDP_TLV_SYSTEM_NAME_def LLDP_TLV_SYSTEM_DESCRIPTION_def LLDP_TLV_SYSTEM_CAPABILITIES_def

record LLDPDU =
  du_ChassisIDSubtype :: byte
  du_ChassisID :: bytes
  du_PortIDSubtype :: byte
  du_PortID :: bytes
  du_TTL :: u16
  du_SystemName :: string
  du_SystemDescription :: string
  du_SupportedCapabilities :: u16
  du_EnabledCapabilities :: u16

definition empty_LLDPDU :: LLDPDU where
  "empty_LLDPDU =
     \<lparr>du_ChassisIDSubtype = 0, du_ChassisID = [], du_PortIDSubtype = 0, du_PortID = [], du_TTL = 0,
      du_SystemName = [], du_SystemDescription = [], du_SupportedCapabilities = 0,
      du_EnabledCapabilities = 0\<rparr>"

section \<open>Serialisation\<close>

definition serializeLLDPTLV :: "byte \<Rightarrow> bytes \<Rightarrow> string + bytes" where
  "serializeLLDPTLV tlvType value =
     (if tlvType > 127 then Inl ''invalid LLDP TLV type''
      else if length value > LLDP_MAX_TLV_LENGTH then Inl ''LLDP TLV value is too large''
      else Inr (put16 (push_bit 9 (ucast tlvType) OR word_of_nat (length value)) @ value))"

definition appendLLDPTLV :: "bytes \<Rightarrow> byte \<Rightarrow> bytes \<Rightarrow> string + bytes" where
  "appendLLDPTLV dst tlvType value =
     (case serializeLLDPTLV tlvType value of Inl e \<Rightarrow> Inl e | Inr tlv \<Rightarrow> Inr (dst @ tlv))"

text \<open>A sequence of appends, stopping at the first error.\<close>

fun append_tlvs :: "bytes \<Rightarrow> (byte \<times> bytes) list \<Rightarrow> string + bytes" where
  "append_tlvs dst [] = Inr dst"
| "append_tlvs dst ((t, v) # rest) =
     (case appendLLDPTLV dst t v of Inl e \<Rightarrow> Inl e | Inr dst' \<Rightarrow> append_tlvs dst' rest)"

definition lldp_tlvs :: "LLDPDU \<Rightarrow> (byte \<times> bytes) list" where
  "lldp_tlvs du =
     [(LLDP_TLV_CHASSIS_ID, du_ChassisIDSubtype du # du_ChassisID du),
      (LLDP_TLV_PORT_ID, du_PortIDSubtype du # du_PortID du), (LLDP_TLV_TTL, put16 (du_TTL du))] @
     (if du_SystemName du \<noteq> [] then [(LLDP_TLV_SYSTEM_NAME, string_bytes (du_SystemName du))] else []) @
     (if du_SystemDescription du \<noteq> []
      then [(LLDP_TLV_SYSTEM_DESCRIPTION, string_bytes (du_SystemDescription du))] else []) @
     [(LLDP_TLV_SYSTEM_CAPABILITIES, put16 (du_SupportedCapabilities du) @ put16 (du_EnabledCapabilities du)),
      (LLDP_TLV_END, [])]"

definition serializeLLDPDU :: "LLDPDU \<Rightarrow> string + bytes" where
  "serializeLLDPDU du =
     (if du_ChassisID du = [] \<or> du_PortID du = [] then Inl ''LLDP chassis ID and port ID are required''
      else append_tlvs [] (lldp_tlvs du))"

section \<open>Parsing\<close>

text \<open>One TLV: an error, the end of the LLDPDU, or the fields so far and the mandatory stage.\<close>

datatype tlv_result = TlvError string | TlvDone | TlvNext LLDPDU nat

definition lldp_tlv :: "byte \<Rightarrow> nat \<Rightarrow> bytes \<Rightarrow> LLDPDU \<Rightarrow> nat \<Rightarrow> tlv_result" where
  "lldp_tlv tlvType len val du mandatoryStage =
     (if tlvType = LLDP_TLV_END then
        (if len \<noteq> 0 then TlvError ''invalid LLDP End TLV length''
         else if mandatoryStage \<noteq> 3 then TlvError ''LLDPDU is missing a mandatory TLV'' else TlvDone)
      else if tlvType = LLDP_TLV_CHASSIS_ID then
        (if mandatoryStage \<noteq> 0 \<or> len < 2 then TlvError ''invalid LLDP Chassis ID TLV''
         else TlvNext (du\<lparr>du_ChassisIDSubtype := val ! 0, du_ChassisID := drop 1 val\<rparr>) 1)
      else if tlvType = LLDP_TLV_PORT_ID then
        (if mandatoryStage \<noteq> 1 \<or> len < 2 then TlvError ''invalid LLDP Port ID TLV''
         else TlvNext (du\<lparr>du_PortIDSubtype := val ! 0, du_PortID := drop 1 val\<rparr>) 2)
      else if tlvType = LLDP_TLV_TTL then
        (if mandatoryStage \<noteq> 2 \<or> len \<noteq> 2 then TlvError ''invalid LLDP TTL TLV''
         else TlvNext (du\<lparr>du_TTL := u16_at val 0\<rparr>) 3)
      else if tlvType = LLDP_TLV_SYSTEM_NAME then
        (if mandatoryStage \<noteq> 3 then TlvError ''LLDP optional TLV precedes mandatory TLVs''
         else TlvNext (du\<lparr>du_SystemName := bytes_string val\<rparr>) mandatoryStage)
      else if tlvType = LLDP_TLV_SYSTEM_DESCRIPTION then
        (if mandatoryStage \<noteq> 3 then TlvError ''LLDP optional TLV precedes mandatory TLVs''
         else TlvNext (du\<lparr>du_SystemDescription := bytes_string val\<rparr>) mandatoryStage)
      else if tlvType = LLDP_TLV_SYSTEM_CAPABILITIES then
        (if mandatoryStage \<noteq> 3 \<or> len \<noteq> 4 then TlvError ''invalid LLDP System Capabilities TLV''
         else TlvNext (du\<lparr>du_SupportedCapabilities := u16_at val 0,
                        du_EnabledCapabilities := u16_at val 2\<rparr>) mandatoryStage)
      else if mandatoryStage \<noteq> 3 then TlvError ''LLDP optional TLV precedes mandatory TLVs''
      else TlvNext du mandatoryStage)"

definition tlv_type :: "u16 \<Rightarrow> byte" where "tlv_type header = ucast (drop_bit 9 header)"
definition tlv_len :: "u16 \<Rightarrow> nat" where "tlv_len header = unat (header AND 511)"

text \<open>The loop of \<open>deserializeLLDPDU\<close> on what is left of the payload.\<close>

function lldp_loop :: "bytes \<Rightarrow> LLDPDU \<Rightarrow> nat \<Rightarrow> string + LLDPDU" where
  "lldp_loop payload du mandatoryStage =
     (if length payload < 2 then Inl ''LLDPDU has no End TLV''
      else
        (let header = u16_at payload 0; rest = drop 2 payload; len = tlv_len header in
         if length rest < len then Inl ''truncated LLDP TLV''
         else case lldp_tlv (tlv_type header) len (take len rest) du mandatoryStage of
           TlvError e \<Rightarrow> Inl e
         | TlvDone \<Rightarrow> Inr du
         | TlvNext du' stage' \<Rightarrow> lldp_loop (drop len rest) du' stage'))"
  by pat_completeness auto
termination
  by (relation "measure (\<lambda>(p, _, _). length p)") auto

declare lldp_loop.simps [simp del]

definition deserializeLLDPDU :: "bytes \<Rightarrow> string + LLDPDU" where
  "deserializeLLDPDU payload = lldp_loop payload empty_LLDPDU 0"

section \<open>Round trip\<close>

lemma word_bit_bound:
  assumes "unat (w :: 'a::len word) < 2 ^ n" "bit w i" shows "i < n"
proof -
  have "bit (unat w) i" using assms(2) by (simp add: bit_unsigned_iff bit_imp_le_length)
  moreover have "take_bit n (unat w) = unat w" using assms(1) by (simp add: take_bit_nat_eq_self)
  ultimately show ?thesis by (metis bit_take_bit_iff)
qed

lemma tlv_header_word:
  assumes "t \<le> (127 :: byte)" "unat w < 512"
  shows "tlv_type (push_bit 9 (ucast t) OR w) = t" "tlv_len (push_bit 9 (ucast t) OR w) = unat w"
proof -
  have bn: "bit w i \<Longrightarrow> i < 9" for i using word_bit_bound [of w 9 i] assms(2) by simp
  have bt: "bit t i \<Longrightarrow> i < 7" for i using word_bit_bound [of t 7 i] assms(1) by (simp add: word_le_nat_alt)
  show "tlv_type (push_bit 9 (ucast t) OR w) = t"
    unfolding tlv_type_def by (rule bit_eqI) (auto simp: bit_simps dest: bn bt)
  have m: "(511 :: u16) = Bit_Operations.mask 9" by (simp add: mask_eq_exp_minus_1)
  have "(push_bit 9 (ucast t) OR w) AND 511 = w"
    unfolding m by (rule bit_eqI) (auto simp: bit_simps dest: bn)
  then show "tlv_len (push_bit 9 (ucast t) OR w) = unat w" by (simp add: tlv_len_def)
qed

lemma tlv_header:
  assumes "t \<le> (127 :: byte)" "n \<le> 511"
  shows "tlv_type (push_bit 9 (ucast t) OR word_of_nat n) = t"
    "tlv_len (push_bit 9 (ucast t) OR word_of_nat n) = n"
proof -
  have "unat (word_of_nat n :: u16) = n" using assms(2) by (simp add: unsigned_of_nat take_bit_eq_mod)
  with tlv_header_word [OF assms(1), of "word_of_nat n"] assms(2)
  show "tlv_type (push_bit 9 (ucast t) OR word_of_nat n) = t"
    "tlv_len (push_bit 9 (ucast t) OR word_of_nat n) = n" by simp_all
qed

lemma lldp_loop_tlv:
  assumes "serializeLLDPTLV t v = Inr tlv"
  shows "lldp_loop (tlv @ rest) du st =
    (case lldp_tlv t (length v) v du st of
       TlvError e \<Rightarrow> Inl e | TlvDone \<Rightarrow> Inr du | TlvNext du' st' \<Rightarrow> lldp_loop rest du' st')"
proof -
  have ok: "t \<le> 127" "length v \<le> 511"
    and tlv: "tlv = put16 (push_bit 9 (ucast t) OR word_of_nat (length v)) @ v"
    using assms by (auto simp: serializeLLDPTLV_def LLDP_MAX_TLV_LENGTH_def not_less split: if_splits)
  note h = tlv_header [OF ok]
  have u: "u16_at (tlv @ rest) 0 = push_bit 9 (ucast t) OR word_of_nat (length v)"
    using u16_at_put16 [of "[]" 0 "push_bit 9 (ucast t) OR word_of_nat (length v)" "v @ rest"] by (simp add: tlv)
  have d: "drop 2 (tlv @ rest) = v @ rest" and l: "\<not> length (tlv @ rest) < 2"
    by (simp_all add: tlv)
  have v: "take (length v) (v @ rest) = v" "drop (length v) (v @ rest) = rest" "\<not> length (v @ rest) < length v"
    by simp_all
  show ?thesis
    by (subst lldp_loop.simps, unfold u d if_not_P [OF l] Let_def h v if_not_P [OF v(3)]) (rule refl)
qed

lemma append_tlvs_dst: "append_tlvs dst ts = map_sum id ((@) dst) (append_tlvs [] ts)"
proof (induction ts arbitrary: dst)
  case (Cons tv ts)
  obtain t v where tv: "tv = (t, v)" by fastforce
  show ?case
  proof (cases "serializeLLDPTLV t v")
    case (Inr tlv)
    with tv Cons.IH [of "dst @ tlv"] Cons.IH [of tlv] show ?thesis
      by (cases "append_tlvs [] ts") (simp_all add: appendLLDPTLV_def)
  qed (simp add: tv appendLLDPTLV_def)
qed simp

lemma append_tlvs_Cons:
  "append_tlvs [] ((t, v) # ts) = Inr p \<longleftrightarrow>
     (\<exists>tlv q. serializeLLDPTLV t v = Inr tlv \<and> append_tlvs [] ts = Inr q \<and> p = tlv @ q)"
proof (cases "serializeLLDPTLV t v")
  case (Inr tlv)
  with append_tlvs_dst [of tlv ts] show ?thesis
    by (cases "append_tlvs [] ts") (auto simp: appendLLDPTLV_def)
qed (simp add: appendLLDPTLV_def)

text \<open>What parsing does to a list of well-sized TLVs, one at a time.\<close>

fun parse_tlvs :: "(byte \<times> bytes) list \<Rightarrow> LLDPDU \<Rightarrow> nat \<Rightarrow> string + LLDPDU" where
  "parse_tlvs [] du st = Inl ''LLDPDU has no End TLV''"
| "parse_tlvs ((t, v) # ts) du st =
     (case lldp_tlv t (length v) v du st of
        TlvError e \<Rightarrow> Inl e | TlvDone \<Rightarrow> Inr du | TlvNext du' st' \<Rightarrow> parse_tlvs ts du' st')"

lemma lldp_loop_tlvs:
  "append_tlvs [] ts = Inr p \<Longrightarrow> parse_tlvs ts du st = Inr du' \<Longrightarrow> lldp_loop (p @ rest) du st = Inr du'"
proof (induction ts arbitrary: p du st)
  case (Cons tv ts)
  obtain t v where tv: "tv = (t, v)" by fastforce
  obtain tlv q where q: "serializeLLDPTLV t v = Inr tlv" "append_tlvs [] ts = Inr q" "p = tlv @ q"
    using Cons.prems(1) unfolding tv append_tlvs_Cons by blast
  show ?case using Cons.prems(2) Cons.IH [OF q(2)]
    by (cases "lldp_tlv t (length v) v du st") (simp_all add: tv q(3) lldp_loop_tlv [OF q(1)])
qed simp

lemma u16_at_0_put16 [simp]: "u16_at (put16 w) 0 = w" "u16_at (put16 w @ rest) 0 = w"
  using u16_at_put16 [of "[]" 0 w "[]"] u16_at_put16 [of "[]" 0 w rest] by simp_all

lemma u16_at_2_put16 [simp]: "u16_at (put16 v @ put16 w) 2 = w"
  using u16_at_put16 [of "put16 v" 2 w "[]"] by simp

lemma parse_lldp_tlvs:
  assumes "du_ChassisID du \<noteq> []" "du_PortID du \<noteq> []"
  shows "parse_tlvs (lldp_tlvs du) empty_LLDPDU 0 = Inr du"
proof -
  have "Suc (length xs) < 2 \<longleftrightarrow> xs = []" for xs :: bytes by (cases xs) auto
  with assms show ?thesis
    by (simp add: lldp_tlvs_def lldp_tlv_def lldp_tlv_defs empty_LLDPDU_def)
qed

lemma deserialize_serializeLLDPDU:
  "serializeLLDPDU du = Inr p \<Longrightarrow> deserializeLLDPDU (p @ pad) = Inr du"
  unfolding deserializeLLDPDU_def
  by (rule lldp_loop_tlvs [of "lldp_tlvs du"]) (auto simp: serializeLLDPDU_def parse_lldp_tlvs split: if_splits)

section \<open>The neighbour table\<close>

record LLDPNeighbor =
  nb_ChassisID :: string
  nb_PortID :: string
  nb_SystemName :: string
  nb_SystemDescription :: string
  nb_SourceMAC :: MacAddr
  nb_LocalInterface :: string
  nb_TTL :: u16
  nb_SupportedCapabilities :: u16
  nb_EnabledCapabilities :: u16
  nb_LastUpdate :: int
  nb_ExpiresAt :: int

record LLDPState =
  lldp_enabled :: bool
  lldp_neighbors :: "LLDPNeighbor list"

definition InitLLDPState :: LLDPState where
  "InitLLDPState = \<lparr>lldp_enabled = False, lldp_neighbors = []\<rparr>"

type_synonym neighbor_key = "string \<times> string \<times> string"

definition lldpNeighborKey :: "LLDPNeighbor \<Rightarrow> neighbor_key" where
  "lldpNeighborKey n = (nb_LocalInterface n, nb_ChassisID n, nb_PortID n)"

definition lldp_lookup :: "LLDPNeighbor list \<Rightarrow> neighbor_key \<Rightarrow> LLDPNeighbor option" where
  "lldp_lookup ns k = find (\<lambda>n. lldpNeighborKey n = k) ns"

definition formatLLDPID :: "byte \<Rightarrow> bytes \<Rightarrow> string" where
  "formatLLDPID subtype val =
     (if (subtype = 3 \<or> subtype = 4) \<and> length val = 6 then mac_string (mac_of val)
      else if length val = 0 then ''-''
      else if list_all (\<lambda>b. \<not> (b < 32 \<or> b > 126)) val then bytes_string val
      else concat (map hex2 val))"

text \<open>
  \<open>ProcessFrame\<close>: the new state, the event of the neighbour table if any (its action), whether a
  new neighbour is to be answered with an advertisement, and the error.
\<close>

record lldp_outcome =
  lo_state :: LLDPState
  lo_event :: "string option"
  lo_reply :: bool
  lo_error :: "string option"

definition lldp_unchanged :: "LLDPState \<Rightarrow> string option \<Rightarrow> lldp_outcome" where
  "lldp_unchanged st e = \<lparr>lo_state = st, lo_event = None, lo_reply = False, lo_error = e\<rparr>"

definition neighbor_of :: "int \<Rightarrow> string \<Rightarrow> EthernetHeader \<Rightarrow> LLDPDU \<Rightarrow> LLDPNeighbor" where
  "neighbor_of now localInterface ethHdr du =
     \<lparr>nb_ChassisID = formatLLDPID (du_ChassisIDSubtype du) (du_ChassisID du),
      nb_PortID = formatLLDPID (du_PortIDSubtype du) (du_PortID du),
      nb_SystemName = du_SystemName du, nb_SystemDescription = du_SystemDescription du,
      nb_SourceMAC = src_mac ethHdr, nb_LocalInterface = localInterface, nb_TTL = du_TTL du,
      nb_SupportedCapabilities = du_SupportedCapabilities du,
      nb_EnabledCapabilities = du_EnabledCapabilities du, nb_LastUpdate = now,
      nb_ExpiresAt = now + int (unat (du_TTL du)) * second\<rparr>"

definition lldp_put :: "LLDPNeighbor list \<Rightarrow> LLDPNeighbor \<Rightarrow> LLDPNeighbor list" where
  "lldp_put ns new =
     (if lldp_lookup ns (lldpNeighborKey new) = None then ns @ [new]
      else map (\<lambda>n. if lldpNeighborKey n = lldpNeighborKey new then new else n) ns)"

definition LLDP_ProcessFrame ::
  "LLDPState \<Rightarrow> int \<Rightarrow> bool \<Rightarrow> string \<Rightarrow> EthernetHeader \<Rightarrow> bytes \<Rightarrow> lldp_outcome" where
  "LLDP_ProcessFrame lldp now traceRound localInterface ethHdr payload =
     (if \<not> isLLDPMulticastMAC (dst_mac ethHdr) then lldp_unchanged lldp (Some ''invalid LLDP destination MAC'')
      else if ethertype ethHdr \<noteq> ETHERTYPE_LLDP then lldp_unchanged lldp (Some ''invalid LLDP EtherType'')
      else if \<not> lldp_enabled lldp then lldp_unchanged lldp None
      else case deserializeLLDPDU payload of
        Inl e \<Rightarrow> lldp_unchanged lldp (Some e)
      | Inr du \<Rightarrow>
          (let new = neighbor_of now localInterface ethHdr du;
               key = lldpNeighborKey new;
               known = (lldp_lookup (lldp_neighbors lldp) key \<noteq> None)
           in if du_TTL du = 0 then
                \<lparr>lo_state = lldp\<lparr>lldp_neighbors := filter (\<lambda>n. lldpNeighborKey n \<noteq> key) (lldp_neighbors lldp)\<rparr>,
                 lo_event = (if known then Some ''lldp_neighbor_removed'' else None),
                 lo_reply = False, lo_error = None\<rparr>
              else
                \<lparr>lo_state = lldp\<lparr>lldp_neighbors := lldp_put (lldp_neighbors lldp) new\<rparr>,
                 lo_event = Some (if known then ''lldp_neighbor_refreshed'' else ''lldp_neighbor_discovered''),
                 lo_reply = (\<not> known \<and> \<not> traceRound), lo_error = None\<rparr>))"

definition RemoveExpiredNeighbors :: "LLDPState \<Rightarrow> int \<Rightarrow> LLDPState \<times> LLDPNeighbor list" where
  "RemoveExpiredNeighbors lldp now =
     (let expired = filter (\<lambda>n. \<not> now < nb_ExpiresAt n) (lldp_neighbors lldp) in
      (lldp\<lparr>lldp_neighbors := filter (\<lambda>n. now < nb_ExpiresAt n) (lldp_neighbors lldp)\<rparr>, expired))"

text \<open>\<open>NeighborsSnapshot\<close>: byte-wise string order on interface, chassis and port identifier.\<close>

definition NeighborsSnapshot :: "LLDPState \<Rightarrow> LLDPNeighbor list" where
  "NeighborsSnapshot lldp = sort_key lldpNeighborKey (lldp_neighbors lldp)"

definition lldp_capability_names :: "(u16 \<times> string) list" where
  "lldp_capability_names =
     [(1, ''Other''), (2, ''Repeater''), (4, ''Bridge''), (8, ''WLAN''), (16, ''Router''),
      (32, ''Telephone''), (64, ''DOCSIS''), (128, ''Station'')]"

fun join_comma :: "string list \<Rightarrow> string" where
  "join_comma [] = []"
| "join_comma [x] = x"
| "join_comma (x # xs) = x @ '','' @ join_comma xs"

definition formatLLDPCapabilities :: "u16 \<Rightarrow> string" where
  "formatLLDPCapabilities capabilities =
     (let names = map snd (filter (\<lambda>(c, _). capabilities AND c \<noteq> 0) lldp_capability_names) in
      if length names = 0 then ''-'' else join_comma names)"

text \<open>One entry per neighbour, and each entry lives for the TTL it announced.\<close>

definition lldp_inv :: "LLDPState \<Rightarrow> bool" where
  "lldp_inv lldp \<longleftrightarrow>
     distinct (map lldpNeighborKey (lldp_neighbors lldp)) \<and>
     (\<forall>n\<in>set (lldp_neighbors lldp). nb_TTL n \<noteq> 0 \<and> nb_ExpiresAt n = nb_LastUpdate n + int (unat (nb_TTL n)) * second)"

lemma lldp_lookup_None: "lldp_lookup ns k = None \<longleftrightarrow> k \<notin> lldpNeighborKey ` set ns"
  by (auto simp: lldp_lookup_def find_None_iff)

lemma lldp_put_keys: "map lldpNeighborKey (lldp_put ns new) =
    (if lldp_lookup ns (lldpNeighborKey new) = None then map lldpNeighborKey ns @ [lldpNeighborKey new]
     else map lldpNeighborKey ns)"
  by (auto simp: lldp_put_def)

lemma lldp_put_set: "set (lldp_put ns new) \<subseteq> insert new (set ns)"
  by (auto simp: lldp_put_def)

lemma lldp_inv_put:
  assumes "lldp_inv (st\<lparr>lldp_neighbors := ns\<rparr>)" "nb_TTL new \<noteq> 0"
    "nb_ExpiresAt new = nb_LastUpdate new + int (unat (nb_TTL new)) * second"
  shows "lldp_inv (st\<lparr>lldp_neighbors := lldp_put ns new\<rparr>)"
proof -
  have "distinct (map lldpNeighborKey (lldp_put ns new))"
    unfolding lldp_put_keys using assms(1) by (simp add: lldp_inv_def lldp_lookup_None)
  then show ?thesis using assms lldp_put_set [of ns new] by (auto simp: lldp_inv_def)
qed

lemma lldp_inv_filter: "lldp_inv st \<Longrightarrow> lldp_inv (st\<lparr>lldp_neighbors := filter P (lldp_neighbors st)\<rparr>)"
  by (auto simp: lldp_inv_def distinct_map_filter)

lemma lldp_inv_ProcessFrame:
  assumes "lldp_inv lldp" shows "lldp_inv (lo_state (LLDP_ProcessFrame lldp now tr li hdr payload))"
proof (cases "deserializeLLDPDU payload")
  case (Inl e)
  with assms show ?thesis by (simp add: LLDP_ProcessFrame_def lldp_unchanged_def)
next
  case (Inr du)
  have "lldp_inv (lldp\<lparr>lldp_neighbors := lldp_put (lldp_neighbors lldp) (neighbor_of now li hdr du)\<rparr>)"
    if "du_TTL du \<noteq> 0"
    by (rule lldp_inv_put) (use assms that in \<open>simp_all add: neighbor_of_def\<close>)
  then show ?thesis using assms Inr lldp_inv_filter [OF assms]
    by (simp add: LLDP_ProcessFrame_def lldp_unchanged_def Let_def)
qed

lemma RemoveExpiredNeighbors_alive:
  "n \<in> set (lldp_neighbors (fst (RemoveExpiredNeighbors lldp now))) \<longleftrightarrow>
     n \<in> set (lldp_neighbors lldp) \<and> now < nb_ExpiresAt n"
  by (auto simp: RemoveExpiredNeighbors_def)

end
