(* ===== verification/Node.thy ===== *)
theory Node
  imports Stp ArpTable IpHeader Rip Lldp
begin

text \<open>
  The node of \<open>src/src/node.go\<close>, its address lookups (\<open>l3_network.go\<close>, \<open>interface.go\<close>,
  \<open>l3_routing.go\<close>), and the boundary to the wire, \<open>send_frame\<close> of \<open>transport.go\<close>.

  A handler of the data plane is a function from a node to a node and a list of effects: frames
  handed to the transport and events, in the order the code produces them.  This is what the code
  does while the in-memory transport drains its queue, where \<open>Send\<close> only appends.  What a handler
  reads outside the node (links, clock, neighbours' interfaces) is in the environment record.

  The closures stored in the ARP table become values of \<open>arp_cb\<close>; running one is \<open>run_callback\<close> of
  \<open>Switching\<close>.  The map of VLAN interfaces is a list in its iteration order.
\<close>

datatype DeviceType = DEVICE_TYPE_HOST | DEVICE_TYPE_SWITCH | DEVICE_TYPE_ROUTER

record VlanInterface =
  vi_vlan_id :: u16
  vi_ip_addr :: IpAddr
  vi_mask :: byte

datatype arp_cb =
    SendResolved IpAddr
  | DropUnresolved nat IpAddr bytes
  | RetryRequest nat string
  | ForwardRouted nat u16 IpAddr
  | DropRouted u16 IpAddr bytes
  | RetryVlanRequest u16 string

record ICMPErrorReport =
  ie_Type :: byte
  ie_Code :: byte
  ie_Reason :: string
  ie_ReporterIP :: string
  ie_OriginalDstIP :: string

record Node =
  nd_name :: string
  nd_device_type :: "DeviceType option"
  nd_intf :: intf_array
  nd_is_loopback_config :: bool
  nd_loopback_addr :: IpAddr
  nd_arp :: "arp_cb arp_table"
  nd_mac :: mac_table
  nd_rt :: RoutingTable
  nd_vlan_interfaces :: "VlanInterface list"
  nd_rip :: RIPState
  nd_lldp :: LLDPState
  nd_stp :: STPState
  nd_ping_reply_count :: "64 word"
  nd_icmp_errors :: "ICMPErrorReport list"

record env =
  e_links :: "Link list"
  e_self :: nat
  e_now :: int
  e_peer :: "nat \<Rightarrow> Interface option"
  e_trace :: bool

datatype eff = Send nat bytes | Emit string string string

type_synonym result = "Node \<times> eff list"

text \<open>Sequencing: the effects of the first step come before those of the second.\<close>

definition then_do :: "result \<Rightarrow> (Node \<Rightarrow> result) \<Rightarrow> result" where
  "then_do r f = (let (n1, es1) = r; (n2, es2) = f n1 in (n2, es1 @ es2))"

definition emit :: "Node \<Rightarrow> string \<Rightarrow> string \<Rightarrow> string \<Rightarrow> result" where
  "emit node protocol action reason = (node, [Emit protocol action reason])"

definition sends :: "eff list \<Rightarrow> (nat \<times> bytes) list" where
  "sends es = concat (map (\<lambda>e. case e of Send i f \<Rightarrow> [(i, f)] | Emit _ _ _ \<Rightarrow> []) es)"

lemma sends_simps [simp]:
  "sends [] = []" "sends (Send i f # es) = (i, f) # sends es" "sends (Emit p a r # es) = sends es"
  "sends (es @ fs) = sends es @ sends fs"
  by (simp_all add: sends_def)

lemma then_do_simps [simp]:
  "then_do (n, es) f = (fst (f n), es @ snd (f n))"
  by (simp add: then_do_def split: prod.splits)

section \<open>Interfaces of a node\<close>

definition intf_of :: "Node \<Rightarrow> nat \<Rightarrow> Interface option" where
  "intf_of node i = intf_at (nd_intf node) i"

definition intf_name_of :: "Node \<Rightarrow> nat \<Rightarrow> string" where
  "intf_name_of node i = (case intf_of node i of None \<Rightarrow> ''Unknown'' | Some intf \<Rightarrow> get_interface_name intf)"

definition node_owns_mac :: "Node \<Rightarrow> MacAddr \<Rightarrow> bool" where
  "node_owns_mac node mac \<longleftrightarrow>
     list_ex (\<lambda>x. case x of None \<Rightarrow> False | Some intf \<Rightarrow> mac_addr_equal (GetMac intf) mac) (nd_intf node)"

text \<open>\<open>node_get_matching_subnet_interface\<close>: the first slot whose subnet holds the address.\<close>

fun subnet_loop :: "nat \<Rightarrow> intf_array \<Rightarrow> u32 \<Rightarrow> nat option" where
  "subnet_loop i [] target = None"
| "subnet_loop i (None # rest) target = subnet_loop (i + 1) rest target"
| "subnet_loop i (Some intf # rest) target =
     (if \<not> IsIPConfigured intf then subnet_loop (i + 1) rest target
      else if GetMask intf = 0 \<or> GetMask intf > 32 then subnet_loop (i + 1) rest target
      else if ip_to_u32 (GetIP intf) AND mask32 (GetMask intf) = target AND mask32 (GetMask intf) then Some i
      else subnet_loop (i + 1) rest target)"

definition node_get_matching_subnet_interface :: "Node \<Rightarrow> string \<Rightarrow> nat option" where
  "node_get_matching_subnet_interface node ip_str =
     (case parseIPv4 ip_str of
        None \<Rightarrow> None
      | Some targetIP \<Rightarrow> subnet_loop 0 (nd_intf node) (ip_to_u32 targetIP))"

definition IsLayer3LocalDelivery :: "Node \<Rightarrow> u32 \<Rightarrow> bool" where
  "IsLayer3LocalDelivery node dstIP =
     (let dstIPStr = IPUint32ToString dstIP in
      if nd_is_loopback_config node \<and> ip_string (nd_loopback_addr node) = dstIPStr then True
      else list_ex (\<lambda>x. case x of None \<Rightarrow> False
             | Some intf \<Rightarrow> IsIPConfigured intf \<and> ip_string (GetIP intf) = dstIPStr) (nd_intf node))"

section \<open>Configuration\<close>

definition SetLoopbackIP :: "Node \<Rightarrow> string \<Rightarrow> Node \<times> bool" where
  "SetLoopbackIP node ip_str =
     (let (addr, ok) = set_ip_addr (nd_loopback_addr node) ip_str;
          node1 = node\<lparr>nd_loopback_addr := addr\<rparr>
      in if \<not> ok then (node1, False) else (node1\<lparr>nd_is_loopback_config := True\<rparr>, True))"

definition node_set_intf_ip_address :: "Node \<Rightarrow> string \<Rightarrow> string \<Rightarrow> byte \<Rightarrow> Node \<times> bool" where
  "node_set_intf_ip_address node local_if ip_str msk =
     (case get_node_if_by_name (nd_intf node) local_if of
        None \<Rightarrow> (node, False)
      | Some i \<Rightarrow>
          (case intf_of node i of
             None \<Rightarrow> (node, False)
           | Some intf \<Rightarrow>
               (let (intf', ok) = SetIPConfig intf ip_str msk;
                    node1 = node\<lparr>nd_intf := (nd_intf node)[i := Some intf']\<rparr>
                in if \<not> ok then (node1, False)
                   else (node1\<lparr>nd_rt := fst (AddRouteWithParams (nd_rt node1) ip_str msk [] local_if
                                 ROUTE_SOURCE_CONNECTED ROUTE_SOURCE_CONNECTED 0)\<rparr>, True))))"

definition GetVlanInterface :: "Node \<Rightarrow> u16 \<Rightarrow> VlanInterface option" where
  "GetVlanInterface node vlan_id = find (\<lambda>v. vi_vlan_id v = vlan_id) (nd_vlan_interfaces node)"

definition HasVlanInterface :: "Node \<Rightarrow> u16 \<Rightarrow> bool" where
  "HasVlanInterface node vlan_id \<longleftrightarrow> GetVlanInterface node vlan_id \<noteq> None"

definition GetVlanInterfaceCount :: "Node \<Rightarrow> nat" where
  "GetVlanInterfaceCount node = length (nd_vlan_interfaces node)"

definition vlan_if_name :: "u16 \<Rightarrow> string" where
  "vlan_if_name vlan_id = ''vlan'' @ dec (unat vlan_id)"

definition AddVlanInterface :: "Node \<Rightarrow> u16 \<Rightarrow> string \<Rightarrow> byte \<Rightarrow> Node \<times> bool" where
  "AddVlanInterface node vlan_id ip_str msk =
     (if vlan_id < VLAN_MIN \<or> vlan_id > VLAN_MAX then (node, False)
      else if msk > 32 then (node, False)
      else if HasVlanInterface node vlan_id then (node, False)
      else case parseIPv4 ip_str of
        None \<Rightarrow> (node, False)
      | Some addr \<Rightarrow>
          (case AddRouteWithParams (nd_rt node) ip_str msk [] (vlan_if_name vlan_id)
                  ROUTE_SOURCE_CONNECTED ROUTE_SOURCE_CONNECTED 0 of
             (rt', None) \<Rightarrow>
               (node\<lparr>nd_vlan_interfaces := nd_vlan_interfaces node @
                       [\<lparr>vi_vlan_id = vlan_id, vi_ip_addr = addr, vi_mask = msk\<rparr>],
                     nd_rt := rt'\<rparr>, True)
           | (rt', Some _) \<Rightarrow> (node\<lparr>nd_rt := rt'\<rparr>, False)))"

text \<open>\<open>node_owns_ip\<close> of l2_switch.go: local delivery, or one of the SVIs.\<close>

definition node_owns_ip :: "Node \<Rightarrow> u32 \<Rightarrow> bool" where
  "node_owns_ip node ip =
     (if IsLayer3LocalDelivery node ip then True
      else list_ex (\<lambda>v. vi_ip_addr v = u32_to_ip ip) (nd_vlan_interfaces node))"

definition recordICMPError :: "Node \<Rightarrow> ICMPErrorReport \<Rightarrow> Node" where
  "recordICMPError node report = node\<lparr>nd_icmp_errors := nd_icmp_errors node @ [report]\<rparr>"

definition takeICMPErrors :: "Node \<Rightarrow> Node \<times> ICMPErrorReport list" where
  "takeICMPErrors node = (node\<lparr>nd_icmp_errors := []\<rparr>, nd_icmp_errors node)"

section \<open>Sending a frame\<close>

text \<open>\<open>frameProtocol\<close> of transport.go, \<open>ipProtocolName\<close> of events.go.\<close>

definition frameProtocol :: "bytes \<Rightarrow> string" where
  "frameProtocol frame =
     (if length frame < ETHERNET_HDR_SIZE then ''ETHERNET''
      else if isSTPBridgeGroupMAC (mac_at frame 0) then ''STP''
      else
        (let etherType = u16_at frame 12;
             tagged = (etherType = ETHERTYPE_VLAN \<and> length frame \<ge> VLAN_HEADER_SIZE);
             etherType = (if tagged then u16_at frame 16 else etherType);
             offset = (if tagged then VLAN_HEADER_SIZE else ETHERNET_HDR_SIZE)
         in if etherType = ETHERTYPE_ARP then ''ARP''
            else if etherType = ETHERTYPE_LLDP then ''LLDP''
            else if etherType = ETHERTYPE_IP then
              (if length frame \<le> offset + 9 then ''IP''
               else if frame ! (offset + 9) = PROTO_ICMP then ''ICMP''
               else if frame ! (offset + 9) = PROTO_RIP then ''RIP'' else ''IP'')
            else ''ETHERNET''))"

definition ipProtocolName :: "byte \<Rightarrow> string" where
  "ipProtocolName protocol =
     (if protocol = PROTO_ICMP then ''ICMP'' else if protocol = IPPROTO_IPIP then ''IPIP''
      else if protocol = PROTO_RIP then ''RIP'' else ''IP'')"

text \<open>
  \<open>send_frame\<close> with \<open>packetSize = len(packetBuffer)\<close>: True when the transport took the frame.  The
  transport is open; a frame for a link that is down is reported and refused.
\<close>

definition send_frame :: "env \<Rightarrow> Node \<Rightarrow> bytes \<Rightarrow> nat \<Rightarrow> bool \<times> eff list" where
  "send_frame env node pkt i =
     (if pkt = [] then (False, [])
      else case intf_of node i of
        None \<Rightarrow> (False, [])
      | Some intf \<Rightarrow>
          (if get_remote_interface (e_links env) (e_self env, i) intf = None then (False, [])
           else if \<not> IsUp (e_links env) (link intf)
           then (False, [Emit (frameProtocol pkt) ''frame_dropped'' ''link_down''])
           else (True, [Emit (frameProtocol pkt) ''frame_sent'' [], Send i pkt])))"

definition do_send :: "env \<Rightarrow> bytes \<Rightarrow> nat \<Rightarrow> Node \<Rightarrow> result" where
  "do_send env pkt i node = (node, snd (send_frame env node pkt i))"

text \<open>The frames a send hands over: the one given, on the slot given, or none.\<close>

lemma sends_send_frame: "set (sends (snd (send_frame env node pkt i))) \<subseteq> {(i, pkt)}"
  by (simp add: send_frame_def split: option.splits)

lemma send_frame_True: "fst (send_frame env node pkt i) \<longleftrightarrow> sends (snd (send_frame env node pkt i)) = [(i, pkt)]"
  by (simp add: send_frame_def split: option.splits)

lemma send_frame_link_up:
  "(j, f) \<in> set (sends (snd (send_frame env node pkt i))) \<Longrightarrow>
     j = i \<and> f = pkt \<and> (\<exists>intf. intf_of node i = Some intf \<and> IsUp (e_links env) (link intf))"
  by (auto simp: send_frame_def split: option.splits if_splits)

text \<open>\<open>send_pkt_flood\<close> of packet.go: every connected slot but the exempted one, errors skipped.\<close>

fun pkt_flood_loop :: "env \<Rightarrow> Node \<Rightarrow> nat option \<Rightarrow> bytes \<Rightarrow> nat \<Rightarrow> intf_array \<Rightarrow> nat \<times> eff list" where
  "pkt_flood_loop env node exempted pkt i [] = (0, [])"
| "pkt_flood_loop env node exempted pkt i (None # rest) = pkt_flood_loop env node exempted pkt (i + 1) rest"
| "pkt_flood_loop env node exempted pkt i (Some intf # rest) =
     (if exempted = Some i then pkt_flood_loop env node exempted pkt (i + 1) rest
      else if get_remote_interface (e_links env) (e_self env, i) intf = None
      then pkt_flood_loop env node exempted pkt (i + 1) rest
      else
        (let (ok, es) = send_frame env node pkt i;
             (n, es') = pkt_flood_loop env node exempted pkt (i + 1) rest
         in ((if ok then n + 1 else n), es @ es')))"

definition send_pkt_flood :: "env \<Rightarrow> Node \<Rightarrow> nat option \<Rightarrow> bytes \<Rightarrow> int \<times> eff list" where
  "send_pkt_flood env node exempted pkt =
     (if pkt = [] then (- 1, [])
      else (let (n, es) = pkt_flood_loop env node exempted pkt 0 (nd_intf node) in (int n, es)))"

lemma pkt_flood_loop_count:
  "pkt_flood_loop env node ex pkt i xs = (n, es) \<Longrightarrow>
     n = length (sends es) \<and> (\<forall>(j, f)\<in>set (sends es). f = pkt \<and> ex \<noteq> Some j \<and> i \<le> j)"
proof (induction env node ex pkt i xs arbitrary: n es rule: pkt_flood_loop.induct)
  case (3 env node ex pkt i intf rest)
  show ?case
  proof (cases "ex = Some i \<or> get_remote_interface (e_links env) (e_self env, i) intf = None")
    case True
    with 3(4) have r: "pkt_flood_loop env node ex pkt (i + 1) rest = (n, es)" by (auto split: if_splits)
    have "n = length (sends es) \<and> (\<forall>(j, f)\<in>set (sends es). f = pkt \<and> ex \<noteq> Some j \<and> i + 1 \<le> j)"
      using True 3(1,2) r by (cases "ex = Some i") auto
    then show ?thesis by auto
  next
    case False
    obtain ok es1 where s: "send_frame env node pkt i = (ok, es1)" by fastforce
    obtain n2 es2 where r: "pkt_flood_loop env node ex pkt (i + 1) rest = (n2, es2)" by fastforce
    have ih: "n2 = length (sends es2)" "\<forall>(j, f)\<in>set (sends es2). f = pkt \<and> ex \<noteq> Some j \<and> i + 1 \<le> j"
      using 3(3) False s r by auto
    have e: "n = (if ok then n2 + 1 else n2)" "es = es1 @ es2" using 3(4) False s r by auto
    have "set (sends es1) \<subseteq> {(i, pkt)}" using sends_send_frame [of env node pkt i] s by simp
    moreover have "ok \<Longrightarrow> sends es1 = [(i, pkt)]" using send_frame_True [of env node pkt i] s by simp
    moreover have "\<not> ok \<Longrightarrow> sends es1 = []"
      using s by (auto simp: send_frame_def split: option.splits if_splits)
    ultimately show ?thesis using ih e False by auto
  qed
qed auto

end
