(* ===== verification/Switching.thy ===== *)
theory Switching
  imports Node
begin

text \<open>
  The VLAN-aware switching core of \<open>src/src/l2_switch.go\<close>: address learning, flooding, forwarding,
  and the packets that leave the ARP queue through it.  Flooding and forwarding read the node and
  produce effects; only learning changes it.  The buffer handed to \<open>prepare_frame_for_interface\<close>
  is threaded through the flood loop, because tagging a tagged frame rewrites it in place.
\<close>

section \<open>Learning\<close>

definition l2_switch_perform_mac_learning_vlan :: "env \<Rightarrow> MacAddr \<Rightarrow> u16 \<Rightarrow> string \<Rightarrow> Node \<Rightarrow> result" where
  "l2_switch_perform_mac_learning_vlan env mac vlan_id iif_name node =
     (if is_mac_broadcast mac then (node, [])
      else
        (let (t, updated) = mac_table_add_or_update_vlan (nd_mac node) (e_now env) mac vlan_id iif_name in
         (node\<lparr>nd_mac := t\<rparr>, if updated then [Emit ''ETHERNET'' ''mac_table_updated'' []] else [])))"

section \<open>Flooding\<close>

definition port_can_forward :: "env \<Rightarrow> Node \<Rightarrow> Interface \<Rightarrow> bool" where
  "port_can_forward env node intf = stp_port_can_forward (e_links env) (nd_stp node) intf"

definition port_can_learn :: "env \<Rightarrow> Node \<Rightarrow> Interface \<Rightarrow> bool" where
  "port_can_learn env node intf = stp_port_can_learn (e_links env) (nd_stp node) intf"

fun flood_loop :: "env \<Rightarrow> Node \<Rightarrow> nat \<Rightarrow> u16 \<Rightarrow> bytes \<Rightarrow> nat \<Rightarrow> intf_array \<Rightarrow> nat \<times> eff list" where
  "flood_loop env node exempted vlan_id pkt i [] = (0, [])"
| "flood_loop env node exempted vlan_id pkt i (None # rest) = flood_loop env node exempted vlan_id pkt (i + 1) rest"
| "flood_loop env node exempted vlan_id pkt i (Some intf # rest) =
     (if i = exempted \<or> IS_INTF_L3_MODE intf \<or> \<not> port_can_forward env node intf \<or> \<not> IsVLANAllowed intf vlan_id
      then flood_loop env node exempted vlan_id pkt (i + 1) rest
      else case prepare_frame_for_interface intf pkt vlan_id of
        Inl _ \<Rightarrow> flood_loop env node exempted vlan_id pkt (i + 1) rest
      | Inr (out_pkt, pkt') \<Rightarrow>
          (let (ok, es) = send_frame env node out_pkt i;
               (n, es') = flood_loop env node exempted vlan_id pkt' (i + 1) rest
           in ((if ok then n + 1 else n), es @ es')))"

definition flood_reason :: "bytes \<Rightarrow> string" where
  "flood_reason pkt =
     (case parse_ethernet_frame_with_vlan pkt of
        Inl _ \<Rightarrow> []
      | Inr (hdr, _, _) \<Rightarrow>
          if is_mac_broadcast (dst_mac hdr) then ''broadcast_destination'' else ''unknown_destination_mac'')"

definition l2_switch_flood_frame_vlan :: "env \<Rightarrow> Node \<Rightarrow> nat \<Rightarrow> bytes \<Rightarrow> u16 \<Rightarrow> eff list" where
  "l2_switch_flood_frame_vlan env node exempted pkt vlan_id =
     (if pkt = [] then []
      else
        (let (sent_count, es) = flood_loop env node exempted vlan_id pkt 0 (nd_intf node)
         in Emit (frameProtocol pkt) ''frame_flooding_started'' (flood_reason pkt) # es @
            (if sent_count = 0 \<and> flood_reason pkt = ''broadcast_destination''
             then [Emit (frameProtocol pkt) ''frame_flooding_completed'' []]
             else if sent_count = 0 then [Emit (frameProtocol pkt) ''frame_dropped'' ''no_eligible_egress'']
             else [])))"

section \<open>Forwarding\<close>

definition l2_switch_forward_frame_vlan ::
  "env \<Rightarrow> Node \<Rightarrow> nat \<Rightarrow> bytes \<Rightarrow> u16 \<Rightarrow> bool \<Rightarrow> eff list" where
  "l2_switch_forward_frame_vlan env node recv pkt vlan_id routed =
     (if length pkt < ETHERNET_HDR_SIZE then []
      else case deserialize_ethernet_header pkt of
        Inl _ \<Rightarrow> []
      | Inr eth_hdr \<Rightarrow>
          if is_mac_broadcast (dst_mac eth_hdr) then l2_switch_flood_frame_vlan env node recv pkt vlan_id
          else
            (let oif_name = mac_table_lookup_vlan (nd_mac node) (dst_mac eth_hdr) vlan_id in
             if oif_name = [] then l2_switch_flood_frame_vlan env node recv pkt vlan_id
             else case get_node_if_by_name (nd_intf node) oif_name of
               None \<Rightarrow> []
             | Some i \<Rightarrow>
                 (case intf_of node i of
                    None \<Rightarrow> []
                  | Some oif \<Rightarrow>
                      if i = recv \<and> \<not> routed then [Emit (frameProtocol pkt) ''frame_dropped'' ''egress_matches_ingress'']
                      else if \<not> port_can_forward env node oif
                      then [Emit (frameProtocol pkt) ''frame_dropped'' ''stp_port_not_forwarding'']
                      else if \<not> IsVLANAllowed oif vlan_id
                      then [Emit (frameProtocol pkt) ''frame_dropped'' ''vlan_not_allowed'']
                      else case prepare_frame_for_interface oif pkt vlan_id of
                        Inl _ \<Rightarrow> []
                      | Inr (out_pkt, _) \<Rightarrow>
                          Emit (frameProtocol out_pkt) ''frame_forwarding_started'' []
                            # snd (send_frame env node out_pkt i))))"

section \<open>Frames on their VLAN\<close>

text \<open>
  How a VLAN appears on a switch port: untagged on an access port of the VLAN and on the trunk it
  is native to, tagged on any other trunk that carries it.
\<close>

definition on_vlan :: "Interface \<Rightarrow> u16 \<Rightarrow> bytes \<Rightarrow> bool" where
  "on_vlan intf vlan f \<longleftrightarrow>
     (if GetVLANMode intf = INTF_MODE_TRUNK \<and> vlan \<noteq> GetNativeVLAN intf
      then is_frame_vlan_tagged f \<and> get_frame_vlan_id f = vlan
      else \<not> is_frame_vlan_tagged f)"

text \<open>A frame with at most one 802.1Q tag, long enough to carry it.\<close>

definition plain_frame :: "bytes \<Rightarrow> bool" where
  "plain_frame pkt \<longleftrightarrow> length pkt \<ge> 14 \<and> (is_frame_vlan_tagged pkt \<longrightarrow> length pkt \<ge> 18)
     \<and> \<not> is_frame_vlan_tagged (untagged_view pkt)"

lemma switch_port_modes:
  "wf_intf intf \<Longrightarrow> \<not> IS_INTF_L3_MODE intf \<Longrightarrow>
     GetVLANMode intf = INTF_MODE_ACCESS \<or> GetVLANMode intf = INTF_MODE_TRUNK"
  by (cases "GetVLANMode intf") (auto simp: wf_intf_def IS_INTF_L3_MODE_def GetVLANMode_def Let_def)

lemma IsVLANAllowed_range:
  assumes "wf_intf intf" "\<not> IS_INTF_L3_MODE intf" "IsVLANAllowed intf v" shows "v \<le> VLAN_MAX"
proof -
  have "vlan_in_range v"
    using assms by (auto simp: IsVLANAllowed_def wf_intf_def Let_def trunk_vlans_def list_ex_iff list_all_iff
        split: if_splits)
  then show ?thesis by (simp add: vlan_in_range_def not_less)
qed

text \<open>Preparing keeps the frame's contents, and puts it on the VLAN of the port.\<close>

lemma add_vlan_tag_buffer:
  assumes "add_vlan_tag pkt v p d = Inr (out, buf)" "v \<le> VLAN_MAX" "plain_frame pkt"
  shows "plain_frame buf \<and> untagged_view buf = untagged_view pkt"
proof (cases "is_frame_vlan_tagged pkt")
  case True
  then have "buf = out" using assms(1) by (auto simp: add_vlan_tag_def is_frame_vlan_tagged_def Let_def split: if_splits)
  with add_vlan_tag_tagged [OF assms(1,2)] assms(3) True show ?thesis by (auto simp: plain_frame_def)
next
  case False
  then have "buf = pkt" using assms(1) by (auto simp: add_vlan_tag_def is_frame_vlan_tagged_def Let_def split: if_splits)
  with assms(3) show ?thesis by simp
qed

lemma prepare_on_vlan:
  assumes "prepare_frame_for_interface intf pkt v = Inr (out, buf)" "wf_intf intf" "\<not> IS_INTF_L3_MODE intf"
    "IsVLANAllowed intf v" "plain_frame pkt"
  shows "on_vlan intf v out" "untagged_view out = untagged_view pkt"
    "plain_frame buf" "untagged_view buf = untagged_view pkt"
proof -
  have pf: "length pkt \<ge> 14" "is_frame_vlan_tagged pkt \<longrightarrow> length pkt \<ge> 18" "\<not> is_frame_vlan_tagged (untagged_view pkt)"
    using assms(5) by (simp_all add: plain_frame_def)
  have v: "v \<le> VLAN_MAX" by (rule IsVLANAllowed_range [OF assms(2-4)])
  have uv: "untagged_view (untagged_view pkt) = untagged_view pkt"
    using pf(3) by (simp add: untagged_view_def)
  consider (strip) "remove_vlan_tag pkt = Inr out" "buf = pkt"
      "\<not> (GetVLANMode intf = INTF_MODE_TRUNK \<and> v \<noteq> GetNativeVLAN intf)"
    | (tag) "add_vlan_tag pkt v 0 0 = Inr (out, buf)" "GetVLANMode intf = INTF_MODE_TRUNK" "v \<noteq> GetNativeVLAN intf"
    using assms(1,3) switch_port_modes [OF assms(2,3)]
    by (cases "remove_vlan_tag pkt") (auto simp: prepare_frame_for_interface_def split: if_splits)
  then have "on_vlan intf v out \<and> untagged_view out = untagged_view pkt \<and> plain_frame buf \<and>
      untagged_view buf = untagged_view pkt"
  proof cases
    case strip
    from remove_vlan_tag_view [OF strip(1)] strip assms(5) pf(3) uv show ?thesis by (auto simp: on_vlan_def)
  next
    case tag
    from add_vlan_tag_tagged [OF tag(1) v pf(1,2)] add_vlan_tag_buffer [OF tag(1) v assms(5)] tag
    show ?thesis by (simp add: on_vlan_def)
  qed
  then show "on_vlan intf v out" "untagged_view out = untagged_view pkt"
    "plain_frame buf" "untagged_view buf = untagged_view pkt" by simp_all
qed

text \<open>The ports a frame of a VLAN may leave through.\<close>

definition eligible :: "env \<Rightarrow> Node \<Rightarrow> u16 \<Rightarrow> Interface \<Rightarrow> bool" where
  "eligible env node vlan_id intf \<longleftrightarrow>
     \<not> IS_INTF_L3_MODE intf \<and> port_can_forward env node intf \<and> IsVLANAllowed intf vlan_id"

definition egress_ok :: "env \<Rightarrow> Node \<Rightarrow> u16 \<Rightarrow> bytes \<Rightarrow> nat \<times> bytes \<Rightarrow> bool" where
  "egress_ok env node vlan_id pkt x \<longleftrightarrow>
     (\<exists>intf. intf_of node (fst x) = Some intf \<and> eligible env node vlan_id intf \<and>
        on_vlan intf vlan_id (snd x) \<and> untagged_view (snd x) = untagged_view pkt)"

definition wf_node_intfs :: "Node \<Rightarrow> bool" where
  "wf_node_intfs node \<longleftrightarrow> (\<forall>intf. Some intf \<in> set (nd_intf node) \<longrightarrow> wf_intf intf)"

lemma intf_of_wf: "wf_node_intfs node \<Longrightarrow> intf_of node i = Some intf \<Longrightarrow> wf_intf intf"
  by (auto simp: wf_node_intfs_def intf_of_def intf_at_def split: if_splits) (metis nth_mem)

lemma flood_loop_egress:
  assumes "flood_loop env node ex v pkt i xs = (n, es)" "drop i (nd_intf node) = xs"
    "wf_node_intfs node" "plain_frame pkt"
  shows "n = length (sends es) \<and> distinct (map fst (sends es)) \<and>
    (\<forall>x\<in>set (sends es). egress_ok env node v pkt x \<and> fst x \<noteq> ex \<and> i \<le> fst x)"
  using assms
proof (induction env node ex v pkt i xs arbitrary: n es rule: flood_loop.induct)
  case (2 env node ex v pkt i rest)
  have "drop (i + 1) (nd_intf node) = rest" using 2(3) by (metis drop_Suc tl_drop Suc_eq_plus1 list.sel(3))
  from 2(1) [OF _ this 2(4,5)] 2(2) show ?case by fastforce
next
  case (3 env node ex v pkt i intf rest)
  have len: "i < length (nd_intf node)" "nd_intf node ! i = Some intf"
    using 3(5) by (metis drop_eq_Nil list.distinct(1) not_le, metis nth_via_drop)
  then have iof: "intf_of node i = Some intf" by (simp add: intf_of_def intf_at_def)
  have rest: "drop (i + 1) (nd_intf node) = rest" using 3(5) by (metis drop_Suc tl_drop Suc_eq_plus1 list.sel(3))
  have wf: "wf_intf intf" by (rule intf_of_wf [OF 3(6) iof])
  let ?skip = "i = ex \<or> IS_INTF_L3_MODE intf \<or> \<not> port_can_forward env node intf \<or> \<not> IsVLANAllowed intf v"
  show ?case
  proof (cases ?skip)
    case True
    from 3(1) [OF True _ rest 3(6,7)] 3(4) True show ?thesis by fastforce
  next
    case ns: False
    show ?thesis
    proof (cases "prepare_frame_for_interface intf pkt v")
      case (Inl e)
      from 3(2) [OF ns Inl _ rest 3(6,7)] 3(4) ns Inl show ?thesis by fastforce
    next
      case (Inr ob)
      obtain out buf where ob: "ob = (out, buf)" by fastforce
      have p: "on_vlan intf v out" "untagged_view out = untagged_view pkt" "plain_frame buf"
        "untagged_view buf = untagged_view pkt"
        using prepare_on_vlan [OF Inr [unfolded ob] wf _ _ 3(7)] ns by auto
      obtain ok es1 where s: "send_frame env node out i = (ok, es1)" by fastforce
      obtain n2 es2 where r: "flood_loop env node ex v buf (i + 1) rest = (n2, es2)" by fastforce
      have ih: "n2 = length (sends es2) \<and> distinct (map fst (sends es2)) \<and>
          (\<forall>x\<in>set (sends es2). egress_ok env node v buf x \<and> fst x \<noteq> ex \<and> i + 1 \<le> fst x)"
        using 3(3) [OF ns Inr ob [symmetric] s [symmetric] refl r rest 3(6) p(3)] .
      have e: "n = (if ok then n2 + 1 else n2)" "es = es1 @ es2" using 3(4) ns Inr ob s r by auto
      have "sends es1 = (if ok then [(i, out)] else [])"
        using s by (auto simp: send_frame_def split: option.splits if_splits)
      moreover have "egress_ok env node v pkt (i, out)"
        using iof ns p(1,2) by (simp add: egress_ok_def eligible_def)
      moreover have "egress_ok env node v buf x = egress_ok env node v pkt x" for x
        by (simp add: egress_ok_def p(4))
      ultimately show ?thesis using ih e ns by (auto simp: Suc_le_eq)
    qed
  qed
qed auto

lemma flood_egress:
  assumes "wf_node_intfs node" "plain_frame pkt"
  shows "distinct (map fst (sends (l2_switch_flood_frame_vlan env node ex pkt v))) \<and>
    (\<forall>x\<in>set (sends (l2_switch_flood_frame_vlan env node ex pkt v)). egress_ok env node v pkt x \<and> fst x \<noteq> ex)"
proof -
  obtain n es where f: "flood_loop env node ex v pkt 0 (nd_intf node) = (n, es)" by fastforce
  from flood_loop_egress [OF f _ assms] show ?thesis
    using f by (auto simp: l2_switch_flood_frame_vlan_def)
qed


lemma get_node_if_by_name_intf_of:
  "get_node_if_by_name (nd_intf node) n = Some i \<Longrightarrow> \<exists>intf. intf_of node i = Some intf"
  by (auto simp: intf_of_def dest: get_node_if_by_name_Some)

text \<open>A forwarded frame is flooded, or goes once out of the port the table names.\<close>

lemma forward_cases:
  obtains (flood) "sends (l2_switch_forward_frame_vlan env node recv pkt v routed) =
      sends (l2_switch_flood_frame_vlan env node recv pkt v)"
    | (none) "sends (l2_switch_forward_frame_vlan env node recv pkt v routed) = []"
    | (unicast) hdr i oif out buf where "deserialize_ethernet_header pkt = Inr hdr"
      "mac_table_lookup_vlan (nd_mac node) (dst_mac hdr) v \<noteq> []"
      "get_node_if_by_name (nd_intf node) (mac_table_lookup_vlan (nd_mac node) (dst_mac hdr) v) = Some i"
      "intf_of node i = Some oif" "i = recv \<longrightarrow> routed" "port_can_forward env node oif" "IsVLANAllowed oif v"
      "prepare_frame_for_interface oif pkt v = Inr (out, buf)"
      "sends (l2_switch_forward_frame_vlan env node recv pkt v routed) = sends (snd (send_frame env node out i))"
proof (cases "length pkt < ETHERNET_HDR_SIZE")
  case True
  then show ?thesis using none by (simp add: l2_switch_forward_frame_vlan_def)
next
  case len: False
  show ?thesis
  proof (cases "deserialize_ethernet_header pkt")
    case (Inl e)
    then show ?thesis using none by (simp add: l2_switch_forward_frame_vlan_def)
  next
    case (Inr hdr)
    let ?name = "mac_table_lookup_vlan (nd_mac node) (dst_mac hdr) v"
    note d = l2_switch_forward_frame_vlan_def
    show ?thesis
    proof (cases "is_mac_broadcast (dst_mac hdr) \<or> ?name = []")
      case True
      then show ?thesis using flood len Inr by (auto simp: d Let_def)
    next
      case uni: False
      show ?thesis
      proof (cases "get_node_if_by_name (nd_intf node) ?name")
        case None
        then show ?thesis using none uni Inr by (simp add: d Let_def)
      next
        case (Some i)
        obtain oif where oif: "intf_of node i = Some oif"
          using get_node_if_by_name_intf_of [OF Some] by blast
        show ?thesis
        proof (cases "(i = recv \<longrightarrow> routed) \<and> port_can_forward env node oif \<and> IsVLANAllowed oif v")
          case False
          then show ?thesis using none uni Inr Some oif by (auto simp: d Let_def)
        next
          case pass: True
          show ?thesis
          proof (cases "prepare_frame_for_interface oif pkt v")
            case (Inl e)
            then show ?thesis using none uni Inr Some oif pass by (simp add: d Let_def)
          next
            case prep: (Inr ob)
            obtain out buf where ob: "ob = (out, buf)" by fastforce
            have "sends (l2_switch_forward_frame_vlan env node recv pkt v routed) =
                sends (snd (send_frame env node out i))"
              using uni Inr Some oif pass prep ob len by (auto simp: d Let_def)
            then show ?thesis using unicast [OF Inr _ Some oif _ _ _ prep [unfolded ob]] uni pass by blast
          qed
        qed
      qed
    qed
  qed
qed

text \<open>
  Every learned name belongs to a switch port.  Reception learns on switch ports only, but
  \<open>SetInterfaceL3Mode\<close> does not flush the table, so this is a hypothesis about the configuration.
\<close>

definition fdb_on_switch_ports :: "Node \<Rightarrow> bool" where
  "fdb_on_switch_ports node \<longleftrightarrow>
     (\<forall>e\<in>set (nd_mac node). \<forall>i intf. get_node_if_by_name (nd_intf node) (me_name e) = Some i \<longrightarrow>
        intf_of node i = Some intf \<longrightarrow> \<not> IS_INTF_L3_MODE intf)"

lemma lookup_names_entry:
  "mac_table_lookup_vlan t mac v \<noteq> [] \<Longrightarrow> \<exists>e\<in>set t. me_name e = mac_table_lookup_vlan t mac v"
  by (induction t) auto

lemma forward_egress:
  assumes "wf_node_intfs node" "plain_frame pkt" "fdb_on_switch_ports node"
  shows "distinct (map fst (sends (l2_switch_forward_frame_vlan env node recv pkt v routed))) \<and>
    (\<forall>x\<in>set (sends (l2_switch_forward_frame_vlan env node recv pkt v routed)).
       egress_ok env node v pkt x \<and> (\<not> routed \<longrightarrow> fst x \<noteq> recv))"
proof (cases rule: forward_cases [of env node recv pkt v routed])
  case flood
  then show ?thesis using flood_egress [OF assms(1,2), of env recv v] by simp
next
  case (unicast hdr i oif out buf)
  have "\<not> IS_INTF_L3_MODE oif"
    using assms(3) lookup_names_entry [OF unicast(2)] unicast(3,4) unfolding fdb_on_switch_ports_def by metis
  with prepare_on_vlan [OF unicast(8) intf_of_wf [OF assms(1) unicast(4)] _ unicast(7) assms(2)] unicast(4,6,7)
  have "egress_ok env node v pkt (i, out)" by (simp add: egress_ok_def eligible_def)
  moreover have "distinct (map fst (sends (snd (send_frame env node out i))))"
    by (simp add: send_frame_def split: option.splits)
  ultimately show ?thesis unfolding unicast(9) using sends_send_frame [of env node out i] unicast(5) by auto
qed simp

section \<open>Queued packets\<close>

text \<open>
  \<open>pending.callback\<close> on the interface the answer came in on.  A failure callback reports the drop;
  the retry callbacks are run by the maintenance of \<open>Arp\<close>.
\<close>

definition run_callback :: "env \<Rightarrow> Node \<Rightarrow> arp_cb \<Rightarrow> nat \<Rightarrow> bytes \<Rightarrow> eff list" where
  "run_callback env node cb iface packet =
     (case cb of
        SendResolved nextHop \<Rightarrow>
          (if length packet < ETHERNET_HDR_SIZE then []
           else case arp_table_lookup (nd_arp node) nextHop of
             None \<Rightarrow> []
           | Some mac \<Rightarrow>
               Emit ''ARP'' ''arp_entry_selected'' [] #
               snd (send_frame env node (mac_bytes mac @ drop 6 packet) iface))
      | ForwardRouted iif dest_vlan nextHop \<Rightarrow>
          (if length packet < ETHERNET_HDR_SIZE then []
           else case arp_table_lookup (nd_arp node) nextHop of
             None \<Rightarrow> []
           | Some mac \<Rightarrow>
               (let packet1 = mac_bytes mac @ drop 6 packet;
                    packet2 = (case intf_of node iface of
                                 None \<Rightarrow> packet1
                               | Some intf \<Rightarrow> take 6 packet1 @ mac_bytes (GetMac intf) @ drop 12 packet1)
                in l2_switch_forward_frame_vlan env node iif packet2 dest_vlan True))
      | _ \<Rightarrow> [])"

definition run_failure :: "arp_cb \<Rightarrow> eff list" where
  "run_failure cb =
     (case cb of
        DropUnresolved _ _ frame \<Rightarrow> [Emit (frameProtocol frame) ''frame_dropped'' ''arp_resolution_timeout'']
      | DropRouted _ _ frame \<Rightarrow> [Emit (frameProtocol frame) ''frame_dropped'' ''arp_resolution_timeout'']
      | _ \<Rightarrow> [])"

definition process_arp_pending_entry :: "env \<Rightarrow> Node \<Rightarrow> nat \<Rightarrow> arp_cb arp_pending_entry \<Rightarrow> eff list" where
  "process_arp_pending_entry env node oif pending =
     (case pe_callback pending of None \<Rightarrow> [] | Some cb \<Rightarrow> run_callback env node cb oif (pe_pkt pending))"

end
