(* ===== verification/ArpProofs.thy ===== *)
theory ArpProofs
  imports ArpTable "HOL-Library.Multiset"
begin

text \<open>
  Properties of the ARP table of \<open>ArpTable\<close>: one entry per address, at most three requests per
  resolution, every queued packet released or failed exactly once, and an upper bound on how long
  it may wait.
\<close>

section \<open>The invariant\<close>

definition arp_entry_ok :: "'c arp_entry \<Rightarrow> bool" where
  "arp_entry_ok e \<longleftrightarrow>
     (if ae_is_sane e
      then ae_pending_list e \<noteq> [] \<and> 1 \<le> ae_requests e \<and> ae_requests e \<le> ARP_REQUEST_MAX_ATTEMPTS
      else ae_pending_list e = [])"

definition arp_inv :: "'c arp_table \<Rightarrow> bool" where
  "arp_inv t \<longleftrightarrow> distinct (map ae_ip_addr t) \<and> (\<forall>e\<in>set t. arp_entry_ok e)"

lemma arp_inv_Nil [simp]: "arp_inv []"
  by (simp add: arp_inv_def)

lemma arp_inv_Cons:
  "arp_inv (e # t) \<longleftrightarrow> ae_ip_addr e \<notin> ae_ip_addr ` set t \<and> arp_entry_ok e \<and> arp_inv t"
  by (auto simp: arp_inv_def)

lemma arp_entry_ok_complete [simp]: "arp_entry_ok (complete_entry ip mac n now)"
  by (simp add: arp_entry_ok_def complete_entry_def)

lemma arp_entry_ok_incomplete [simp]: "arp_entry_ok (incomplete_entry ip n now p r)"
  by (simp add: arp_entry_ok_def incomplete_entry_def ARP_REQUEST_MAX_ATTEMPTS_def)

lemma entry_ips [simp]:
  "ae_ip_addr (complete_entry ip mac n now) = ip"
  "ae_ip_addr (incomplete_entry ip n now p r) = ip"
  by (simp_all add: complete_entry_def incomplete_entry_def)

lemma arp_entry_ok_queued:
  "arp_entry_ok e \<Longrightarrow> ae_is_sane e \<Longrightarrow> arp_entry_ok (e\<lparr>ae_pending_list := p # ps, ae_retry := r\<rparr>)"
  by (simp add: arp_entry_ok_def)

lemma arp_entry_ok_answered:
  "arp_entry_ok (e\<lparr>ae_mac_addr := mac, ae_is_sane := False, ae_updated_at := now, ae_oif_name := n,
     ae_pending_list := [], ae_retry := None\<rparr>)"
  by (simp add: arp_entry_ok_def)

text \<open>The scans: what they say about membership, addresses and the other entries.\<close>

lemma resolve_scan_None: "resolve_scan t ip p r = None \<longleftrightarrow> ip \<notin> ae_ip_addr ` set t"
  by (induction t) auto

lemma resolve_scan_ips:
  "resolve_scan t ip p r = Some (t', x) \<Longrightarrow> map ae_ip_addr t' = map ae_ip_addr t"
  by (induction t arbitrary: t' x) (auto split: if_splits)

lemma resolve_scan_ok:
  "resolve_scan t ip p r = Some (t', x) \<Longrightarrow> \<forall>e\<in>set t. arp_entry_ok e \<Longrightarrow> \<forall>e\<in>set t'. arp_entry_ok e"
proof (induction t arbitrary: t' x)
  case (Cons e t)
  then show ?case
    by (cases "ae_ip_addr e = ip"; cases "ae_is_sane e") (auto simp: arp_entry_ok_queued)
qed simp

lemma learn_scan_None: "learn_scan t now ip mac n = None \<longleftrightarrow> ip \<notin> ae_ip_addr ` set t"
  by (induction t) auto

lemma learn_scan_ips:
  "learn_scan t now ip mac n = Some (t', ps) \<Longrightarrow> map ae_ip_addr t' = map ae_ip_addr t"
  by (induction t arbitrary: t' ps) (auto split: if_splits)

lemma learn_scan_ok:
  "learn_scan t now ip mac n = Some (t', ps) \<Longrightarrow> \<forall>e\<in>set t. arp_entry_ok e \<Longrightarrow> \<forall>e\<in>set t'. arp_entry_ok e"
proof (induction t arbitrary: t' ps)
  case (Cons e t)
  then show ?case by (cases "ae_ip_addr e = ip") (auto simp: arp_entry_ok_answered)
qed simp

lemma arp_inv_scan:
  "arp_inv t \<Longrightarrow> map ae_ip_addr t' = map ae_ip_addr t \<Longrightarrow> \<forall>e\<in>set t'. arp_entry_ok e \<Longrightarrow> arp_inv t'"
  by (simp add: arp_inv_def)

lemma arp_inv_oks: "arp_inv t \<Longrightarrow> \<forall>e\<in>set t. arp_entry_ok e"
  by (simp add: arp_inv_def)

lemma arp_inv_resolve:
  assumes "arp_inv t" shows "arp_inv (fst (arp_table_resolve_or_queue t now ip n pkt k cb fcb r))"
proof (cases "resolve_scan t ip (mk_pending pkt k cb fcb) r")
  case None
  then have "ip \<notin> ae_ip_addr ` set t" by (simp add: resolve_scan_None)
  with assms None show ?thesis
    by (simp add: arp_table_resolve_or_queue_def Let_def arp_inv_Cons)
next
  case (Some tx)
  obtain t' x where tx: "tx = (t', x)" by fastforce
  have "arp_inv t'"
    by (rule arp_inv_scan [OF assms resolve_scan_ips resolve_scan_ok [OF _ arp_inv_oks [OF assms]]])
       (use Some tx in simp_all)
  with assms Some tx show ?thesis by (simp add: arp_table_resolve_or_queue_def Let_def)
qed

lemma arp_inv_learn: 
  assumes "arp_inv t" shows "arp_inv (fst (arp_table_learn t now n ip mac ex))"
proof (cases "learn_scan t now ip mac n")
  case None
  then have "ip \<notin> ae_ip_addr ` set t" by (simp add: learn_scan_None)
  with assms None show ?thesis by (simp add: arp_table_learn_def arp_inv_Cons)
next
  case (Some tx)
  obtain t' x where tx: "tx = (t', x)" by fastforce
  have "arp_inv t'"
    by (rule arp_inv_scan [OF assms learn_scan_ips learn_scan_ok [OF _ arp_inv_oks [OF assms]]])
       (use Some tx in simp_all)
  with assms Some tx show ?thesis by (simp add: arp_table_learn_def)
qed

lemma arp_inv_add: "arp_inv t \<Longrightarrow> arp_inv (fst (arp_table_add_entry t now ip mac n))"
  unfolding arp_table_add_entry_def by (simp add: arp_inv_Cons list_ex_iff image_iff) blast

lemma delete_entry_set: "arp_table_delete_entry t ip = (t', b) \<Longrightarrow> set t' \<subseteq> set t"
  by (induction t arbitrary: t' b) (auto split: if_splits prod.splits)

lemma arp_inv_delete: "arp_inv t \<Longrightarrow> arp_inv (fst (arp_table_delete_entry t ip))"
proof (induction t)
  case (Cons e t)
  obtain t' b where "arp_table_delete_entry t ip = (t', b)" by fastforce
  with Cons delete_entry_set [OF this] show ?case by (auto simp: arp_inv_Cons)
qed simp

lemma cleanup_filter:
  "arp_table_cleanup_expired t now =
     (filter (\<lambda>e. ae_is_sane e \<or> now - ae_updated_at e \<le> ARP_ENTRY_TIMEOUT) t,
      length (filter (\<lambda>e. \<not> ae_is_sane e \<and> now - ae_updated_at e > ARP_ENTRY_TIMEOUT) t))"
  by (induction t) auto

lemma arp_inv_cleanup: "arp_inv t \<Longrightarrow> arp_inv (fst (arp_table_cleanup_expired t now))"
  by (auto simp: cleanup_filter arp_inv_def distinct_map_filter)

section \<open>The collection of due actions\<close>

text \<open>What the maintenance pass does to one entry.\<close>

definition arp_expired :: "int \<Rightarrow> 'c arp_entry \<Rightarrow> bool" where
  "arp_expired now e \<longleftrightarrow> ae_is_sane e \<and> now - ae_created_at e \<ge> ARP_PENDING_TIMEOUT"

definition retry_due :: "int \<Rightarrow> 'c arp_entry \<Rightarrow> bool" where
  "retry_due now e \<longleftrightarrow> ae_is_sane e \<and> \<not> arp_expired now e \<and> ae_requests e < ARP_REQUEST_MAX_ATTEMPTS
     \<and> now - ae_updated_at e \<ge> ARP_REQUEST_RETRY_INTERVAL"

definition retried :: "int \<Rightarrow> 'c arp_entry \<Rightarrow> 'c arp_entry" where
  "retried now e = (if retry_due now e then e\<lparr>ae_requests := ae_requests e + 1, ae_updated_at := now\<rparr> else e)"

lemma collect_spec:
  "collect_arp_pending_actions t now =
     (map (retried now) (filter (\<lambda>e. \<not> arp_expired now e) t),
      map (\<lambda>e. retry_of (retried now e)) (filter (retry_due now) t),
      map failure_of (filter (arp_expired now) t))"
  by (induction t) (auto simp: arp_expired_def retry_due_def retried_def Let_def)

lemma retried_keep [simp]:
  "ae_ip_addr (retried now e) = ae_ip_addr e" "ae_pending_list (retried now e) = ae_pending_list e"
  "ae_is_sane (retried now e) = ae_is_sane e" "ae_created_at (retried now e) = ae_created_at e"
  "ae_retry (retried now e) = ae_retry e"
  by (simp_all add: retried_def)

lemma arp_inv_collect: "arp_inv t \<Longrightarrow> arp_inv (fst (collect_arp_pending_actions t now))"
proof -
  assume inv: "arp_inv t"
  have ips: "map ae_ip_addr (map (retried now) (filter (\<lambda>e. \<not> arp_expired now e) t)) =
      map ae_ip_addr (filter (\<lambda>e. \<not> arp_expired now e) t)" by simp
  have "arp_entry_ok (retried now e)" if "arp_entry_ok e" for e :: "'a arp_entry"
    using that by (auto simp: arp_entry_ok_def retried_def retry_due_def)
  with inv show ?thesis unfolding arp_inv_def collect_spec fst_conv ips
    by (auto simp: distinct_map_filter)
qed

text \<open>No incomplete entry survives its third second, and no retry exceeds the third request.\<close>

lemma collect_timeout:
  "e \<in> set (fst (collect_arp_pending_actions t now)) \<Longrightarrow> ae_is_sane e \<Longrightarrow>
     now - ae_created_at e < ARP_PENDING_TIMEOUT"
  by (auto simp: collect_spec arp_expired_def)

lemma collect_attempts:
  assumes "arp_inv t" "a \<in> set (fst (snd (collect_arp_pending_actions t now)))"
  shows "2 \<le> ra_attempt a" "ra_attempt a \<le> ARP_REQUEST_MAX_ATTEMPTS"
  using assms by (auto simp: collect_spec retry_of_def retried_def retry_due_def arp_inv_def arp_entry_ok_def)

section \<open>Conservation of queued packets\<close>

definition queued :: "'c arp_table \<Rightarrow> 'c arp_pending_entry multiset" where
  "queued t = \<Sum>\<^sub># (image_mset (\<lambda>e. mset (ae_pending_list e)) (mset t))"

lemma queued_simps [simp]:
  "queued [] = {#}" "queued (e # t) = mset (ae_pending_list e) + queued t"
  by (simp_all add: queued_def)

text \<open>The packet an accepted call leaves in the table.\<close>

lemma resolve_scan_queued:
  "resolve_scan t ip p r = Some (t', x) \<Longrightarrow>
     queued t' = queued t + (case x of Queued _ \<Rightarrow> {#p#} | _ \<Rightarrow> {#})"
  by (induction t arbitrary: t' x) (auto split: if_splits)

lemma resolve_queued:
  "arp_table_resolve_or_queue t now ip n pkt k cb fcb r = (t', x) \<Longrightarrow>
     queued t' = queued t + (case x of Queued _ \<Rightarrow> {#mk_pending pkt k cb fcb#} | _ \<Rightarrow> {#})"
  by (auto simp: arp_table_resolve_or_queue_def Let_def incomplete_entry_def
      dest: resolve_scan_queued split: if_splits option.splits)

lemma learn_scan_queued:
  "learn_scan t now ip mac n = Some (t', ps) \<Longrightarrow> queued t = queued t' + mset ps"
  by (induction t arbitrary: t' ps) (auto split: if_splits)

lemma learn_queued:
  "arp_table_learn t now n ip mac ex = (t', ps, cs) \<Longrightarrow> queued t = queued t' + mset ps"
  by (auto simp: arp_table_learn_def complete_entry_def dest: learn_scan_queued split: option.splits if_splits)

lemma collect_queued:
  "collect_arp_pending_actions t now = (t', rs, fs) \<Longrightarrow>
     queued t = queued t' + queued (filter (arp_expired now) t)"
  by (induction t arbitrary: t' rs fs) (auto simp: collect_spec)

lemma failures_count:
  "fs = map failure_of es \<Longrightarrow> sum_list (map fa_pending_count fs) = size (queued es)"
  by (induction es arbitrary: fs) (simp_all add: failure_of_def)

lemma cleanup_queued:
  "arp_inv t \<Longrightarrow> queued (fst (arp_table_cleanup_expired t now)) = queued t"
  by (induction t) (auto simp: cleanup_filter arp_inv_Cons arp_entry_ok_def)

section \<open>Lookup after an answer\<close>

lemma lookup_learn_scan:
  "learn_scan t now ip mac n = Some (t', ps) \<Longrightarrow>
     arp_table_lookup t' ip' = (if ip' = ip then Some mac else arp_table_lookup t ip')"
  by (induction t arbitrary: t' ps) (auto split: if_splits)

lemma lookup_learn:
  "arp_table_learn t now n ip mac False = (t', ps, cs) \<Longrightarrow>
     arp_table_lookup t' ip' = (if ip' = ip then Some mac else arp_table_lookup t ip')"
  by (auto simp: arp_table_learn_def complete_entry_def lookup_learn_scan split: option.splits)

lemma learn_scan_pending:
  "learn_scan t now ip mac n = Some (t', ps) \<Longrightarrow>
     \<exists>e\<in>set t. ae_ip_addr e = ip \<and> ae_pending_list e = ps"
  by (induction t arbitrary: t' ps) (auto split: if_splits)

text \<open>A resolved address has no packets left behind.\<close>

lemma learn_scan_emptied:
  "learn_scan t now ip mac n = Some (t', ps) \<Longrightarrow> distinct (map ae_ip_addr t) \<Longrightarrow> e \<in> set t' \<Longrightarrow>
     ae_ip_addr e = ip \<Longrightarrow> ae_pending_list e = []"
proof (induction t arbitrary: t' ps)
  case (Cons x t)
  show ?case
  proof (cases "ae_ip_addr x = ip")
    case True
    then have "e = hd t'" if "e \<notin> set t" using Cons.prems that by auto
    moreover have "e \<notin> set t" using True Cons.prems(2,4) imageI [of e "set t" ae_ip_addr] by auto
    ultimately show ?thesis using True Cons.prems(1) by auto
  next
    case False
    with Cons show ?thesis by auto
  qed
qed simp

lemma learned_nothing_waits:
  "arp_inv t \<Longrightarrow> arp_table_learn t now n ip mac ex = (t', ps, cs) \<Longrightarrow> e \<in> set t' \<Longrightarrow>
     ae_ip_addr e = ip \<Longrightarrow> ae_pending_list e = []"
proof -
  assume inv: "arp_inv t" and l: "arp_table_learn t now n ip mac ex = (t', ps, cs)"
    and e: "e \<in> set t'" "ae_ip_addr e = ip"
  show ?thesis
  proof (cases "learn_scan t now ip mac n")
    case None
    then have no: "ip \<notin> ae_ip_addr ` set t" by (simp add: learn_scan_None)
    have "e = complete_entry ip mac n now"
      using l None e no by (auto simp: arp_table_learn_def split: if_splits)
    then show ?thesis by (simp add: complete_entry_def)
  next
    case (Some r)
    with l have t': "learn_scan t now ip mac n = Some (t', ps)"
      by (cases r) (simp add: arp_table_learn_def)
    show ?thesis by (rule learn_scan_emptied [OF t' _ e]) (use inv in \<open>simp add: arp_inv_def\<close>)
  qed
qed

end
