(* ===== verification/Arp.thy ===== *)
theory Arp
  imports Switching ArpProofs
begin

text \<open>
  The ARP protocol of \<open>src/src/l2_arp.go\<close> and \<open>src/src/l2_ethernet.go\<close> on a node: requests, replies,
  the merge step that releases waiting packets, the maintenance timer, and \<open>DemotePacketToLayer2\<close>,
  which hands an IP packet to the wire or to the ARP queue.
\<close>

section \<open>Frames\<close>

text \<open>A payload in a fresh Ethernet header, as every sender builds it.\<close>

definition ethernet_frame :: "MacAddr \<Rightarrow> MacAddr \<Rightarrow> u16 \<Rightarrow> bytes \<Rightarrow> bytes option" where
  "ethernet_frame dst src etype pkt =
     map_option (\<lambda>fr. serialize_ethernet_frame (fr\<lparr>fr_header := \<lparr>dst_mac = dst, src_mac = src, ethertype = etype\<rparr>\<rparr>))
       (tag_packet_with_ethernet_hdr pkt (length pkt))"

definition arp_packet :: "u16 \<Rightarrow> MacAddr \<Rightarrow> u32 \<Rightarrow> MacAddr \<Rightarrow> u32 \<Rightarrow> arp_hdr_t" where
  "arp_packet op smac sip dmac dip =
     \<lparr>ah_hw_type = ARP_HW_TYPE_ETHERNET, ah_proto_type = ARP_PROTO_TYPE_IP, ah_hw_addr_len = ARP_HW_ADDR_LEN,
      ah_proto_addr_len = ARP_PROTO_ADDR_LEN, ah_op_code = op, ah_src_mac = smac, ah_src_ip = sip,
      ah_dst_mac = dmac, ah_dst_ip = dip\<rparr>"

definition intf_ip_u32 :: "Interface \<Rightarrow> u32" where
  "intf_ip_u32 intf = (if IsIPConfigured intf then ip_to_u32 (GetIP intf) else 0)"

section \<open>Requests\<close>

text \<open>
  \<open>send_arp_broadcast_request\<close>: on the interface given, or on the first whose subnet holds the
  address.  The result is the code's 0 or -1 and the effects.
\<close>

definition arp_request_frame :: "Interface \<Rightarrow> IpAddr \<Rightarrow> bytes option" where
  "arp_request_frame intf target =
     ethernet_frame broadcast_mac (GetMac intf) ETHERTYPE_ARP
       (serialize_arp_header
          (arp_packet ARP_OP_REQUEST (GetMac intf) (intf_ip_u32 intf) zero_mac (ip_to_u32 target)))"

definition send_arp_broadcast_request :: "env \<Rightarrow> Node \<Rightarrow> nat option \<Rightarrow> string \<Rightarrow> int \<times> eff list" where
  "send_arp_broadcast_request env node oif ip_str =
     (case (case oif of None \<Rightarrow> node_get_matching_subnet_interface node ip_str | Some i \<Rightarrow> Some i) of
        None \<Rightarrow> (- 1, [])
      | Some i \<Rightarrow>
          (case intf_of node i of
             None \<Rightarrow> (- 1, [])
           | Some out_intf \<Rightarrow>
               (case parseIPv4 ip_str of
                  None \<Rightarrow> (- 1, [])
                | Some target \<Rightarrow>
                    if IsIPConfigured out_intf \<and> ip_addr_equal (GetIP out_intf) target then (- 1, [])
                    else case arp_request_frame out_intf target of
                      None \<Rightarrow> (- 1, [])
                    | Some frame \<Rightarrow>
                        (let (ok, es) = send_frame env node frame i
                         in (if ok then 0 else - 1, Emit ''ARP'' ''arp_request_started'' [] # es)))))"

text \<open>\<open>send_vlan_arp_request\<close> of l2_switch.go: one request per forwarding port of the VLAN.\<close>

definition vlan_arp_request_frame :: "Interface \<Rightarrow> IpAddr \<Rightarrow> IpAddr \<Rightarrow> bytes option" where
  "vlan_arp_request_frame intf sender target =
     ethernet_frame broadcast_mac (GetMac intf) ETHERTYPE_ARP
       (serialize_arp_header
          (arp_packet ARP_OP_REQUEST (GetMac intf) (ip_to_u32 sender) zero_mac (ip_to_u32 target)))"

fun vlan_request_loop :: "env \<Rightarrow> Node \<Rightarrow> u16 \<Rightarrow> IpAddr \<Rightarrow> IpAddr \<Rightarrow> nat \<Rightarrow> intf_array \<Rightarrow> eff list" where
  "vlan_request_loop env node vlan_id sender target i [] = []"
| "vlan_request_loop env node vlan_id sender target i (None # rest) =
     vlan_request_loop env node vlan_id sender target (i + 1) rest"
| "vlan_request_loop env node vlan_id sender target i (Some intf # rest) =
     (let es' = vlan_request_loop env node vlan_id sender target (i + 1) rest in
      if IS_INTF_L3_MODE intf \<or> \<not> IsVLANAllowed intf vlan_id \<or> \<not> port_can_forward env node intf then es'
      else case vlan_arp_request_frame intf sender target of
        None \<Rightarrow> es'
      | Some frame \<Rightarrow>
          (case prepare_frame_for_interface intf frame vlan_id of
             Inl _ \<Rightarrow> es'
           | Inr (out_pkt, _) \<Rightarrow>
               Emit ''ARP'' ''arp_request_started'' [] # snd (send_frame env node out_pkt i) @ es'))"

definition send_vlan_arp_request :: "env \<Rightarrow> Node \<Rightarrow> u16 \<Rightarrow> string \<Rightarrow> eff list" where
  "send_vlan_arp_request env node vlan_id target_ip =
     (case GetVlanInterface node vlan_id of
        None \<Rightarrow> []
      | Some svi \<Rightarrow>
          (case parseIPv4 target_ip of
             None \<Rightarrow> []
           | Some target \<Rightarrow>
               if vi_ip_addr svi = target then []
               else vlan_request_loop env node vlan_id (vi_ip_addr svi) target 0 (nd_intf node)))"

section \<open>Replies\<close>

text \<open>\<open>send_arp_reply_msg\<close>: an address of an SVI is answered on that VLAN.\<close>

definition arp_reply_frame :: "Interface \<Rightarrow> IpAddr \<Rightarrow> arp_hdr_t \<Rightarrow> bytes option" where
  "arp_reply_frame oif reply_ip request =
     ethernet_frame (ah_src_mac request) (GetMac oif) ETHERTYPE_ARP
       (serialize_arp_header
          (arp_packet ARP_OP_REPLY (GetMac oif) (ip_to_u32 reply_ip) (ah_src_mac request) (ah_src_ip request)))"

definition send_arp_reply_msg :: "env \<Rightarrow> Node \<Rightarrow> bytes \<Rightarrow> nat \<Rightarrow> IpAddr \<Rightarrow> eff list" where
  "send_arp_reply_msg env node pkt_buffer i reply_ip =
     (case intf_of node i of
        None \<Rightarrow> []
      | Some oif \<Rightarrow>
          (case deserialize_arp_header (drop ETHERNET_HDR_SIZE pkt_buffer) of
             Inl _ \<Rightarrow> []
           | Inr request \<Rightarrow>
               (case arp_reply_frame oif reply_ip request of
                  None \<Rightarrow> []
                | Some frame \<Rightarrow>
                    (case (case find (\<lambda>v. ip_addr_equal (vi_ip_addr v) reply_ip) (nd_vlan_interfaces node) of
                             None \<Rightarrow> Inr frame
                           | Some svi \<Rightarrow> map_sum id fst (prepare_frame_for_interface oif frame (vi_vlan_id svi))) of
                       Inl _ \<Rightarrow> []
                     | Inr out_frame \<Rightarrow>
                         Emit ''ARP'' ''arp_reply_created'' [] # snd (send_frame env node out_frame i)))))"

section \<open>Merging a binding\<close>

text \<open>
  \<open>arp_learn_binding\<close>: the table is updated first, then every packet that waited is processed on
  the interface the binding came in on.
\<close>

definition arp_learn_binding :: "env \<Rightarrow> nat \<Rightarrow> IpAddr \<Rightarrow> MacAddr \<Rightarrow> bool \<Rightarrow> Node \<Rightarrow> result" where
  "arp_learn_binding env iif ip mac existingOnly node =
     (let (table', pending, cacheState) =
            arp_table_learn (nd_arp node) (e_now env) (intf_name_of node iif) ip mac existingOnly;
          node1 = node\<lparr>nd_arp := table'\<rparr>
      in case cacheState of
           None \<Rightarrow> (node1, [])
         | Some _ \<Rightarrow>
             (node1, Emit ''ARP'' ''arp_resolved'' [] #
                     concat (map (process_arp_pending_entry env node1 iif) pending) @
                     (if pending = [] then [] else [Emit ''ARP'' ''pending_packets_released'' []])))"

definition process_arp_reply_msg :: "env \<Rightarrow> nat \<Rightarrow> bytes \<Rightarrow> Node \<Rightarrow> result" where
  "process_arp_reply_msg env iif pkt_buffer node =
     (case deserialize_arp_header (drop ETHERNET_HDR_SIZE pkt_buffer) of
        Inl _ \<Rightarrow> (node, [])
      | Inr hdr \<Rightarrow> arp_learn_binding env iif (u32_to_ip (ah_src_ip hdr)) (ah_src_mac hdr) False node)"

text \<open>Whether a request for an address is answered on an interface: its own address, or any SVI's.\<close>

definition arp_should_reply :: "Node \<Rightarrow> nat \<Rightarrow> IpAddr \<Rightarrow> bool" where
  "arp_should_reply node iif target \<longleftrightarrow>
     (case intf_of node iif of None \<Rightarrow> False
      | Some intf \<Rightarrow> IsIPConfigured intf \<and> ip_addr_equal (GetIP intf) target)
     \<or> list_ex (\<lambda>v. ip_addr_equal (vi_ip_addr v) target) (nd_vlan_interfaces node)"

definition process_arp_broadcast_request :: "env \<Rightarrow> nat \<Rightarrow> bytes \<Rightarrow> Node \<Rightarrow> result" where
  "process_arp_broadcast_request env iif pkt_buffer node =
     (case deserialize_arp_header (drop ETHERNET_HDR_SIZE pkt_buffer) of
        Inl _ \<Rightarrow> (node, [])
      | Inr hdr \<Rightarrow>
          (let target = u32_to_ip (ah_dst_ip hdr);
               shouldReply = arp_should_reply node iif target
           in then_do
                (if ah_src_ip hdr \<noteq> 0
                 then arp_learn_binding env iif (u32_to_ip (ah_src_ip hdr)) (ah_src_mac hdr) (\<not> shouldReply) node
                 else (node, []))
                (\<lambda>node1. if \<not> shouldReply then (node1, [])
                         else (node1, Emit ''ARP'' ''arp_request_received'' [] #
                                      send_arp_reply_msg env node1 pkt_buffer iif target))))"

text \<open>\<open>layer_2_frame_recv_arp\<close> dispatches on the operation code.\<close>

definition layer_2_frame_recv_arp :: "env \<Rightarrow> nat \<Rightarrow> bytes \<Rightarrow> Node \<Rightarrow> result" where
  "layer_2_frame_recv_arp env iif pkt node =
     (if length pkt < ETHERNET_HDR_SIZE + 28 then (node, [])
      else if u16_at pkt (ETHERNET_HDR_SIZE + 6) = ARP_OP_REQUEST then process_arp_broadcast_request env iif pkt node
      else if u16_at pkt (ETHERNET_HDR_SIZE + 6) = ARP_OP_REPLY then process_arp_reply_msg env iif pkt node
      else (node, []))"

section \<open>Maintenance\<close>

text \<open>The retry and failure callbacks that \<open>maintain_arp_pending_entries\<close> runs.\<close>

definition run_retry :: "env \<Rightarrow> Node \<Rightarrow> arp_cb \<Rightarrow> eff list" where
  "run_retry env node cb =
     (case cb of
        RetryRequest i ip_str \<Rightarrow> snd (send_arp_broadcast_request env node (Some i) ip_str)
      | RetryVlanRequest vlan_id ip_str \<Rightarrow> send_vlan_arp_request env node vlan_id ip_str
      | _ \<Rightarrow> [])"

definition retry_effects :: "env \<Rightarrow> Node \<Rightarrow> arp_cb arp_retry_action \<Rightarrow> eff list" where
  "retry_effects env node action =
     Emit ''ARP'' ''arp_request_retried'' [] #
       (case ra_retry action of None \<Rightarrow> [] | Some cb \<Rightarrow> run_retry env node cb)"

definition failure_effects :: "arp_cb arp_failure_action \<Rightarrow> eff list" where
  "failure_effects action =
     Emit ''ARP'' ''arp_resolution_failed'' ''resolution_timeout'' # concat (map run_failure (fa_callbacks action))"

definition maintain_arp_pending_entries :: "env \<Rightarrow> Node \<Rightarrow> result \<times> nat" where
  "maintain_arp_pending_entries env node =
     (let (table', retries, failures) = collect_arp_pending_actions (nd_arp node) (e_now env);
          node1 = node\<lparr>nd_arp := table'\<rparr>
      in ((node1, concat (map (retry_effects env node1) retries) @ concat (map failure_effects failures)),
          length failures))"

section \<open>From IP to the wire\<close>

text \<open>
  \<open>DemotePacketToLayer2\<close>.  An empty interface name means the interface whose subnet holds the next
  hop; next hop 0 is a broadcast on the named interface.
\<close>

definition demote_oif :: "Node \<Rightarrow> u32 \<Rightarrow> string \<Rightarrow> nat option" where
  "demote_oif node nextHopIP oifName =
     (if oifName \<noteq> [] then get_node_if_by_name (nd_intf node) oifName
      else if nextHopIP \<noteq> 0 then node_get_matching_subnet_interface node (IPUint32ToString nextHopIP)
      else None)"

definition demote_resolved :: "env \<Rightarrow> Node \<Rightarrow> nat \<Rightarrow> MacAddr \<Rightarrow> Interface \<Rightarrow> bytes \<Rightarrow> u16 \<Rightarrow> eff list" where
  "demote_resolved env node i dstMAC oif pkt etype =
     (case ethernet_frame dstMAC (GetMac oif) etype pkt of
        None \<Rightarrow> []
      | Some frame \<Rightarrow> snd (send_frame env node frame i))"

definition DemotePacketToLayer2 :: "env \<Rightarrow> u32 \<Rightarrow> string \<Rightarrow> bytes \<Rightarrow> u16 \<Rightarrow> Node \<Rightarrow> result" where
  "DemotePacketToLayer2 env nextHopIP oifName pkt etype node =
     (if pkt = [] then (node, [])
      else case demote_oif node nextHopIP oifName of
        None \<Rightarrow> (node, [])
      | Some i \<Rightarrow>
          (case intf_of node i of
             None \<Rightarrow> (node, [])
           | Some oif \<Rightarrow>
               if nextHopIP = 0 then (node, demote_resolved env node i broadcast_mac oif pkt etype)
               else case ethernet_frame zero_mac (GetMac oif) etype pkt of
                 None \<Rightarrow> (node, [])
               | Some frame \<Rightarrow>
                   (let nextHop = u32_to_ip nextHopIP;
                        nextHopStr = IPUint32ToString nextHopIP;
                        (table', r) =
                          arp_table_resolve_or_queue (nd_arp node) (e_now env) nextHop (get_interface_name oif)
                            frame (length frame) (Some (SendResolved nextHop))
                            (Some (DropUnresolved i nextHop frame)) (Some (RetryRequest i nextHopStr));
                        node1 = node\<lparr>nd_arp := table'\<rparr>
                    in case r of
                         Rejected \<Rightarrow> (node1, [])
                       | Queued requestNeeded \<Rightarrow>
                           (node1, Emit ''ARP'' ''arp_lookup_missed'' [] #
                              (if requestNeeded then snd (send_arp_broadcast_request env node1 (Some i) nextHopStr) else []))
                       | Resolved mac \<Rightarrow>
                           (node1, Emit ''ARP'' ''arp_entry_selected'' [] # demote_resolved env node1 i mac oif pkt etype))))"

end
