(* ===== verification/Icmp.thy ===== *)
theory Icmp
  imports Arp
begin

text \<open>
  ICMP of \<open>src/src/l3_icmp.go\<close> and the echo messages of \<open>src/src/l3_routing.go\<close>: which drops may be
  reported, what a report quotes, and how a report addressed to the node is recorded.
\<close>

definition ICMP_TYPE_ECHO_REPLY :: byte where "ICMP_TYPE_ECHO_REPLY = 0"
definition ICMP_TYPE_DEST_UNREACHABLE :: byte where "ICMP_TYPE_DEST_UNREACHABLE = 3"
definition ICMP_TYPE_SOURCE_QUENCH :: byte where "ICMP_TYPE_SOURCE_QUENCH = 4"
definition ICMP_TYPE_REDIRECT :: byte where "ICMP_TYPE_REDIRECT = 5"
definition ICMP_TYPE_ECHO_REQUEST :: byte where "ICMP_TYPE_ECHO_REQUEST = 8"
definition ICMP_TYPE_TIME_EXCEEDED :: byte where "ICMP_TYPE_TIME_EXCEEDED = 11"
definition ICMP_TYPE_PARAM_PROBLEM :: byte where "ICMP_TYPE_PARAM_PROBLEM = 12"
definition ICMP_CODE_NET_UNREACHABLE :: byte where "ICMP_CODE_NET_UNREACHABLE = 0"
definition ICMP_CODE_HOST_UNREACHABLE :: byte where "ICMP_CODE_HOST_UNREACHABLE = 1"
definition ICMP_CODE_TTL_EXCEEDED :: byte where "ICMP_CODE_TTL_EXCEEDED = 0"

lemmas icmp_type_defs = ICMP_TYPE_ECHO_REPLY_def ICMP_TYPE_DEST_UNREACHABLE_def ICMP_TYPE_SOURCE_QUENCH_def
  ICMP_TYPE_REDIRECT_def ICMP_TYPE_ECHO_REQUEST_def ICMP_TYPE_TIME_EXCEEDED_def ICMP_TYPE_PARAM_PROBLEM_def

definition icmpMessageName :: "byte \<Rightarrow> byte \<Rightarrow> string" where
  "icmpMessageName icmpType icmpCode =
     (if icmpType = ICMP_TYPE_ECHO_REPLY then ''echo_reply''
      else if icmpType = ICMP_TYPE_ECHO_REQUEST then ''echo_request''
      else if icmpType = ICMP_TYPE_TIME_EXCEEDED then ''time_exceeded''
      else if icmpType = ICMP_TYPE_DEST_UNREACHABLE then
        (if icmpCode = ICMP_CODE_NET_UNREACHABLE then ''network_unreachable''
         else if icmpCode = ICMP_CODE_HOST_UNREACHABLE then ''host_unreachable''
         else ''destination_unreachable'')
      else ''type_'' @ dec (unat icmpType) @ ''_code_'' @ dec (unat icmpCode))"

definition isICMPErrorType :: "byte \<Rightarrow> bool" where
  "isICMPErrorType icmpType \<longleftrightarrow>
     icmpType \<in> {ICMP_TYPE_DEST_UNREACHABLE, ICMP_TYPE_SOURCE_QUENCH, ICMP_TYPE_REDIRECT,
                 ICMP_TYPE_TIME_EXCEEDED, ICMP_TYPE_PARAM_PROBLEM}"

definition isMulticastOrBroadcastIP :: "u32 \<Rightarrow> bool" where
  "isMulticastOrBroadcastIP ip \<longleftrightarrow> drop_bit 28 ip \<ge> 0xE \<or> ip = 0xFFFFFFFF"

definition icmpErrorPermitted :: "IPHeader \<Rightarrow> bytes \<Rightarrow> bool" where
  "icmpErrorPermitted origHdr origPkt =
     (if length origPkt < 20 then False
      else if ih_SrcIP origHdr = 0 \<or> isMulticastOrBroadcastIP (ih_SrcIP origHdr) then False
      else if isMulticastOrBroadcastIP (ih_DstIP origHdr) then False
      else if ih_FragOffset origHdr \<noteq> 0 then False
      else if ih_Protocol origHdr = PROTO_ICMP then
        (if length origPkt < GetIPHeaderLen origHdr + 1 then False
         else \<not> isICMPErrorType (origPkt ! GetIPHeaderLen origHdr))
      else True)"

section \<open>Building messages\<close>

definition quote_length :: "bytes \<Rightarrow> nat" where
  "quote_length origPkt =
     (let headerLen = unat (origPkt ! 0 AND 0x0F) * 4;
          headerLen = (if headerLen < 20 then 20 else headerLen)
      in min (headerLen + 8) (length origPkt))"

definition with_icmp_checksum :: "bytes \<Rightarrow> bytes" where
  "with_icmp_checksum msg = put16_at msg 2 (internetChecksum msg)"

definition buildICMPError :: "bytes \<Rightarrow> byte \<Rightarrow> byte \<Rightarrow> bytes" where
  "buildICMPError origPkt icmpType icmpCode =
     with_icmp_checksum ([icmpType, icmpCode, 0, 0, 0, 0, 0, 0] @ take (quote_length origPkt) origPkt)"

definition newICMPEchoRequestWithSequence :: "u16 \<Rightarrow> bytes" where
  "newICMPEchoRequestWithSequence sequence =
     with_icmp_checksum ([ICMP_TYPE_ECHO_REQUEST, 0, 0, 0] @ put16 1 @ put16 sequence)"

definition newICMPEchoRequest :: bytes where
  "newICMPEchoRequest = newICMPEchoRequestWithSequence 1"

text \<open>The echo reply of \<open>handleLocalIPPacket\<close>: the request with type 0 and a new checksum.\<close>

definition icmp_echo_reply :: "bytes \<Rightarrow> bytes" where
  "icmp_echo_reply payload = with_icmp_checksum (put16_at (payload[0 := 0]) 2 0)"

section \<open>Reports\<close>

text \<open>\<open>sendICMPErrorViaInterface\<close> bypasses the routing table: one named interface, one given source.\<close>

definition icmp_error_packet :: "u32 \<Rightarrow> u32 \<Rightarrow> bytes \<Rightarrow> bytes" where
  "icmp_error_packet srcIP dstIP msg =
     SerializeIPHeader (InitializeIPHeader\<lparr>ih_Protocol := PROTO_ICMP, ih_SrcIP := srcIP, ih_DstIP := dstIP,
       ih_TotalLen := word_of_nat (20 + length msg)\<rparr>) @ msg"

definition sendICMPErrorViaInterface ::
  "env \<Rightarrow> nat \<Rightarrow> u32 \<Rightarrow> bytes \<Rightarrow> IPHeader \<Rightarrow> byte \<Rightarrow> byte \<Rightarrow> Node \<Rightarrow> result" where
  "sendICMPErrorViaInterface env egress srcIP origPkt origHdr icmpType icmpCode node =
     (if srcIP = 0 then (node, [])
      else if \<not> icmpErrorPermitted origHdr origPkt then (node, [])
      else
        (let pkt = icmp_error_packet srcIP (ih_SrcIP origHdr) (buildICMPError origPkt icmpType icmpCode)
         in then_do (node, [Emit ''ICMP'' ''icmp_error_created'' []])
              (DemotePacketToLayer2 env (ih_SrcIP origHdr) (intf_name_of node egress) pkt ETHERTYPE_IP)))"

text \<open>\<open>handleICMPError\<close>: the payload has at least 8 bytes; a quoted header that parses names the packet.\<close>

definition handleICMPError :: "IPHeader \<Rightarrow> bytes \<Rightarrow> Node \<Rightarrow> result" where
  "handleICMPError ipHdr payload node =
     (let report =
            \<lparr>ie_Type = payload ! 0, ie_Code = payload ! 1, ie_Reason = icmpMessageName (payload ! 0) (payload ! 1),
             ie_ReporterIP = IPUint32ToString (ih_SrcIP ipHdr),
             ie_OriginalDstIP =
               (if length payload \<ge> 8 + 20 then
                  (case DeserializeIPHeader (drop 8 payload) of
                     Inl _ \<Rightarrow> [] | Inr quoted \<Rightarrow> IPUint32ToString (ih_DstIP quoted))
                else [])\<rparr>
      in (recordICMPError node report, [Emit ''ICMP'' ''icmp_error_received'' []]))"

section \<open>What the messages satisfy\<close>

lemma length_with_icmp_checksum [simp, frame_lens]: "length (with_icmp_checksum m) = length m"
  by (simp add: with_icmp_checksum_def)

lemma nth_with_icmp_checksum: "i < 2 \<or> 4 \<le> i \<Longrightarrow> with_icmp_checksum m ! i = m ! i"
  by (auto simp: with_icmp_checksum_def nth_put16_at_other)

lemma length_newICMPEchoRequest [simp, frame_lens]: "length (newICMPEchoRequestWithSequence s) = 8"
  by (simp add: newICMPEchoRequestWithSequence_def)

lemma length_buildICMPError [frame_lens]:
  "length (buildICMPError p t c) = 8 + quote_length p"
  by (simp add: buildICMPError_def quote_length_def Let_def)

lemma low_nibble_le: "unat (b AND 0x0F :: byte) \<le> 15"
proof -
  have "b AND 0x0F = take_bit 4 b" by (simp add: take_bit_eq_mask mask_eq_exp_minus_1)
  then have "unat (b AND 0x0F) = take_bit 4 (unat b)" by (simp only: unsigned_take_bit_eq)
  also have "\<dots> \<le> 15" by (simp add: take_bit_eq_mod less_Suc_eq_le [symmetric])
  finally show ?thesis .
qed

lemma quote_length_le: "quote_length p \<le> 68"
  using low_nibble_le [of "p ! 0"] by (auto simp: quote_length_def Let_def min_def)

text \<open>A receiver that sums a message with its checksum in place gets zero.\<close>

lemma with_icmp_checksum_ok:
  assumes "4 \<le> length m" "length m \<le> 131068" "m ! 2 = 0" "m ! 3 = 0"
  shows "internetChecksum (with_icmp_checksum m) = 0"
proof -
  have "put16_at m 2 0 = m"
    using assms(1,3,4) by (intro nth_equalityI) (auto simp: put16_at_def nth_list_update)
  then show ?thesis
    using internetChecksum_put [of 2 m] assms(1,2) by (simp add: with_icmp_checksum_def)
qed

lemma icmp_checksums_ok:
  "internetChecksum (buildICMPError p t c) = 0"
  "internetChecksum (newICMPEchoRequestWithSequence s) = 0"
  "8 \<le> length payload \<Longrightarrow> length payload \<le> 65535 \<Longrightarrow> internetChecksum (icmp_echo_reply payload) = 0"
  using quote_length_le [of p]
  by (auto simp: buildICMPError_def newICMPEchoRequestWithSequence_def icmp_echo_reply_def put16_def put16_at_def
      intro!: with_icmp_checksum_ok)

text \<open>No report is made about a report.\<close>

lemma no_error_about_error:
  assumes "isICMPErrorType t" "DeserializeIPHeader (icmp_error_packet srcIP dstIP (buildICMPError p t c)) = Inr h"
  shows "\<not> icmpErrorPermitted h (icmp_error_packet srcIP dstIP (buildICMPError p t c))"
proof -
  let ?m = "buildICMPError p t c"
  let ?h0 = "InitializeIPHeader\<lparr>ih_Protocol := PROTO_ICMP, ih_SrcIP := srcIP, ih_DstIP := dstIP,
       ih_TotalLen := word_of_nat (20 + length ?m)\<rparr>"
  have len: "length ?m \<le> 76" using quote_length_le [of p] by (simp add: length_buildICMPError)
  have tot: "unat (ih_TotalLen ?h0) = 20 + length ?m"
    using len unat_total_length [of "length ?m"] by simp
  have pl: "plain_header ?h0" by (simp add: plain_header_def InitializeIPHeader_def)
  have "h = ?h0\<lparr>ih_Checksum := u16_at (SerializeIPHeader ?h0) 10\<rparr>"
    using Deserialize_Serialize [OF pl, of ?m] assms(2) tot by (simp add: icmp_error_packet_def)
  then have "ih_Protocol h = PROTO_ICMP" "GetIPHeaderLen h = 20"
    by (simp_all add: GetIPHeaderLen_def InitializeIPHeader_def)
  moreover have "icmp_error_packet srcIP dstIP ?m ! 20 = t"
    by (simp add: icmp_error_packet_def nth_append buildICMPError_def nth_with_icmp_checksum)
  ultimately show ?thesis using assms(1) by (simp add: icmpErrorPermitted_def)
qed

text \<open>
  A quote is cut 8 bytes past the header, and \<open>DeserializeIPHeader\<close> refuses a header whose total
  length exceeds the buffer: a report about a longer datagram does not name its destination.
\<close>

lemma u16_at_take_prefix: "i + 1 < n \<Longrightarrow> n \<le> length xs \<Longrightarrow> u16_at (take n xs) i = u16_at xs i"
  by (simp add: u16_at_def)

lemma quoted_header_refused:
  assumes "DeserializeIPHeader p = Inr h" "quote_length p < unat (ih_TotalLen h)"
  shows "\<exists>e. DeserializeIPHeader (take (quote_length p) p) = Inl e"
proof -
  have p: "20 \<le> length p" "h = ip_header_at p" using assms(1) by (auto simp: DeserializeIPHeader_def Let_def split: if_splits)
  have q: "20 \<le> quote_length p" "quote_length p \<le> length p" using p(1) by (auto simp: quote_length_def Let_def)
  have "ih_TotalLen (ip_header_at (take (quote_length p) p)) = ih_TotalLen h"
    using q p by (simp add: ip_header_at_def u16_at_def)
  then show ?thesis using assms(2) q by (auto simp: DeserializeIPHeader_def Let_def)
qed

lemma error_report_without_destination:
  assumes "DeserializeIPHeader p = Inr h" "quote_length p < unat (ih_TotalLen h)"
  shows "nd_icmp_errors (fst (handleICMPError ipHdr (buildICMPError p t c) node)) =
    nd_icmp_errors node @ [\<lparr>ie_Type = t, ie_Code = c, ie_Reason = icmpMessageName t c,
      ie_ReporterIP = IPUint32ToString (ih_SrcIP ipHdr), ie_OriginalDstIP = []\<rparr>]"
proof -
  have "drop 8 (buildICMPError p t c) = take (quote_length p) p"
    by (rule nth_equalityI)
       (auto simp: length_buildICMPError buildICMPError_def nth_with_icmp_checksum quote_length_def Let_def)
  moreover have "buildICMPError p t c ! 0 = t" "buildICMPError p t c ! 1 = c"
    by (simp_all add: buildICMPError_def nth_with_icmp_checksum)
  ultimately show ?thesis
    using quoted_header_refused [OF assms]
    by (auto simp: handleICMPError_def Let_def recordICMPError_def)
qed

end
