(* ===== verification/RipProofs.thy ===== *)
theory RipProofs
  imports Rip
begin

text \<open>
  Properties of the RIP daemon: the codec round trip, the mask conversion, bounded metrics, split
  horizon, and the agreement of the daemon's routes with the routes it keeps in the table.
\<close>

section \<open>Codec\<close>

lemma length_rip_entry_bytes [simp, frame_lens]: "length (rip_entry_bytes e) = 20"
  by (simp add: rip_entry_bytes_def)

lemma rip_entry_at_bytes [codec_simps]: "rip_entry_at (rip_entry_bytes e @ rest) = e"
proof -
  let ?a = "put16 (re_AddressFamily e)" and ?t = "put16 (re_RouteTag e)" and ?i = "put32 (re_IPAddress e)"
  let ?s = "put32 (re_SubnetMask e)" and ?n = "put32 (re_NextHop e)"
  have "u16_at (rip_entry_bytes e @ rest) 0 = re_AddressFamily e"
    using u16_at_put16 [of "[]" 0 "re_AddressFamily e"] by (simp add: rip_entry_bytes_def)
  moreover have "u16_at (rip_entry_bytes e @ rest) 2 = re_RouteTag e"
    using u16_at_put16 [of "?a" 2 "re_RouteTag e"] by (simp add: rip_entry_bytes_def)
  moreover have "u32_at (rip_entry_bytes e @ rest) 4 = re_IPAddress e"
    using u32_at_put32 [of "?a @ ?t" 4 "re_IPAddress e"] by (simp add: rip_entry_bytes_def)
  moreover have "u32_at (rip_entry_bytes e @ rest) 8 = re_SubnetMask e"
    using u32_at_put32 [of "?a @ ?t @ ?i" 8 "re_SubnetMask e"] by (simp add: rip_entry_bytes_def)
  moreover have "u32_at (rip_entry_bytes e @ rest) 12 = re_NextHop e"
    using u32_at_put32 [of "?a @ ?t @ ?i @ ?s" 12 "re_NextHop e"] by (simp add: rip_entry_bytes_def)
  moreover have "u32_at (rip_entry_bytes e @ rest) 16 = re_Metric e"
    using u32_at_put32 [of "?a @ ?t @ ?i @ ?s @ ?n" 16 "re_Metric e" rest] by (simp add: rip_entry_bytes_def)
  ultimately show ?thesis by (simp add: rip_entry_at_def)
qed

lemma rip_entries_concat:
  "length pad < RIP_ENTRY_SIZE \<Longrightarrow> rip_entries (concat (map rip_entry_bytes es) @ pad) = es"
proof (induction es)
  case Nil
  then show ?case by (subst rip_entries.simps) simp
next
  case (Cons e es)
  then show ?case
    by (subst rip_entries.simps) (simp add: RIP_ENTRY_SIZE_def rip_entry_at_bytes)
qed

lemma Deserialize_SerializeRIPPacket:
  assumes "length pad < RIP_ENTRY_SIZE"
  shows "DeserializeRIPPacket (SerializeRIPPacket pkt @ pad) = Inr pkt"
proof -
  have "u16_at (SerializeRIPPacket pkt @ pad) 2 = rp_Zero pkt"
    using u16_at_put16 [of "[rp_Command pkt, rp_Version pkt]" 2 "rp_Zero pkt"] by (simp add: SerializeRIPPacket_def)
  moreover have "drop 4 (SerializeRIPPacket pkt @ pad) = concat (map rip_entry_bytes (rp_Entries pkt)) @ pad"
    by (simp add: SerializeRIPPacket_def put16_def)
  ultimately show ?thesis using rip_entries_concat [OF assms, of "rp_Entries pkt"]
    by (simp add: DeserializeRIPPacket_def RIP_HEADER_SIZE_def) (simp add: SerializeRIPPacket_def put16_def)
qed

section \<open>Masks\<close>

definition ones :: "u32 \<Rightarrow> nat" where
  "ones m = card {i. i < 32 \<and> bit m i}"

lemma ones_shift: "ones m = (if bit m 31 then 1 else 0) + ones (push_bit 1 m)"
proof -
  have b: "bit (push_bit 1 m) i \<longleftrightarrow> 1 \<le> i \<and> i < 32 \<and> bit m (i - 1)" for i
    by (simp only: bit_push_bit_iff) (auto dest: bit_imp_le_length)
  have "{i. i < 32 \<and> bit (push_bit 1 m) i} = Suc ` {i. i < 31 \<and> bit m i}"
  proof (rule set_eqI)
    fix i
    show "i \<in> {i. i < 32 \<and> bit (push_bit 1 m) i} \<longleftrightarrow> i \<in> Suc ` {i. i < 31 \<and> bit m i}"
      unfolding mem_Collect_eq b by (cases i) auto
  qed
  then have "ones (push_bit 1 m) = card {i. i < 31 \<and> bit m i}"
    by (simp add: ones_def card_image)
  moreover have "{i. i < 32 \<and> bit m i} = {i. i < 31 \<and> bit m i} \<union> (if bit m 31 then {31} else {})"
    by (auto simp: less_Suc_eq eval_nat_numeral)
  ultimately show ?thesis by (simp add: ones_def)
qed

lemma top_bit: "msk AND 0x80000000 \<noteq> (0 :: u32) \<longleftrightarrow> bit msk 31"
proof -
  have p: "(0x80000000 :: u32) = push_bit 31 1" by simp
  have a: "bit (msk AND 0x80000000) i \<longleftrightarrow> i = 31 \<and> bit msk 31" for i :: nat
    unfolding p bit_and_iff bit_push_bit_iff by (auto simp: bit_1_iff)
  have z: "w \<noteq> 0 \<longleftrightarrow> (\<exists>i. bit w i)" for w :: u32
  proof
    show "\<exists>i. bit w i" if "w \<noteq> 0" using that bit_eqI [of w 0] by auto
  qed auto
  show ?thesis unfolding z a by simp
qed

lemma mask_bits_loop_ones: "mask_bits_loop msk b = b + of_nat (ones msk)"
proof (induction msk b rule: mask_bits_loop.induct)
  case (1 msk b)
  show ?case
  proof (cases "msk = 0")
    case True
    then show ?thesis by (subst mask_bits_loop.simps) (simp add: ones_def)
  next
    case False
    show ?thesis
      by (subst mask_bits_loop.simps, subst ones_shift)
         (use False 1 [OF False] in \<open>simp only: top_bit if_True not_False_eq_True, simp\<close>)
  qed
qed

lemma subnetMaskToMaskBits_ones: "subnetMaskToMaskBits m = of_nat (ones m)"
  by (simp add: subnetMaskToMaskBits_def mask_bits_loop_ones)

lemma ones_le_32: "ones m \<le> 32"
  using card_mono [of "{..<32::nat}" "{i. i < 32 \<and> bit m i}"] by (auto simp: ones_def)

lemma subnetMaskToMaskBits_le: "subnetMaskToMaskBits m \<le> 32"
  using ones_le_32 [of m] by (simp add: subnetMaskToMaskBits_ones word_le_nat_alt unsigned_of_nat take_bit_nat_eq_self)

lemma subnetMaskToMaskBits_mask32:
  assumes "k \<le> 32" shows "subnetMaskToMaskBits (mask32 k) = k"
proof -
  have k: "unat k \<le> 32" using assms by (simp add: word_le_nat_alt)
  have "{i. i < 32 \<and> bit (mask32 k) i} = {32 - unat k..<32}"
    using assms by (auto simp: bit_mask32)
  then have "ones (mask32 k) = unat k" using k by (simp add: ones_def)
  then show ?thesis by (simp add: subnetMaskToMaskBits_ones)
qed


section \<open>The daemon's routes as a map\<close>

definition rip_route_ok :: "RIPRoute \<Rightarrow> bool" where
  "rip_route_ok r \<longleftrightarrow>
     prefix_ok (rr_key r) \<and> (\<exists>g. rr_NextHop r = IPUint32ToString g) \<and>
     rr_Metric r \<le> RIP_MAX_METRIC \<and> rr_IsExpired r = (rr_Metric r = RIP_MAX_METRIC)"

text \<open>The table entry a live route stands for.\<close>

definition fib_route :: "RIPRoute \<Rightarrow> L3Route" where
  "fib_route r =
     mk_route (rr_Destination r) (rr_Mask r) (rr_NextHop r) (rr_Interface r) ROUTE_SOURCE_RIP ROUTE_SOURCE_RIP
       (rr_Metric r)"

definition live_route :: "RIPRoute list \<Rightarrow> prefix \<Rightarrow> L3Route option" where
  "live_route routes k =
     (case rip_lookup routes k of
        Some r \<Rightarrow> if rr_IsExpired r then None else Some (fib_route r)
      | None \<Rightarrow> None)"

text \<open>The invariant: unique prefixes, sound routes, and exactly the live ones in the routing table.\<close>

definition rip_inv :: "RIPRoute list \<Rightarrow> RoutingTable \<Rightarrow> bool" where
  "rip_inv routes rt \<longleftrightarrow>
     distinct (map rr_key routes) \<and> (\<forall>r\<in>set routes. rip_route_ok r) \<and> rt_inv rt \<and>
     source_look ROUTE_SOURCE_RIP rt = live_route routes"

lemma rip_lookup_simps [simp]:
  "rip_lookup [] k = None"
  "rip_lookup (r # rs) k = (if rr_key r = k then Some r else rip_lookup rs k)"
  by (simp_all add: rip_lookup_def)

lemma rip_lookup_Some: "rip_lookup rs k = Some r \<Longrightarrow> r \<in> set rs \<and> rr_key r = k"
  by (induction rs) (auto split: if_splits)

lemma rip_lookup_None: "rip_lookup rs k = None \<longleftrightarrow> k \<notin> rr_key ` set rs"
  by (induction rs) auto

lemma rip_lookup_append: "rip_lookup (rs @ ss) k = (case rip_lookup rs k of Some r \<Rightarrow> Some r | None \<Rightarrow> rip_lookup ss k)"
  by (induction rs) auto

lemma rip_lookup_map:
  "rr_key new = k \<Longrightarrow>
     rip_lookup (map (\<lambda>r. if rr_key r = k then new else r) rs) k' =
     (if k' = k then (if rip_lookup rs k = None then None else Some new) else rip_lookup rs k')"
  by (induction rs) auto

lemma rip_lookup_put: "rip_lookup (rip_put rs new) k = (if k = rr_key new then Some new else rip_lookup rs k)"
proof (cases "rip_lookup rs (rr_key new) = None")
  case True
  then show ?thesis by (cases "rip_lookup rs k") (auto simp: rip_put_def rip_lookup_append)
next
  case False
  then show ?thesis by (simp only: rip_put_def if_False rip_lookup_map [OF refl])
qed

lemma rip_put_keys: "map rr_key (rip_put rs new) =
    (if rip_lookup rs (rr_key new) = None then map rr_key rs @ [rr_key new] else map rr_key rs)"
  by (auto simp: rip_put_def)

lemma rip_put_distinct: "distinct (map rr_key rs) \<Longrightarrow> distinct (map rr_key (rip_put rs new))"
  unfolding rip_put_keys by (simp add: rip_lookup_None)

lemma rip_put_set: "set (rip_put rs new) \<subseteq> insert new (set rs)"
  by (auto simp: rip_put_def)

lemma live_route_put:
  "live_route (rip_put rs new) =
     (live_route rs)(rr_key new := (if rr_IsExpired new then None else Some (fib_route new)))"
  by (rule ext) (simp add: live_route_def rip_lookup_put)

lemma source_ok_fib_route: "rip_route_ok r \<Longrightarrow> source_ok ROUTE_SOURCE_RIP (rr_key r) (fib_route r)"
  using route_ok_mk [of "rr_Destination r" "rr_Mask r" "rr_Destination r" "rr_NextHop r"]
  by (auto simp: source_ok_def rip_route_ok_def prefix_ok_def fib_route_def mk_route_def)

lemma rip_install_ins: "rip_install rt r = source_ins ROUTE_SOURCE_RIP rt (rr_key r) (fib_route r)"
  by (simp add: rip_install_def source_ins_def fib_route_def mk_route_def)

text \<open>Storing a route and updating the table the same way keeps the two in step.\<close>

lemma rip_inv_put_live:
  assumes "rip_inv rs rt" "rip_route_ok new" "\<not> rr_IsExpired new"
  shows "rip_inv (rip_put rs new) (rip_install rt new)"
proof -
  note so = source_ok_fib_route [OF assms(2)]
  have rt: "rt_inv rt" and look: "source_look ROUTE_SOURCE_RIP rt = live_route rs"
    using assms(1) by (simp_all add: rip_inv_def)
  show ?thesis using assms rip_put_set [of rs new] rip_put_distinct [of rs new]
    by (auto simp: rip_inv_def rip_install_ins rib_of.ins_inv [OF rt so] rib_of.ins_look [OF rt so]
        live_route_put look)
qed

lemma rip_inv_put_expired:
  assumes "rip_inv rs rt" "rip_route_ok new" "rr_IsExpired new"
  shows "rip_inv (rip_put rs new) (fst (DeleteRouteFromSource rt (rr_Destination new) (rr_Mask new) ROUTE_SOURCE_RIP))"
proof -
  have pk: "prefix_ok (rr_key new)" using assms(2) by (simp add: rip_route_ok_def)
  have rt: "rt_inv rt" and look: "source_look ROUTE_SOURCE_RIP rt = live_route rs"
    using assms(1) by (simp_all add: rip_inv_def)
  have d: "fst (DeleteRouteFromSource rt (rr_Destination new) (rr_Mask new) ROUTE_SOURCE_RIP) =
      source_del ROUTE_SOURCE_RIP rt (rr_key new)" by (simp add: source_del_def)
  show ?thesis unfolding d using assms rip_put_set [of rs new] rip_put_distinct [of rs new]
    by (auto simp: rip_inv_def rib_of.del_inv [OF rt pk] rib_of.del_look [OF rt pk] live_route_put look)
qed

section \<open>Reception keeps the invariant\<close>

lemma RIP_MAX_METRIC_le: "(if m > RIP_MAX_METRIC then RIP_MAX_METRIC else m) \<le> RIP_MAX_METRIC"
  by (simp add: not_less)

lemma rip_refreshed_ok:
  "rip_route_ok r \<Longrightarrow> newMetric \<le> RIP_MAX_METRIC \<Longrightarrow> rip_route_ok (rip_refreshed now r i newMetric)"
  by (auto simp: rip_route_ok_def rip_refreshed_def Let_def)

lemma rip_refreshed_key [simp]: "rr_Destination (rip_refreshed now r i m) = rr_Destination r"
  "rr_Mask (rip_refreshed now r i m) = rr_Mask r"
  by (simp_all add: rip_refreshed_def Let_def)

lemma rip_inv_apply:
  assumes inv: "rip_inv rs rt" and k: "prefix_ok k" and nm: "nm \<le> RIP_MAX_METRIC"
    and step: "rip_apply now (IPUint32ToString g) intf k nm (rs, rt, ch, ev) = (rs', rt', ch', ev')"
  shows "rip_inv rs' rt'"
proof (cases "nm < RIP_MAX_METRIC \<and> (case rip_lookup rs k of None \<Rightarrow> True | Some r \<Rightarrow> nm < rr_Metric r)")
  case True
  let ?new = "rip_learned now k (IPUint32ToString g) intf nm"
  have "rip_route_ok ?new" "\<not> rr_IsExpired ?new"
    using True k by (auto simp: rip_learned_def rip_route_ok_def)
  from rip_inv_put_live [OF inv this] step True show ?thesis by (simp add: Let_def)
next
  case worse: False
  show ?thesis
  proof (cases "rip_lookup rs k")
    case None
    with step worse inv show ?thesis by simp
  next
    case (Some r)
    let ?r = "rip_refreshed now r intf nm"
    have r: "r \<in> set rs" "rr_key r = k" using rip_lookup_Some [OF Some] by auto
    have ok: "rip_route_ok ?r"
      by (rule rip_refreshed_ok [OF _ nm]) (use inv r(1) in \<open>simp add: rip_inv_def\<close>)
    have step': "if IPUint32ToString g = rr_NextHop r
        then rs' = rip_put rs ?r \<and> rt' = (if rr_IsExpired ?r
               then fst (DeleteRouteFromSource rt (fst k) (snd k) ROUTE_SOURCE_RIP) else rip_install rt ?r)
        else rs' = rs \<and> rt' = rt"
      using step Some worse by (auto simp: Let_def split: if_splits)
    show ?thesis
    proof (cases "rr_IsExpired ?r")
      case True
      then show ?thesis using rip_inv_put_expired [OF inv ok True] step' r(2) inv by (auto split: if_splits)
    next
      case False
      then show ?thesis using rip_inv_put_live [OF inv ok False] step' r(2) inv by (auto split: if_splits)
    qed
  qed
qed

lemma received_metric_le: "received_metric e \<le> RIP_MAX_METRIC"
  by (simp add: received_metric_def Let_def not_less)

lemma rip_inv_process_entry:
  assumes "rip_inv rs rt" "process_entry now (IPUint32ToString g) intf (rs, rt, ch, ev) e = (rs', rt', ch', ev')"
  shows "rip_inv rs' rt'"
proof (cases "re_AddressFamily e = RIP_ADDRESS_FAMILY_IP")
  case ip: True
  let ?m = "subnetMaskToMaskBits (re_SubnetMask e)"
  have "ApplyMask (IPUint32ToString (re_IPAddress e)) ?m = Inr (IPUint32ToString (re_IPAddress e AND mask32 ?m))"
    (is "_ = Inr ?n") by (rule ApplyMask_IPUint32ToString [OF subnetMaskToMaskBits_le])
  moreover from this have "prefix_ok (?n, ?m)" using ApplyMask_idem by (simp add: prefix_ok_def)
  ultimately show ?thesis
    using rip_inv_apply [OF assms(1) _ received_metric_le [of e], of "(?n, ?m)" now g intf ch ev rs' rt' ch' ev']
      assms(2) ip
    by (simp add: process_entry_def Let_def del: rip_apply.simps)
qed (use assms in \<open>simp add: process_entry_def\<close>)

lemma rip_inv_process_entries:
  "rip_inv rs rt \<Longrightarrow> foldl (process_entry now (IPUint32ToString g) intf) (rs, rt, ch, ev) es = (rs', rt', ch', ev') \<Longrightarrow>
     rip_inv rs' rt'"
proof (induction es arbitrary: rs rt ch ev)
  case (Cons e es)
  obtain rs1 rt1 ch1 ev1 where
    1: "process_entry now (IPUint32ToString g) intf (rs, rt, ch, ev) e = (rs1, rt1, ch1, ev1)"
    by (cases "process_entry now (IPUint32ToString g) intf (rs, rt, ch, ev) e") auto
  from Cons.IH [OF rip_inv_process_entry [OF Cons.prems(1) 1]] Cons.prems(2) 1 show ?case by simp
qed simp

lemma rip_routes_trigger [simp]: "rip_routes (requestTriggeredUpdate rip) = rip_routes rip"
  by (simp add: requestTriggeredUpdate_def)

lemma rip_inv_ProcessRIPPacket:
  assumes "rip_inv (rip_routes rip) rt"
  shows "rip_inv (rip_routes (ro_state (ProcessRIPPacket rip rt now pkt (IPUint32ToString g) intf)))
    (ro_rt (ProcessRIPPacket rip rt now pkt (IPUint32ToString g) intf))"
proof -
  obtain rs' rt' ch' ev' where
    f: "foldl (process_entry now (IPUint32ToString g) intf) (rip_routes rip, rt, False, []) (rp_Entries pkt) =
      (rs', rt', ch', ev')"
    by (cases "foldl (process_entry now (IPUint32ToString g) intf) (rip_routes rip, rt, False, []) (rp_Entries pkt)") auto
  from rip_inv_process_entries [OF assms f] assms f show ?thesis
    by (auto simp: ProcessRIPPacket_def Let_def)
qed

section \<open>Expiry keeps the invariant\<close>

lemma rip_expire_key [simp]: "rr_Destination (rip_expire now r) = rr_Destination r" "rr_Mask (rip_expire now r) = rr_Mask r"
  by (simp_all add: rip_expire_def)

lemma rip_lookup_expire: "rip_lookup (map (rip_expire now) rs) k = map_option (rip_expire now) (rip_lookup rs k)"
  by (induction rs) auto

lemma rip_lookup_filter:
  "distinct (map rr_key rs) \<Longrightarrow> rip_lookup (filter P rs) k =
     (case rip_lookup rs k of Some r \<Rightarrow> if P r then Some r else None | None \<Rightarrow> None)"
proof (induction rs)
  case (Cons r rs)
  have "rip_lookup (filter P rs) (rr_key r) = None" if "rr_key r \<notin> rr_key ` set rs"
    using that by (auto simp: rip_lookup_None)
  with Cons show ?case by (auto split: option.splits)
qed simp

definition rip_del :: "RoutingTable \<Rightarrow> RIPRoute \<Rightarrow> RoutingTable" where
  "rip_del t r = fst (DeleteRouteFromSource t (rr_Destination r) (rr_Mask r) ROUTE_SOURCE_RIP)"

lemma rip_dels:
  "rt_inv rt \<Longrightarrow> \<forall>r\<in>set rs. prefix_ok (rr_key r) \<Longrightarrow>
     rt_inv (foldl rip_del rt rs) \<and>
     source_look ROUTE_SOURCE_RIP (foldl rip_del rt rs) =
       (\<lambda>k. if k \<in> rr_key ` set rs then None else source_look ROUTE_SOURCE_RIP rt k)"
proof (induction rs arbitrary: rt)
  case (Cons r rs)
  have d: "rip_del rt r = source_del ROUTE_SOURCE_RIP rt (rr_key r)" by (simp add: rip_del_def source_del_def)
  have pk: "prefix_ok (rr_key r)" using Cons.prems by simp
  have inv: "rt_inv (rip_del rt r)" unfolding d by (rule rib_of.del_inv [OF Cons.prems(1) pk])
  have look: "source_look ROUTE_SOURCE_RIP (rip_del rt r) = (source_look ROUTE_SOURCE_RIP rt)(rr_key r := None)"
    unfolding d by (rule rib_of.del_look [OF Cons.prems(1) pk])
  have ok: "\<forall>r\<in>set rs. prefix_ok (rr_key r)" using Cons.prems by simp
  have "rt_inv (foldl rip_del rt (r # rs))" using Cons.IH [OF inv ok] by simp
  moreover have "source_look ROUTE_SOURCE_RIP (foldl rip_del rt (r # rs)) k =
      (if k \<in> rr_key ` set (r # rs) then None else source_look ROUTE_SOURCE_RIP rt k)" for k
    using Cons.IH [OF inv ok] look by (cases "k = rr_key r") simp_all
  ultimately show ?case by blast
qed simp

lemma rip_inv_CheckExpiredRoutes:
  assumes "rip_inv (rip_routes rip) rt"
  shows "rip_inv (rip_routes (ro_state (CheckExpiredRoutes rip rt now))) (ro_rt (CheckExpiredRoutes rip rt now))"
proof -
  let ?old = "rip_routes rip" and ?dead = "filter (rip_timed_out now) (rip_routes rip)"
  let ?new = "filter (\<lambda>r. \<not> rip_garbage now r) (map (rip_expire now) ?old)"
  have d: "distinct (map rr_key ?old)" and ok: "\<forall>r\<in>set ?old. rip_route_ok r" and rt: "rt_inv rt"
    and look: "source_look ROUTE_SOURCE_RIP rt = live_route ?old"
    using assms by (simp_all add: rip_inv_def)
  have pk: "\<forall>r\<in>set ?dead. prefix_ok (rr_key r)" using ok by (simp add: rip_route_ok_def)
  have keys: "map rr_key (map (rip_expire now) ?old) = map rr_key ?old" by simp
  have d': "distinct (map rr_key (map (rip_expire now) ?old))" unfolding keys by (rule d)
  have dn: "distinct (map rr_key ?new)" by (rule distinct_map_filter [OF d'])
  have okn: "\<forall>r\<in>set ?new. rip_route_ok r"
    using ok by (auto simp: rip_expire_def rip_route_ok_def)
  have dead: "k \<in> rr_key ` set ?dead \<longleftrightarrow> (\<exists>r. rip_lookup ?old k = Some r \<and> rip_timed_out now r)" for k
  proof
    assume "k \<in> rr_key ` set ?dead"
    then obtain r where r: "r \<in> set ?old" "rip_timed_out now r" "rr_key r = k" by auto
    have "rip_lookup rs k = Some r" if "distinct (map rr_key rs)" "r \<in> set rs" for rs
      using that r(3) by (induction rs) (auto simp: rev_image_eqI)
    with d r show "\<exists>r. rip_lookup ?old k = Some r \<and> rip_timed_out now r" by blast
  next
    assume "\<exists>r. rip_lookup ?old k = Some r \<and> rip_timed_out now r"
    then obtain r where "rip_lookup ?old k = Some r" "rip_timed_out now r" by blast
    then show "k \<in> rr_key ` set ?dead" using rip_lookup_Some [of ?old k r] by (auto intro!: rev_image_eqI)
  qed
  have "live_route ?new k = (if k \<in> rr_key ` set ?dead then None else live_route ?old k)" for k
    unfolding dead live_route_def rip_lookup_filter [OF d'] rip_lookup_expire
    by (auto simp: rip_expire_def rip_timed_out_def rip_garbage_def split: option.splits)
  then have l: "live_route ?new = (\<lambda>k. if k \<in> rr_key ` set ?dead then None else live_route ?old k)" by blast
  have e: "ro_rt (CheckExpiredRoutes rip rt now) = foldl rip_del rt ?dead"
    "rip_routes (ro_state (CheckExpiredRoutes rip rt now)) = ?new"
    by (simp_all add: CheckExpiredRoutes_def Let_def rip_del_def [abs_def])
  have "source_look ROUTE_SOURCE_RIP (foldl rip_del rt ?dead) = live_route ?new"
    unfolding l look [symmetric] using rip_dels [OF rt pk] by blast
  with rip_dels [OF rt pk] dn okn show ?thesis unfolding e rip_inv_def by blast
qed


text \<open>After a check, no route that missed its updates for the timeout is left in the table.\<close>

lemma CheckExpiredRoutes_timeout:
  assumes inv: "rip_inv (rip_routes rip) rt" and r: "r \<in> set (rip_routes rip)" "now - rr_LastUpdate r > RIP_TIMEOUT"
  shows "source_look ROUTE_SOURCE_RIP (ro_rt (CheckExpiredRoutes rip rt now)) (rr_key r) = None"
proof (cases "rr_IsExpired r")
  case False
  have pk: "\<forall>r\<in>set (filter (rip_timed_out now) (rip_routes rip)). prefix_ok (rr_key r)"
    using inv by (simp add: rip_inv_def rip_route_ok_def)
  have "rr_key r \<in> rr_key ` set (filter (rip_timed_out now) (rip_routes rip))"
    using r False by (simp add: rip_timed_out_def rev_image_eqI)
  moreover have "ro_rt (CheckExpiredRoutes rip rt now) = foldl rip_del rt (filter (rip_timed_out now) (rip_routes rip))"
    by (simp add: CheckExpiredRoutes_def Let_def rip_del_def [abs_def])
  ultimately show ?thesis using rip_dels [OF _ pk, of rt] inv by (simp add: rip_inv_def)
next
  case True
  have d: "distinct (map rr_key (rip_routes rip))" using inv by (simp add: rip_inv_def)
  have "rip_lookup rs (rr_key r) = Some r" if "distinct (map rr_key rs)" "r \<in> set rs" for rs
    using that by (induction rs) (auto simp: rev_image_eqI)
  with d r(1) have l: "rip_lookup (rip_routes rip) (rr_key r) = Some r" by blast
  have inv': "rip_inv (rip_routes (ro_state (CheckExpiredRoutes rip rt now))) (ro_rt (CheckExpiredRoutes rip rt now))"
    by (rule rip_inv_CheckExpiredRoutes [OF inv])
  have e: "rip_routes (ro_state (CheckExpiredRoutes rip rt now)) =
      filter (\<lambda>r. \<not> rip_garbage now r) (map (rip_expire now) (rip_routes rip))"
    by (simp add: CheckExpiredRoutes_def Let_def)
  have keys: "map rr_key (map (rip_expire now) (rip_routes rip)) = map rr_key (rip_routes rip)" by simp
  have "rip_lookup (filter (\<lambda>r. \<not> rip_garbage now r) (map (rip_expire now) (rip_routes rip))) (rr_key r) =
      (if \<not> rip_garbage now (rip_expire now r) then Some (rip_expire now r) else None)"
    by (subst rip_lookup_filter) (simp_all only: keys d rip_lookup_expire l option.map option.case)
  with inv' True show ?thesis
    by (simp add: rip_inv_def e live_route_def rip_expire_def rip_timed_out_def)
qed

section \<open>Split horizon\<close>

lemma advertised_metric_le: "advertised_metric out r \<le> RIP_MAX_METRIC"
  by (simp add: advertised_metric_def Let_def not_less)

lemma advertised_metric_poisoned:
  "r_Source r = ROUTE_SOURCE_RIP \<Longrightarrow> r_OIF r = out \<Longrightarrow> advertised_metric out r = RIP_MAX_METRIC"
  by (simp add: advertised_metric_def Let_def)

lemma rip_response_entries_set:
  "e \<in> set (rip_response_entries routes out) \<Longrightarrow>
     \<exists>r\<in>set routes. \<exists>d. r_Dest r = IPUint32ToString d \<and>
       e = mk_rip_entry d (mask32 (r_Mask r)) (advertised_metric out r)"
  by (induction routes) (auto simp: IPStringToUint32_Inr split: sum.splits)

text \<open>The prefix a receiver derives from an entry of such a response is the advertised one.\<close>

lemma entry_prefix:
  assumes "route_ok r" "r_Dest r = IPUint32ToString d"
  shows "ApplyMask (IPUint32ToString d) (subnetMaskToMaskBits (mask32 (r_Mask r))) = Inr (r_Dest r)"
    "subnetMaskToMaskBits (mask32 (r_Mask r)) = r_Mask r"
  using assms by (auto simp: route_ok_def subnetMaskToMaskBits_mask32 ApplyMask_IPUint32ToString)

text \<open>An entry at infinity never puts a route into the receiver's table.\<close>

lemma received_poison: "re_Metric e = RIP_MAX_METRIC \<Longrightarrow> received_metric e = RIP_MAX_METRIC"
  by (simp add: received_metric_def RIP_MAX_METRIC_def)

lemma poison_step:
  assumes inv: "rip_inv rs rt" and m: "re_Metric e = RIP_MAX_METRIC"
    and step: "process_entry now (IPUint32ToString g) intf (rs, rt, ch, ev) e = (rs', rt', ch', ev')"
  shows "source_look ROUTE_SOURCE_RIP rt' \<subseteq>\<^sub>m source_look ROUTE_SOURCE_RIP rt"
proof (cases "re_AddressFamily e = RIP_ADDRESS_FAMILY_IP")
  case ip: True
  let ?m = "subnetMaskToMaskBits (re_SubnetMask e)"
  let ?n = "IPUint32ToString (re_IPAddress e AND mask32 ?m)"
  have a: "rip_apply now (IPUint32ToString g) intf (?n, ?m) RIP_MAX_METRIC (rs, rt, ch, ev) = (rs', rt', ch', ev')"
    using step ip
    by (simp add: process_entry_def Let_def ApplyMask_IPUint32ToString subnetMaskToMaskBits_le received_poison [OF m]
        del: rip_apply.simps)
  have inv': "rip_inv rs' rt'" by (rule rip_inv_process_entry [OF inv step])
  have "live_route rs' \<subseteq>\<^sub>m live_route rs"
  proof (cases "rip_lookup rs (?n, ?m)")
    case None
    with a show ?thesis by simp
  next
    case (Some r)
    have "rs' = rs \<or> rs' = rip_put rs (rip_refreshed now r intf RIP_MAX_METRIC)"
      using a Some by (auto simp: Let_def split: if_splits)
    moreover have "rr_IsExpired (rip_refreshed now r intf RIP_MAX_METRIC)" by (simp add: rip_refreshed_def Let_def)
    ultimately show ?thesis by (auto simp: live_route_put map_le_def split: if_splits)
  qed
  with inv inv' show ?thesis by (simp add: rip_inv_def)
qed (use step in \<open>simp add: process_entry_def\<close>)

lemma poison_steps:
  "rip_inv rs rt \<Longrightarrow> \<forall>e\<in>set es. re_Metric e = RIP_MAX_METRIC \<Longrightarrow>
     foldl (process_entry now (IPUint32ToString g) intf) (rs, rt, ch, ev) es = (rs', rt', ch', ev') \<Longrightarrow>
     source_look ROUTE_SOURCE_RIP rt' \<subseteq>\<^sub>m source_look ROUTE_SOURCE_RIP rt"
proof (induction es arbitrary: rs rt ch ev)
  case (Cons e es)
  obtain rs1 rt1 ch1 ev1 where
    1: "process_entry now (IPUint32ToString g) intf (rs, rt, ch, ev) e = (rs1, rt1, ch1, ev1)"
    by (cases "process_entry now (IPUint32ToString g) intf (rs, rt, ch, ev) e") auto
  have "source_look ROUTE_SOURCE_RIP rt' \<subseteq>\<^sub>m source_look ROUTE_SOURCE_RIP rt1"
    by (rule Cons.IH [OF rip_inv_process_entry [OF Cons.prems(1) 1]]) (use Cons.prems 1 in simp_all)
  moreover have "source_look ROUTE_SOURCE_RIP rt1 \<subseteq>\<^sub>m source_look ROUTE_SOURCE_RIP rt"
    by (rule poison_step [OF Cons.prems(1) _ 1]) (use Cons.prems in simp)
  ultimately show ?case by (rule map_le_trans)
qed simp

section \<open>Stopping\<close>

lemma StopRIP_clears:
  assumes "rip_inv (rip_routes rip) rt" "rip_enabled rip" "StopRIP rip rt = (rip', rt')"
  shows "rip_inv (rip_routes rip') rt' \<and> rip_routes rip' = []"
proof -
  have "source_look ROUTE_SOURCE_RIP rt' = live_route []"
    using assms by (auto simp: StopRIP_def source_look_def rt_map_DeleteRouteBySource live_route_def)
  moreover have "rt_inv rt'" using assms rt_inv_DeleteRouteBySource by (auto simp: StopRIP_def rip_inv_def)
  ultimately show ?thesis using assms by (auto simp: StopRIP_def rip_inv_def)
qed

end
