(* ===== verification/Layer3.thy ===== *)
theory Layer3
  imports Icmp RipProofs
begin

text \<open>
  Layer 3 of \<open>src/src/l3_routing.go\<close> on a node: sending, forwarding and local delivery of IPv4
  packets, ICMP echo, RIP over IP, and the IP-in-IP tunnel of the explicit-route ping.
\<close>

section \<open>Sending\<close>

text \<open>The source address of a packet the node originates (None: an address that does not parse).\<close>

definition route_oif :: "Node \<Rightarrow> L3Route \<Rightarrow> string \<Rightarrow> nat option" where
  "route_oif node route dstIPStr =
     (if r_OIF route \<noteq> [] then get_node_if_by_name (nd_intf node) (r_OIF route)
      else node_get_matching_subnet_interface node dstIPStr)"

definition choose_source :: "Node \<Rightarrow> Interface option \<Rightarrow> u32 \<Rightarrow> u32" where
  "choose_source node oif preferredSrcIP =
     (if preferredSrcIP \<noteq> 0 then preferredSrcIP
      else if (case oif of None \<Rightarrow> False | Some intf \<Rightarrow> IsIPConfigured intf)
      then ip_to_u32 (GetIP (the oif))
      else if nd_is_loopback_config node then ip_to_u32 (nd_loopback_addr node)
      else 0)"

definition local_ip_packet :: "byte \<Rightarrow> u32 \<Rightarrow> u32 \<Rightarrow> byte \<Rightarrow> bytes \<Rightarrow> bytes" where
  "local_ip_packet protocol srcIP dstIP ttl payload =
     SerializeIPHeader (InitializeIPHeader\<lparr>ih_Protocol := protocol, ih_DstIP := dstIP, ih_TTL := ttl,
       ih_SrcIP := srcIP, ih_TotalLen := word_of_nat (20 + length payload)\<rparr>) @ payload"

definition demotePacketToLayer3WithOptions ::
  "env \<Rightarrow> bytes \<Rightarrow> byte \<Rightarrow> u32 \<Rightarrow> u32 \<Rightarrow> byte \<Rightarrow> Node \<Rightarrow> result" where
  "demotePacketToLayer3WithOptions env payload protocol dstIP preferredSrcIP ttl node =
     (if length payload > 65515 then (node, [])
      else case LookupLPM (nd_rt node) dstIP of
        None \<Rightarrow> (node, [Emit (ipProtocolName protocol) ''packet_dropped'' ''no_route''])
      | Some route \<Rightarrow>
          (let oif = (case route_oif node route (IPUint32ToString dstIP) of
                        None \<Rightarrow> None | Some i \<Rightarrow> intf_of node i);
               pkt = local_ip_packet protocol (choose_source node oif preferredSrcIP) dstIP ttl payload
           in then_do (node, [Emit (ipProtocolName protocol) ''route_selected'' []])
                (\<lambda>node. if r_IsDirect route then DemotePacketToLayer2 env dstIP [] pkt ETHERTYPE_IP node
                        else case IPStringToUint32 (r_GatewayIP route) of
                          Inl _ \<Rightarrow> (node, [])
                        | Inr nextHopIP \<Rightarrow> DemotePacketToLayer2 env nextHopIP (r_OIF route) pkt ETHERTYPE_IP node)))"

definition demotePacketToLayer3WithSource :: "env \<Rightarrow> bytes \<Rightarrow> byte \<Rightarrow> u32 \<Rightarrow> u32 \<Rightarrow> Node \<Rightarrow> result" where
  "demotePacketToLayer3WithSource env payload protocol dstIP preferredSrcIP =
     demotePacketToLayer3WithOptions env payload protocol dstIP preferredSrcIP 64"

definition demotePacketToLayer3WithTTL :: "env \<Rightarrow> bytes \<Rightarrow> byte \<Rightarrow> u32 \<Rightarrow> byte \<Rightarrow> Node \<Rightarrow> result" where
  "demotePacketToLayer3WithTTL env payload protocol dstIP ttl =
     demotePacketToLayer3WithOptions env payload protocol dstIP 0 ttl"

definition DemotePacketToLayer3 :: "env \<Rightarrow> bytes \<Rightarrow> byte \<Rightarrow> u32 \<Rightarrow> Node \<Rightarrow> result" where
  "DemotePacketToLayer3 env payload protocol dstIP =
     demotePacketToLayer3WithSource env payload protocol dstIP 0"

text \<open>\<open>sendICMPErrorRouted\<close> of l3_icmp.go: the report comes from the interface that saw the failure.\<close>

definition sendICMPErrorRouted ::
  "env \<Rightarrow> nat \<Rightarrow> bytes \<Rightarrow> IPHeader \<Rightarrow> byte \<Rightarrow> byte \<Rightarrow> Node \<Rightarrow> result" where
  "sendICMPErrorRouted env ingress origPkt origHdr icmpType icmpCode node =
     (if \<not> icmpErrorPermitted origHdr origPkt then (node, [])
      else
        (let srcIP = (case intf_of node ingress of None \<Rightarrow> 0 | Some intf \<Rightarrow> intf_ip_u32 intf);
             msg = buildICMPError origPkt icmpType icmpCode
         in then_do (node, [Emit ''ICMP'' ''icmp_error_created'' []])
              (demotePacketToLayer3WithSource env msg PROTO_ICMP (ih_SrcIP origHdr) srcIP)))"

section \<open>Echo requests\<close>

definition Layer5PingFunc :: "env \<Rightarrow> string \<Rightarrow> Node \<Rightarrow> result" where
  "Layer5PingFunc env dstIPAddr node =
     (case IPStringToUint32 dstIPAddr of
        Inl _ \<Rightarrow> (node, [])
      | Inr dstIP \<Rightarrow> DemotePacketToLayer3 env newICMPEchoRequest PROTO_ICMP dstIP node)"

definition Layer5TracerouteProbeFunc :: "env \<Rightarrow> string \<Rightarrow> byte \<Rightarrow> Node \<Rightarrow> result" where
  "Layer5TracerouteProbeFunc env dstIPAddr ttl node =
     (case IPStringToUint32 dstIPAddr of
        Inl _ \<Rightarrow> (node, [])
      | Inr dstIP \<Rightarrow>
          demotePacketToLayer3WithTTL env (newICMPEchoRequestWithSequence (ucast ttl)) PROTO_ICMP dstIP ttl node)"

definition Layer3EroPingFunc :: "env \<Rightarrow> string \<Rightarrow> string \<Rightarrow> Node \<Rightarrow> result" where
  "Layer3EroPingFunc env dstIPAddr eroIPAddr node =
     then_do (node, [Emit ''ICMP'' ''ero_ping_started'' []])
       (\<lambda>node. case (IPStringToUint32 dstIPAddr, IPStringToUint32 eroIPAddr) of
          (Inr dstIP, Inr eroIP) \<Rightarrow>
            DemotePacketToLayer3 env
              (local_ip_packet PROTO_ICMP (ip_to_u32 (nd_loopback_addr node)) dstIP 64 newICMPEchoRequest)
              IPPROTO_IPIP eroIP node
        | _ \<Rightarrow> (node, []))"

section \<open>RIP over IP\<close>

text \<open>\<open>SendRoutingUpdates\<close>: each response goes through \<open>DemotePacketToLayer3\<close> with protocol 200.\<close>

fun demote_all :: "env \<Rightarrow> (u32 \<times> bytes) list \<Rightarrow> Node \<Rightarrow> result" where
  "demote_all env [] node = (node, [])"
| "demote_all env ((dst, data) # rest) node =
     then_do (DemotePacketToLayer3 env data PROTO_RIP dst node) (demote_all env rest)"

definition node_send_routing_updates :: "env \<Rightarrow> Node \<Rightarrow> result" where
  "node_send_routing_updates env node =
     demote_all env (SendRoutingUpdates (nd_rip node) (nd_rt node) (e_peer env) (nd_intf node)) node"

definition node_process_rip :: "env \<Rightarrow> nat \<Rightarrow> u32 \<Rightarrow> RIPPacket \<Rightarrow> Node \<Rightarrow> result" where
  "node_process_rip env iif srcIP packet node =
     (let out = ProcessRIPPacket (nd_rip node) (nd_rt node) (e_now env) packet (IPUint32ToString srcIP)
                  (intf_name_of node iif);
          node1 = node\<lparr>nd_rip := ro_state out, nd_rt := ro_rt out\<rparr>
      in if ro_respond out then node_send_routing_updates env node1
         else (node1,
               (if rip_enabled (nd_rip node) \<and> rp_Command packet = RIP_COMMAND_RESPONSE
                then [Emit ''RIP'' ''rip_update_received'' []] else [])
               @ map (\<lambda>(action, _). Emit ''RIP'' action []) (ro_events out)))"

section \<open>Local delivery\<close>

text \<open>
  \<open>DecapsulateIPinIP\<close>: the inner packet that is put back into layer 3, if the outer one is for this
  node and the inner one parses.
\<close>

definition tunnel_end :: "Node \<Rightarrow> u32 \<Rightarrow> bool" where
  "tunnel_end node dst \<longleftrightarrow>
     (nd_is_loopback_config node \<and> ip_to_u32 (nd_loopback_addr node) = dst)
     \<or> list_ex (\<lambda>x. case x of None \<Rightarrow> False
                     | Some intf \<Rightarrow> IS_INTF_L3_MODE intf \<and> ip_to_u32 (GetIP intf) = dst) (nd_intf node)"

definition DecapsulateIPinIP :: "Node \<Rightarrow> IPHeader \<Rightarrow> bytes \<Rightarrow> bytes option" where
  "DecapsulateIPinIP node outerIPHdr pkt =
     (if \<not> tunnel_end node (ih_DstIP outerIPHdr) then None
      else if length pkt < GetIPHeaderLen outerIPHdr then None
      else
        (let innerIPPkt = drop (GetIPHeaderLen outerIPHdr) pkt in
         if length innerIPPkt < 20 then None
         else case DeserializeIPHeader innerIPPkt of Inl _ \<Rightarrow> None | Inr _ \<Rightarrow> Some innerIPPkt))"

text \<open>
  \<open>handleLocalIPPacket\<close>: either the packet is done with, or an inner packet is received again.
\<close>

datatype local_outcome = Handled Node "eff list" | Reinjected bytes

definition handled :: "result \<Rightarrow> local_outcome" where
  "handled r = Handled (fst r) (snd r)"

definition handle_local_icmp :: "env \<Rightarrow> IPHeader \<Rightarrow> bytes \<Rightarrow> Node \<Rightarrow> result" where
  "handle_local_icmp env ipHdr payload node =
     (if length payload < 8 then (node, [])
      else if payload ! 0 = 8 then
        then_do (node, [Emit ''ICMP'' ''icmp_echo_request_received'' [], Emit ''ICMP'' ''icmp_echo_reply_created'' []])
          (DemotePacketToLayer3 env (icmp_echo_reply payload) PROTO_ICMP (ih_SrcIP ipHdr))
      else if payload ! 0 = 0 then
        (node\<lparr>nd_ping_reply_count := nd_ping_reply_count node + 1\<rparr>,
         [Emit ''ICMP'' ''icmp_echo_reply_received'' []])
      else if isICMPErrorType (payload ! 0) then handleICMPError ipHdr payload node
      else (node, []))"

definition handleLocalIPPacket :: "env \<Rightarrow> nat \<Rightarrow> IPHeader \<Rightarrow> bytes \<Rightarrow> Node \<Rightarrow> local_outcome" where
  "handleLocalIPPacket env iif ipHdr pkt node =
     (let payload = slice pkt (GetIPHeaderLen ipHdr) (unat (ih_TotalLen ipHdr)) in
      if ih_Protocol ipHdr = PROTO_ICMP then handled (handle_local_icmp env ipHdr payload node)
      else if ih_Protocol ipHdr = PROTO_MTCP then Handled node []
      else if ih_Protocol ipHdr = PROTO_USERAPP1 then Handled node []
      else if ih_Protocol ipHdr = IPPROTO_IPIP then
        (case DecapsulateIPinIP node ipHdr pkt of
           None \<Rightarrow> Handled node [] | Some inner \<Rightarrow> Reinjected inner)
      else if ih_Protocol ipHdr = PROTO_RIP then
        (case DeserializeRIPPacket payload of
           Inl _ \<Rightarrow> Handled node []
         | Inr packet \<Rightarrow> handled (node_process_rip env iif (ih_SrcIP ipHdr) packet node))
      else Handled node [])"

section \<open>Forwarding\<close>

text \<open>A hop: the TTL goes down by one and the header checksum is repaired.\<close>

definition decrement_ttl :: "IPHeader \<Rightarrow> bytes \<Rightarrow> bytes" where
  "decrement_ttl ipHdr pkt =
     (let pkt1 = pkt[8 := ih_TTL ipHdr - 1]
      in setIPHeaderChecksum (take (GetIPHeaderLen ipHdr) pkt1) @ drop (GetIPHeaderLen ipHdr) pkt1)"

definition route_interface :: "Node \<Rightarrow> L3Route \<Rightarrow> u32 \<Rightarrow> string" where
  "route_interface node route dstIP =
     (if r_IsDirect route \<and> r_OIF route = [] then
        (case node_get_matching_subnet_interface node (IPUint32ToString dstIP) of
           None \<Rightarrow> [] | Some i \<Rightarrow> intf_name_of node i)
      else r_OIF route)"

definition forward_ip_packet :: "env \<Rightarrow> nat \<Rightarrow> IPHeader \<Rightarrow> bytes \<Rightarrow> Node \<Rightarrow> result" where
  "forward_ip_packet env iif ipHdr pkt node =
     (let proto = ipProtocolName (ih_Protocol ipHdr) in
      case LookupLPM (nd_rt node) (ih_DstIP ipHdr) of
        None \<Rightarrow> (node, [Emit proto ''packet_dropped'' ''no_route''])
      | Some route \<Rightarrow>
          if ih_TTL ipHdr \<le> 1 then
            then_do (node, [Emit proto ''route_selected'' [], Emit proto ''packet_dropped'' ''ttl_expired''])
              (sendICMPErrorRouted env iif pkt ipHdr ICMP_TYPE_TIME_EXCEEDED ICMP_CODE_TTL_EXCEEDED)
          else
            then_do (node, [Emit proto ''route_selected'' [], Emit proto ''packet_forwarding_started'' []])
              (\<lambda>node.
                 if r_IsDirect route
                 then DemotePacketToLayer2 env (ih_DstIP ipHdr) (route_interface node route (ih_DstIP ipHdr))
                        (decrement_ttl ipHdr pkt) ETHERTYPE_IP node
                 else case IPStringToUint32 (r_GatewayIP route) of
                   Inl _ \<Rightarrow> (node, [])
                 | Inr nextHopIP \<Rightarrow>
                     DemotePacketToLayer2 env nextHopIP (r_OIF route) (decrement_ttl ipHdr pkt) ETHERTYPE_IP node))"

section \<open>Reception\<close>

lemma reinjected_shorter:
  assumes "DeserializeIPHeader pkt = Inr ipHdr"
    "handleLocalIPPacket env iif ipHdr (take (unat (ih_TotalLen ipHdr)) pkt) node = Reinjected inner"
  shows "length inner < length pkt"
proof -
  have h: "20 \<le> length pkt" "5 \<le> ih_IHL ipHdr"
    using assms(1) by (auto simp: DeserializeIPHeader_def Let_def not_less split: if_splits)
  then have "20 \<le> GetIPHeaderLen ipHdr" by (simp add: GetIPHeaderLen_def word_le_nat_alt)
  moreover have "inner = drop (GetIPHeaderLen ipHdr) (take (unat (ih_TotalLen ipHdr)) pkt)"
    using assms(2)
    by (auto simp: handleLocalIPPacket_def handled_def Let_def DecapsulateIPinIP_def split: if_splits option.splits sum.splits)
  ultimately show ?thesis using h(1) by simp
qed

text \<open>
  \<open>Layer3IPPacketRecvFromBottom\<close>; a tunnelled packet is received again without its outer header,
  so the recursion ends.
\<close>

function Layer3IPPacketRecvFromBottom :: "env \<Rightarrow> nat \<Rightarrow> bytes \<Rightarrow> Node \<Rightarrow> result" where
  "Layer3IPPacketRecvFromBottom env iif pkt node =
     (if length pkt < 20 then (node, [])
      else case DeserializeIPHeader pkt of
        Inl _ \<Rightarrow> (node, [])
      | Inr ipHdr \<Rightarrow>
          if \<not> validIPHeaderChecksum (take (GetIPHeaderLen ipHdr) pkt)
          then (node, [Emit (ipProtocolName (ih_Protocol ipHdr)) ''packet_dropped'' ''bad_header_checksum''])
          else if IsLayer3LocalDelivery node (ih_DstIP ipHdr) then
            (case handleLocalIPPacket env iif ipHdr (take (unat (ih_TotalLen ipHdr)) pkt) node of
               Handled node1 es \<Rightarrow> (node1, es)
             | Reinjected inner \<Rightarrow> Layer3IPPacketRecvFromBottom env iif inner node)
          else forward_ip_packet env iif ipHdr pkt node)"
  by pat_completeness auto
termination
  by (relation "measure (\<lambda>(_, _, pkt, _). length pkt)") (auto intro: reinjected_shorter)

declare Layer3IPPacketRecvFromBottom.simps [simp del]

definition PromotePacketToLayer3 :: "env \<Rightarrow> nat \<Rightarrow> bytes \<Rightarrow> u16 \<Rightarrow> Node \<Rightarrow> result" where
  "PromotePacketToLayer3 env iif pkt protocol node =
     (if protocol = ETHERTYPE_IP \<or> protocol = ucast PROTO_IP_IN_IP
      then Layer3IPPacketRecvFromBottom env iif pkt node else (node, []))"

end
