(* ===== verification/InterVlan.thy ===== *)
theory InterVlan
  imports Layer3
begin

text \<open>
  The rest of \<open>src/src/l2_switch.go\<close>: routing between VLANs through the switch's own virtual
  interfaces, and \<open>l2_switch_recv_frame\<close>, the entry point of switching.
\<close>

section \<open>Deciding to route\<close>

definition ip_offset :: "bytes \<Rightarrow> nat" where
  "ip_offset pkt =
     (if length pkt \<ge> VLAN_HEADER_SIZE \<and> pkt ! 12 = 0x81 \<and> pkt ! 13 = 0x00 then VLAN_HEADER_SIZE
      else ETHERNET_HDR_SIZE)"

definition should_route_between_vlans :: "Node \<Rightarrow> bytes \<Rightarrow> u16 \<Rightarrow> bool" where
  "should_route_between_vlans node pkt src_vlan =
     (let off = ip_offset pkt in
      if length pkt < off + 20 then False
      else
        (let dst_ip = u32_at pkt (off + 16) in
         if nd_vlan_interfaces node = [] then False
         else if list_ex (\<lambda>v. vi_vlan_id v \<noteq> src_vlan \<and> ip_in_subnet (u32_to_ip dst_ip) (vi_ip_addr v) (vi_mask v))
                   (nd_vlan_interfaces node) then True
         else if \<not> HasVlanInterface node src_vlan then False
         else case deserialize_ethernet_header pkt of
           Inl _ \<Rightarrow> False
         | Inr eth_hdr \<Rightarrow>
             if \<not> node_owns_mac node (dst_mac eth_hdr) then False
             else if node_owns_ip node dst_ip then False
             else LookupLPM (nd_rt node) dst_ip \<noteq> None))"

section \<open>Egress\<close>

text \<open>\<open>strconv.ParseUint(s, 10, 16)\<close>.\<close>

definition parse_uint16 :: "string \<Rightarrow> u16 option" where
  "parse_uint16 s =
     (if s \<noteq> [] \<and> list_all is_digit s \<and> foldl (\<lambda>n c. 10 * n + digit_val c) 0 s \<le> 65535
      then Some (word_of_nat (foldl (\<lambda>n c. 10 * n + digit_val c) 0 s)) else None)"

definition svi_egress_vlan :: "Node \<Rightarrow> L3Route \<Rightarrow> u32 \<Rightarrow> u16 option" where
  "svi_egress_vlan node route next_hop_ip =
     (let by_name =
            (if take 4 (r_OIF route) = ''vlan'' then
               (case parse_uint16 (drop 4 (r_OIF route)) of
                  None \<Rightarrow> None
                | Some vlan_id \<Rightarrow> if HasVlanInterface node vlan_id then Some vlan_id else None)
             else None)
      in if by_name \<noteq> None then by_name
         else map_option vi_vlan_id
                (find (\<lambda>v. ip_in_subnet (u32_to_ip next_hop_ip) (vi_ip_addr v) (vi_mask v)) (nd_vlan_interfaces node)))"

fun vlan_port_mac :: "u16 \<Rightarrow> intf_array \<Rightarrow> MacAddr option" where
  "vlan_port_mac vlan_id [] = None"
| "vlan_port_mac vlan_id (None # rest) = vlan_port_mac vlan_id rest"
| "vlan_port_mac vlan_id (Some intf # rest) =
     (if \<not> IS_INTF_L3_MODE intf \<and> IsVLANAllowed intf vlan_id then Some (GetMac intf)
      else vlan_port_mac vlan_id rest)"

definition vlan_source_mac :: "Node \<Rightarrow> u16 \<Rightarrow> string \<Rightarrow> MacAddr option" where
  "vlan_source_mac node vlan_id oif_name =
     (case (if oif_name \<noteq> [] then get_node_if_by_name (nd_intf node) oif_name else None) of
        Some i \<Rightarrow> map_option GetMac (intf_of node i)
      | None \<Rightarrow> vlan_port_mac vlan_id (nd_intf node))"

definition mac_or_zero :: "MacAddr option \<Rightarrow> MacAddr" where
  "mac_or_zero m = (case m of None \<Rightarrow> zero_mac | Some mac \<Rightarrow> mac)"

definition build_routed_frame :: "MacAddr option \<Rightarrow> MacAddr option \<Rightarrow> bytes \<Rightarrow> bytes option" where
  "build_routed_frame dst src ip_pkt = ethernet_frame (mac_or_zero dst) (mac_or_zero src) ETHERTYPE_IP ip_pkt"

definition forward_routed_packet_in_vlan :: "env \<Rightarrow> nat \<Rightarrow> u16 \<Rightarrow> u32 \<Rightarrow> bytes \<Rightarrow> Node \<Rightarrow> result" where
  "forward_routed_packet_in_vlan env iif dest_vlan next_hop_ip ip_pkt node =
     (if ip_pkt = [] then (node, [])
      else case build_routed_frame None (vlan_source_mac node dest_vlan []) ip_pkt of
        None \<Rightarrow> (node, [])
      | Some frame \<Rightarrow>
          (let nextHop = u32_to_ip next_hop_ip;
               nextHopStr = IPUint32ToString next_hop_ip;
               (table', r) =
                 arp_table_resolve_or_queue (nd_arp node) (e_now env) nextHop (vlan_if_name dest_vlan)
                   frame (length frame) (Some (ForwardRouted iif dest_vlan nextHop))
                   (Some (DropRouted dest_vlan nextHop frame)) (Some (RetryVlanRequest dest_vlan nextHopStr));
               node1 = node\<lparr>nd_arp := table'\<rparr>
           in case r of
                Resolved mac \<Rightarrow>
                  (let oif_name = mac_table_lookup_vlan (nd_mac node1) mac dest_vlan in
                   case build_routed_frame (Some mac) (vlan_source_mac node1 dest_vlan oif_name) ip_pkt of
                     None \<Rightarrow> (node1, [])
                   | Some resolved \<Rightarrow> (node1, l2_switch_forward_frame_vlan env node1 iif resolved dest_vlan True))
              | Rejected \<Rightarrow> (node1, [])
              | Queued request_needed \<Rightarrow>
                  (node1, Emit ''ARP'' ''arp_lookup_missed'' [] #
                     (if request_needed then send_vlan_arp_request env node1 dest_vlan nextHopStr else []))))"

section \<open>Routing\<close>

definition report_inter_vlan_icmp_error ::
  "env \<Rightarrow> nat \<Rightarrow> u16 \<Rightarrow> bytes \<Rightarrow> byte \<Rightarrow> byte \<Rightarrow> Node \<Rightarrow> result" where
  "report_inter_vlan_icmp_error env iif src_vlan ip_pkt icmp_type icmp_code node =
     (if length ip_pkt < 20 then (node, [])
      else case GetVlanInterface node src_vlan of
        None \<Rightarrow> (node, [])
      | Some svi \<Rightarrow>
          (case DeserializeIPHeader ip_pkt of
             Inl _ \<Rightarrow> (node, [])
           | Inr orig_hdr \<Rightarrow>
               sendICMPErrorViaInterface env iif (ip_to_u32 (vi_ip_addr svi)) ip_pkt orig_hdr icmp_type icmp_code node))"

text \<open>Where a route sends a packet: into a VLAN, out of a routed port, or nowhere.\<close>

datatype egress = ViaVlan u16 | ViaPort | NoEgress

definition route_egress :: "Node \<Rightarrow> L3Route \<Rightarrow> u32 \<Rightarrow> egress" where
  "route_egress node route next_hop_ip =
     (case svi_egress_vlan node route next_hop_ip of
        Some vlan_id \<Rightarrow> ViaVlan vlan_id
      | None \<Rightarrow> if get_node_if_by_name (nd_intf node) (r_OIF route) = None then NoEgress else ViaPort)"

definition next_hop_of :: "L3Route \<Rightarrow> u32 \<Rightarrow> string + u32" where
  "next_hop_of route dstIP =
     (if \<not> r_IsDirect route \<and> r_GatewayIP route \<noteq> [] then IPStringToUint32 (r_GatewayIP route) else Inr dstIP)"

definition route_between_vlans :: "env \<Rightarrow> nat \<Rightarrow> bytes \<Rightarrow> u16 \<Rightarrow> Node \<Rightarrow> result" where
  "route_between_vlans env iif pkt src_vlan node =
     (let off = ip_offset pkt in
      if length pkt < off + 20 then (node, [])
      else case DeserializeIPHeader (drop off pkt) of
        Inl _ \<Rightarrow> (node, [])
      | Inr ip_hdr \<Rightarrow>
          (let ip_pkt = take (unat (ih_TotalLen ip_hdr)) (drop off pkt);
               protocol = frameProtocol pkt
           in case LookupLPM (nd_rt node) (ih_DstIP ip_hdr) of
                None \<Rightarrow>
                  then_do (node, [Emit protocol ''packet_dropped'' ''no_route''])
                    (report_inter_vlan_icmp_error env iif src_vlan ip_pkt
                       ICMP_TYPE_DEST_UNREACHABLE ICMP_CODE_NET_UNREACHABLE)
              | Some route \<Rightarrow>
                  (case next_hop_of route (ih_DstIP ip_hdr) of
                     Inl _ \<Rightarrow> (node, [])
                   | Inr next_hop_ip \<Rightarrow>
                       (case route_egress node route next_hop_ip of
                          NoEgress \<Rightarrow>
                            then_do (node, [Emit protocol ''packet_dropped'' ''no_egress_interface''])
                              (report_inter_vlan_icmp_error env iif src_vlan ip_pkt
                                 ICMP_TYPE_DEST_UNREACHABLE ICMP_CODE_HOST_UNREACHABLE)
                        | via \<Rightarrow>
                            if ih_TTL ip_hdr \<le> 1 then
                              then_do (node, [Emit protocol ''inter_vlan_route_selected'' [],
                                              Emit protocol ''packet_dropped'' ''ttl_expired''])
                                (report_inter_vlan_icmp_error env iif src_vlan ip_pkt
                                   ICMP_TYPE_TIME_EXCEEDED ICMP_CODE_TTL_EXCEEDED)
                            else
                              then_do (node, [Emit protocol ''inter_vlan_route_selected'' [],
                                              Emit protocol ''inter_vlan_forwarding_started'' []])
                                (case via of
                                   ViaVlan dest_vlan \<Rightarrow>
                                     forward_routed_packet_in_vlan env iif dest_vlan next_hop_ip
                                       (decrement_ttl ip_hdr ip_pkt)
                                 | _ \<Rightarrow>
                                     DemotePacketToLayer2 env next_hop_ip (r_OIF route)
                                       (decrement_ttl ip_hdr ip_pkt) ETHERTYPE_IP)))))"

section \<open>Receiving on a switch port\<close>

definition switch_arp :: "env \<Rightarrow> nat \<Rightarrow> bytes \<Rightarrow> u16 \<Rightarrow> MacAddr \<Rightarrow> Node \<Rightarrow> result" where
  "switch_arp env iif pkt vlan_id dst node =
     (case (if is_frame_vlan_tagged pkt then remove_vlan_tag pkt else Inr pkt) of
        Inl _ \<Rightarrow> (node, [])
      | Inr local_pkt \<Rightarrow>
          if is_mac_broadcast dst then
            then_do (layer_2_frame_recv_arp env iif local_pkt node)
              (\<lambda>node1. (node1, l2_switch_flood_frame_vlan env node1 iif pkt vlan_id))
          else if node_owns_mac node dst then layer_2_frame_recv_arp env iif local_pkt node
          else (node, l2_switch_forward_frame_vlan env node iif pkt vlan_id False))"

definition switch_dispatch :: "env \<Rightarrow> nat \<Rightarrow> bytes \<Rightarrow> u16 \<Rightarrow> EthernetHeader \<Rightarrow> Node \<Rightarrow> result" where
  "switch_dispatch env iif pkt vlan_id eth_hdr node =
     (if ethertype eth_hdr = ETHERTYPE_ARP then switch_arp env iif pkt vlan_id (dst_mac eth_hdr) node
      else if ethertype eth_hdr = ETHERTYPE_IP \<and> should_route_between_vlans node pkt vlan_id
      then route_between_vlans env iif pkt vlan_id node
      else (node, l2_switch_forward_frame_vlan env node iif pkt vlan_id False))"

definition l2_switch_recv_frame :: "env \<Rightarrow> nat \<Rightarrow> bytes \<Rightarrow> Node \<Rightarrow> result" where
  "l2_switch_recv_frame env iif pkt node =
     (if length pkt < ETHERNET_HDR_SIZE then (node, [])
      else case intf_of node iif of
        None \<Rightarrow> (node, [])
      | Some intf \<Rightarrow>
          if \<not> port_can_learn env node intf
          then (node, [Emit (frameProtocol pkt) ''frame_dropped'' ''stp_port_not_forwarding''])
          else
            (let vlan_id = determine_frame_vlan intf pkt in
             if \<not> IsVLANAllowed intf vlan_id
             then (node, [Emit (frameProtocol pkt) ''frame_dropped'' ''vlan_not_allowed''])
             else case parse_ethernet_frame_with_vlan pkt of
               Inl _ \<Rightarrow> (node, [])
             | Inr (eth_hdr, _, _) \<Rightarrow>
                 then_do
                   (l2_switch_perform_mac_learning_vlan env (src_mac eth_hdr) vlan_id (get_interface_name intf) node)
                   (\<lambda>node1. if \<not> port_can_forward env node1 intf
                             then (node1, [Emit (frameProtocol pkt) ''frame_dropped'' ''stp_port_learning''])
                             else switch_dispatch env iif pkt vlan_id eth_hdr node1)))"

end
