(* ===== verification/Receive.thy ===== *)
theory Receive
  imports InterVlan
begin

text \<open>
  The receive path of a node, \<open>layer_2_frame_recv\<close> of \<open>src/src/l2_ethernet.go\<close>, and what its two
  control protocols do on a node: the advertisements of \<open>src/src/l2_lldp.go\<close> and the transmissions
  of \<open>src/src/l2_stp.go\<close>.  BPDUs draw on the graph's budget, which is threaded through.
\<close>

section \<open>LLDP on a node\<close>

definition intf_capability :: "Interface option \<Rightarrow> u16" where
  "intf_capability x =
     (case x of None \<Rightarrow> 0 | Some intf \<Rightarrow> if IS_INTF_L3_MODE intf then LLDP_CAP_ROUTER else LLDP_CAP_BRIDGE)"

definition nodeLLDPCapabilities :: "Node \<Rightarrow> u16" where
  "nodeLLDPCapabilities node =
     (let capabilities = foldl (\<lambda>c x. c OR intf_capability x) 0 (nd_intf node);
          capabilities = (if GetVlanInterfaceCount node > 0
                          then capabilities OR (LLDP_CAP_BRIDGE OR LLDP_CAP_ROUTER) else capabilities)
      in if capabilities = 0 then LLDP_CAP_OTHER else capabilities)"

definition buildLLDPDU :: "Node \<Rightarrow> Interface \<Rightarrow> u16 \<Rightarrow> LLDPDU" where
  "buildLLDPDU node intf ttl =
     (let capabilities = nodeLLDPCapabilities node in
      \<lparr>du_ChassisIDSubtype = LLDP_CHASSIS_ID_LOCAL, du_ChassisID = string_bytes (nd_name node),
       du_PortIDSubtype = LLDP_PORT_ID_INTERFACE_NAME, du_PortID = string_bytes (get_interface_name intf),
       du_TTL = ttl, du_SystemName = nd_name node, du_SystemDescription = ''Go Network Simulator'',
       du_SupportedCapabilities = capabilities, du_EnabledCapabilities = capabilities\<rparr>)"

definition sendLLDPAdvertisement :: "env \<Rightarrow> Node \<Rightarrow> nat \<Rightarrow> u16 \<Rightarrow> eff list" where
  "sendLLDPAdvertisement env node i ttl =
     (case intf_of node i of
        None \<Rightarrow> []
      | Some intf \<Rightarrow>
          if link intf = None then []
          else case serializeLLDPDU (buildLLDPDU node intf ttl) of
            Inl _ \<Rightarrow> []
          | Inr payload \<Rightarrow>
              (case ethernet_frame lldpMulticastMAC (GetMac intf) ETHERTYPE_LLDP payload of
                 None \<Rightarrow> []
               | Some frame \<Rightarrow>
                   Emit ''LLDP'' (if ttl = 0 then ''lldp_shutdown_advertisement_created''
                                  else ''lldp_advertisement_created'') [] # snd (send_frame env node frame i)))"

definition sendAdvertisementsWithTTL :: "env \<Rightarrow> Node \<Rightarrow> u16 \<Rightarrow> eff list" where
  "sendAdvertisementsWithTTL env node ttl =
     concat (map (\<lambda>i. sendLLDPAdvertisement env node i ttl) [0..<length (nd_intf node)])"

definition SendAdvertisements :: "env \<Rightarrow> Node \<Rightarrow> eff list" where
  "SendAdvertisements env node =
     (if \<not> lldp_enabled (nd_lldp node) then [] else sendAdvertisementsWithTTL env node LLDP_DEFAULT_TTL)"

definition StartLLDP :: "env \<Rightarrow> Node \<Rightarrow> result" where
  "StartLLDP env node =
     (if lldp_enabled (nd_lldp node) then (node, [])
      else
        (let node1 = node\<lparr>nd_lldp := (nd_lldp node)\<lparr>lldp_enabled := True\<rparr>\<rparr>
         in (node1, Emit ''LLDP'' ''lldp_enabled'' [] # SendAdvertisements env node1)))"

definition StopLLDP :: "env \<Rightarrow> Node \<Rightarrow> result" where
  "StopLLDP env node =
     (if \<not> lldp_enabled (nd_lldp node) then (node, [])
      else (node\<lparr>nd_lldp := \<lparr>lldp_enabled = False, lldp_neighbors = []\<rparr>\<rparr>,
            sendAdvertisementsWithTTL env node 0 @ [Emit ''LLDP'' ''lldp_disabled'' []]))"

definition node_remove_expired_neighbors :: "env \<Rightarrow> Node \<Rightarrow> result" where
  "node_remove_expired_neighbors env node =
     (let (lldp', expired) = RemoveExpiredNeighbors (nd_lldp node) (e_now env)
      in (node\<lparr>nd_lldp := lldp'\<rparr>, map (\<lambda>_. Emit ''LLDP'' ''lldp_neighbor_expired'' []) expired))"

definition layer2FrameRecvLLDP :: "env \<Rightarrow> nat \<Rightarrow> EthernetHeader \<Rightarrow> bytes \<Rightarrow> Node \<Rightarrow> result" where
  "layer2FrameRecvLLDP env iif ethHdr pkt node =
     (if length pkt < ETHERNET_HDR_SIZE then (node, [])
      else if \<not> lldp_enabled (nd_lldp node)
      then (node, [Emit ''LLDP'' ''lldp_frame_ignored'' ''lldp_disabled''])
      else
        (let out = LLDP_ProcessFrame (nd_lldp node) (e_now env) (e_trace env) (intf_name_of node iif) ethHdr
                     (drop ETHERNET_HDR_SIZE pkt);
             node1 = node\<lparr>nd_lldp := lo_state out\<rparr>
         in (node1,
             (case lo_error out of
                Some _ \<Rightarrow> [Emit ''LLDP'' ''frame_dropped'' ''invalid_lldp_frame'']
              | None \<Rightarrow>
                  (case lo_event out of None \<Rightarrow> [] | Some action \<Rightarrow> [Emit ''LLDP'' action []]) @
                  (if lo_reply out then sendLLDPAdvertisement env node1 iif LLDP_DEFAULT_TTL else [])))))"

section \<open>STP on a node\<close>

type_synonym stp_node = "Node \<times> int"

text \<open>\<open>emitChanges\<close>, then \<open>transmit\<close>: what follows every change of the spanning tree state.\<close>

definition stp_change_events :: "stpChange list \<Rightarrow> eff list" where
  "stp_change_events changes = map (\<lambda>_. Emit ''STP'' ''stp_port_role_changed'' []) changes"

definition send_bpdus :: "env \<Rightarrow> Node \<Rightarrow> (nat \<times> bytes) list \<Rightarrow> eff list" where
  "send_bpdus env node frames = concat (map (\<lambda>(i, frame). snd (send_frame env node frame i)) frames)"

definition apply_stp :: "env \<Rightarrow> stp_outcome \<Rightarrow> stp_node \<Rightarrow> stp_node \<times> eff list" where
  "apply_stp env out nb =
     (let (node, budget) = nb;
          node1 = node\<lparr>nd_stp := so_state out, nd_mac := so_macs out\<rparr>;
          (budget', frames) = transmit (nd_intf node) budget (so_pending out)
      in ((node1, budget'), stp_change_events (so_changes out) @ send_bpdus env node1 frames))"

definition tcn_events :: "bytes \<Rightarrow> eff list" where
  "tcn_events payload =
     (case deserializeBPDU payload of
        Inl _ \<Rightarrow> []
      | Inr bpdu \<Rightarrow> if Type bpdu = STP_BPDU_TYPE_TCN then [Emit ''STP'' ''stp_topology_change_notified'' []] else [])"

definition layer2FrameRecvSTP ::
  "env \<Rightarrow> nat \<Rightarrow> EthernetHeader \<Rightarrow> bytes \<Rightarrow> stp_node \<Rightarrow> stp_node \<times> eff list" where
  "layer2FrameRecvSTP env iif ethHdr pkt nb =
     (let (node, budget) = nb in
      if length pkt < ETHERNET_HDR_SIZE then (nb, [])
      else if \<not> st_enabled (nd_stp node) then (nb, [Emit ''STP'' ''stp_frame_ignored'' ''stp_disabled''])
      else case parseSTPFrame pkt of
        Inl _ \<Rightarrow> (nb, [Emit ''STP'' ''frame_dropped'' ''invalid_bpdu''])
      | Inr payload \<Rightarrow>
          (let out = ProcessBPDU (nd_stp node) (e_now env) (nd_mac node) (intf_name_of node iif) ethHdr payload
           in if so_error out \<noteq> None then (nb, [Emit ''STP'' ''frame_dropped'' ''invalid_bpdu''])
              else (let (nb', es) = apply_stp env out nb in (nb', tcn_events payload @ es))))"

definition node_start_stp :: "env \<Rightarrow> stp_node \<Rightarrow> stp_node \<times> eff list" where
  "node_start_stp env nb =
     (let (node, budget) = nb in
      if st_enabled (nd_stp node) then (nb, [])
      else
        (let (nb', es) = apply_stp env
               (StartSTP (nd_stp node) (e_links env) (nd_intf node) (e_now env) (nd_mac node)) nb
         in (nb', Emit ''STP'' ''stp_enabled'' [] # es)))"

definition node_stop_stp :: "Node \<Rightarrow> result" where
  "node_stop_stp node =
     (if \<not> st_enabled (nd_stp node) then (node, [])
      else (node\<lparr>nd_stp := StopSTP (nd_stp node)\<rparr>, [Emit ''STP'' ''stp_disabled'' []]))"

definition node_set_stp_priority :: "env \<Rightarrow> u16 \<Rightarrow> stp_node \<Rightarrow> (stp_node \<times> eff list) \<times> bool" where
  "node_set_stp_priority env priority nb =
     (let (node, budget) = nb;
          (out, ok) = SetPriority (nd_stp node) priority (e_now env) (nd_mac node)
      in (apply_stp env out nb, ok))"

definition node_converge :: "env \<Rightarrow> stp_node \<Rightarrow> stp_node \<times> eff list" where
  "node_converge env nb = apply_stp env (Converge (nd_stp (fst nb)) (e_now env) (nd_mac (fst nb))) nb"

definition node_age_out_bpdus :: "env \<Rightarrow> stp_node \<Rightarrow> stp_node \<times> eff list" where
  "node_age_out_bpdus env nb = apply_stp env (ageOutBPDUs (nd_stp (fst nb)) (e_now env) (nd_mac (fst nb))) nb"

definition node_send_hello :: "env \<Rightarrow> stp_node \<Rightarrow> stp_node \<times> eff list" where
  "node_send_hello env nb =
     (let (node, budget) = nb;
          (budget', frames) = transmit (nd_intf node) budget (SendHello (nd_stp node))
      in ((node, budget'), send_bpdus env node frames))"

definition node_advance_port_states :: "env \<Rightarrow> Node \<Rightarrow> result" where
  "node_advance_port_states env node =
     (let (stp', changes) = advancePortStates (nd_stp node) (e_now env)
      in (node\<lparr>nd_stp := stp'\<rparr>, stp_change_events changes))"

definition node_promote_forwarding_ports :: "Node \<Rightarrow> result" where
  "node_promote_forwarding_ports node =
     (let (stp', changes) = promoteForwardingPorts (nd_stp node)
      in (node\<lparr>nd_stp := stp'\<rparr>, stp_change_events changes))"

section \<open>The receive path\<close>

lemma remove_vlan_tag_shorter:
  assumes "remove_vlan_tag pkt = Inr p" "u16_at pkt 12 = VLAN_TPID" shows "length p < length pkt"
  using assms by (auto simp: remove_vlan_tag_def frame_lens split: if_splits)

text \<open>An operation that leaves the BPDU budget alone.\<close>

definition on_node :: "(Node \<Rightarrow> result) \<Rightarrow> stp_node \<Rightarrow> stp_node \<times> eff list" where
  "on_node f nb = (let (node', es) = f (fst nb) in ((node', snd nb), es))"

definition recv_l3 :: "env \<Rightarrow> nat \<Rightarrow> EthernetHeader \<Rightarrow> bytes \<Rightarrow> Node \<Rightarrow> result" where
  "recv_l3 env iif eth_hdr pkt node =
     (if ethertype eth_hdr = ETHERTYPE_ARP then layer_2_frame_recv_arp env iif pkt node
      else if ethertype eth_hdr = ETHERTYPE_IP then
        PromotePacketToLayer3 env iif (drop ETHERNET_HDR_SIZE pkt) ETHERTYPE_IP node
      else if ethertype eth_hdr = ETHERTYPE_IPV6
      then (node, [Emit ''IPV6'' ''frame_dropped'' ''protocol_not_implemented''])
      else (node, [Emit ''ETHERNET'' ''frame_dropped'' ''unsupported_ethertype'']))"

function layer_2_frame_recv :: "env \<Rightarrow> nat \<Rightarrow> bytes \<Rightarrow> stp_node \<Rightarrow> stp_node \<times> eff list" where
  "layer_2_frame_recv env iif pkt nb =
     (if pkt = [] then (nb, [])
      else case intf_of (fst nb) iif of
        None \<Rightarrow> (nb, [])
      | Some intf \<Rightarrow>
          if length pkt < ETHERNET_HDR_SIZE then (nb, [Emit ''ETHERNET'' ''frame_dropped'' ''frame_too_small''])
          else case deserialize_ethernet_header pkt of
            Inl _ \<Rightarrow> (nb, [Emit ''ETHERNET'' ''frame_dropped'' ''invalid_ethernet_header''])
          | Inr eth_hdr \<Rightarrow>
              if ethertype eth_hdr = ETHERTYPE_LLDP \<or> isLLDPMulticastMAC (dst_mac eth_hdr)
              then on_node (layer2FrameRecvLLDP env iif eth_hdr pkt) nb
              else if isSTPBridgeGroupMAC (dst_mac eth_hdr) then layer2FrameRecvSTP env iif eth_hdr pkt nb
              else if \<not> IS_INTF_L3_MODE intf then on_node (l2_switch_recv_frame env iif pkt) nb
              else if \<not> l2_frame_recv_qualify_on_iface intf eth_hdr
              then (nb, [Emit (frameProtocol pkt) ''frame_dropped'' ''destination_mac_not_accepted''])
              else if ethertype eth_hdr = ETHERTYPE_VLAN then
                (if length pkt < VLAN_HEADER_SIZE
                 then (nb, [Emit ''ETHERNET'' ''frame_dropped'' ''invalid_vlan_header''])
                 else case remove_vlan_tag pkt of
                   Inl _ \<Rightarrow> (nb, [Emit ''ETHERNET'' ''frame_dropped'' ''invalid_vlan_header''])
                 | Inr untaggedPkt \<Rightarrow> layer_2_frame_recv env iif untaggedPkt nb)
              else on_node (recv_l3 env iif eth_hdr pkt) nb)"
  by pat_completeness auto
termination
  by (relation "measure (\<lambda>(_, _, pkt, _). length pkt)")
     (auto simp: deserialize_ethernet_header_def ETHERTYPE_VLAN_def VLAN_TPID_def
        intro!: remove_vlan_tag_shorter split: if_splits)

declare layer_2_frame_recv.simps [simp del]

text \<open>\<open>deliverTransportFrame\<close> of transport.go, on the interface a frame arrives at.\<close>

definition deliverTransportFrame :: "env \<Rightarrow> nat \<Rightarrow> bytes \<Rightarrow> stp_node \<Rightarrow> stp_node \<times> eff list" where
  "deliverTransportFrame env iif frame nb =
     (case intf_of (fst nb) iif of
        None \<Rightarrow> (nb, [])
      | Some intf \<Rightarrow>
          if link intf = None \<or> \<not> IsUp (e_links env) (link intf) \<or> frame = [] then (nb, [])
          else
            (let received = (if get_remote_interface (e_links env) (e_self env, iif) intf \<noteq> None
                             then [Emit (frameProtocol frame) ''frame_received'' []] else []);
                 (nb', es) = layer_2_frame_recv env iif frame nb
             in (nb', received @ es)))"

end
