(* ===== verification/StpProofs.thy ===== *)
theory StpProofs
  imports Stp
begin

text \<open>
  Correctness of the spanning tree computation of \<open>Stp\<close>: the elected root is the best identifier
  known, the root port is the cheapest way to it, roles and states agree, recomputation is stable,
  recorded information only improves, one bridge is designated per segment, and a port waits two
  forward delays before it relays.
\<close>

named_theorems stp_keep \<open>fields the role assignment leaves alone\<close>

section \<open>Role assignment\<close>

lemma setPortRole_keep [simp, stp_keep]:
  "sp_name (fst (setPortRole fd now p r)) = sp_name p"
  "sp_portID (fst (setPortRole fd now p r)) = sp_portID p"
  "sp_pathCost (fst (setPortRole fd now p r)) = sp_pathCost p"
  "sp_hasBPDU (fst (setPortRole fd now p r)) = sp_hasBPDU p"
  "sp_received (fst (setPortRole fd now p r)) = sp_received p"
  "sp_messageAge (fst (setPortRole fd now p r)) = sp_messageAge p"
  "sp_intf (fst (setPortRole fd now p r)) = sp_intf p"
  "sp_role (fst (setPortRole fd now p r)) = r"
  by (simp_all add: setPortRole_def Let_def)

text \<open>What ties the state of a port to its role and its timer.\<close>

definition port_ok :: "STPPort \<Rightarrow> bool" where
  "port_ok p \<longleftrightarrow>
     (sp_state p \<in> {STP_STATE_LISTENING, STP_STATE_LEARNING, STP_STATE_FORWARDING} \<longrightarrow>
        sp_role p \<in> {STP_ROLE_ROOT, STP_ROLE_DESIGNATED}) \<and>
     (sp_stateDeadline p \<noteq> None \<longleftrightarrow> sp_state p \<in> {STP_STATE_LISTENING, STP_STATE_LEARNING})"

lemma port_ok_setPortRole: "port_ok p \<Longrightarrow> port_ok (fst (setPortRole fd now p r))"
  by (auto simp: port_ok_def setPortRole_def Let_def)

lemma setPortRole_state:
  "r \<in> {STP_ROLE_ROOT, STP_ROLE_DESIGNATED} \<Longrightarrow>
     sp_state (fst (setPortRole fd now p r)) \<in> {STP_STATE_LISTENING, STP_STATE_LEARNING, STP_STATE_FORWARDING}"
  "r \<notin> {STP_ROLE_ROOT, STP_ROLE_DESIGNATED} \<Longrightarrow>
     sp_state (fst (setPortRole fd now p r)) = STP_STATE_BLOCKING"
  by (auto simp: setPortRole_def Let_def)

lemma setPortRole_stable:
  "sp_state (fst (setPortRole fd now' (fst (setPortRole fd now p r)) r)) = sp_state (fst (setPortRole fd now p r))"
  by (auto simp: setPortRole_def Let_def)

section \<open>The elected root\<close>

lemma elect_root_scan:
  "elect_root b ports = bid.scan_min b (map (\<lambda>p. pv_RootID (sp_received p)) (filter sp_hasBPDU ports))"
  by (induction ports arbitrary: b) (auto simp: elect_root_def bid.scan_min_def)

definition known_roots :: "BridgeID \<Rightarrow> STPPort list \<Rightarrow> BridgeID set" where
  "known_roots b ports = insert b {pv_RootID (sp_received p) | p. p \<in> set ports \<and> sp_hasBPDU p}"

lemma known_roots_scan:
  "known_roots b ports = insert b (set (map (\<lambda>p. pv_RootID (sp_received p)) (filter sp_hasBPDU ports)))"
  by (auto simp: known_roots_def)

lemma elect_root_best:
  "elect_root b ports \<in> known_roots b ports"
  "x \<in> known_roots b ports \<Longrightarrow> \<not> BridgeID_Compare x (elect_root b ports) < 0"
  unfolding elect_root_scan known_roots_scan by (rule bid.scan_min_in, erule bid.scan_min_le)

section \<open>The root port\<close>

definition towards :: "BridgeID \<Rightarrow> STPPort \<Rightarrow> bool" where
  "towards rootID p \<longleftrightarrow> sp_hasBPDU p \<and> BridgeID_Compare (pv_RootID (sp_received p)) rootID = 0"

definition choose_step where
  "choose_step rootID best port =
     (if \<not> sp_hasBPDU port \<or> BridgeID_Compare (pv_RootID (sp_received port)) rootID \<noteq> 0 then best
      else case best of
        None \<Rightarrow> Some (port, root_candidate rootID port)
      | Some (rootPort, bestVector) \<Rightarrow>
          if stpPriorityVector_Compare (root_candidate rootID port) bestVector < 0
          then Some (port, root_candidate rootID port) else Some (rootPort, bestVector))"

lemma choose_root_port_step: "choose_root_port rootID ports = foldl (choose_step rootID) None ports"
  by (simp add: choose_root_port_def choose_step_def [abs_def])

text \<open>What the scan guarantees, from any best-so-far.\<close>

definition best_of :: "BridgeID \<Rightarrow> STPPort set \<Rightarrow> (STPPort \<times> stpPriorityVector) option \<Rightarrow> bool" where
  "best_of rootID S r \<longleftrightarrow>
     (case r of None \<Rightarrow> \<forall>p\<in>S. \<not> towards rootID p
      | Some (p, v) \<Rightarrow> p \<in> S \<and> towards rootID p \<and> v = root_candidate rootID p \<and>
          (\<forall>q\<in>S. towards rootID q \<longrightarrow> \<not> stpPriorityVector_Compare (root_candidate rootID q) v < 0))"

lemma best_of_step:
  assumes "best_of rootID S r" shows "best_of rootID (insert p S) (choose_step rootID r p)"
proof (cases "towards rootID p")
  case t: True
  show ?thesis
  proof (cases r)
    case None
    with assms t show ?thesis by (auto simp: best_of_def choose_step_def towards_def pvec.cmp_irrefl)
  next
    case (Some pv)
    obtain p0 v0 where r: "r = Some (p0, v0)" using Some by (cases pv) auto
    let ?c = "root_candidate rootID p"
    from assms r have old: "p0 \<in> S" "towards rootID p0" "v0 = root_candidate rootID p0"
      and le: "\<And>q. q \<in> S \<Longrightarrow> towards rootID q \<Longrightarrow>
        \<not> stpPriorityVector_Compare (root_candidate rootID q) v0 < 0"
      by (auto simp: best_of_def)
    show ?thesis
    proof (cases "stpPriorityVector_Compare ?c v0 < 0")
      case True
      then have "choose_step rootID r p = Some (p, ?c)" using t r by (simp add: choose_step_def towards_def)
      moreover have "\<not> stpPriorityVector_Compare (root_candidate rootID q) ?c < 0"
        if "q \<in> S" "towards rootID q" for q
        using le [OF that] True pvec.cmp_trans by blast
      ultimately show ?thesis using t by (auto simp: best_of_def pvec.cmp_irrefl)
    next
      case False
      then have "choose_step rootID r p = Some (p0, v0)" using t r by (simp add: choose_step_def towards_def)
      with False old le show ?thesis by (auto simp: best_of_def)
    qed
  qed
next
  case False
  with assms show ?thesis by (cases r) (auto simp: best_of_def choose_step_def towards_def)
qed

lemma best_of_foldl:
  "best_of rootID S r \<Longrightarrow> best_of rootID (S \<union> set ports) (foldl (choose_step rootID) r ports)"
proof (induction ports arbitrary: S r)
  case (Cons p ports)
  from Cons.IH [OF best_of_step [OF Cons.prems]] show ?case by simp
qed simp

lemma choose_root_port_best: "best_of rootID (set ports) (choose_root_port rootID ports)"
  using best_of_foldl [of rootID "{}" None ports] by (simp add: choose_root_port_step best_of_def)

section \<open>The recomputation\<close>

text \<open>The quantities \<open>recomputeLocked\<close> derives from the port table.\<close>

definition new_root :: "STPState \<Rightarrow> BridgeID" where
  "new_root stp = elect_root (st_bridgeID stp) (portsSorted stp)"

definition new_choice :: "STPState \<Rightarrow> (STPPort \<times> stpPriorityVector) option" where
  "new_choice stp =
     (if BridgeID_Compare (new_root stp) (st_bridgeID stp) = 0 then None
      else choose_root_port (new_root stp) (portsSorted stp))"

definition new_cost :: "STPState \<Rightarrow> u32" where
  "new_cost stp = (case new_choice stp of None \<Rightarrow> 0 | Some (_, v) \<Rightarrow> pv_RootPathCost v)"

definition new_role :: "STPState \<Rightarrow> STPPort \<Rightarrow> STPPortRole" where
  "new_role stp p = port_role (new_root stp) (new_cost stp) (st_bridgeID stp) (map_option fst (new_choice stp)) p"

definition new_port_state :: "STPState \<Rightarrow> int \<Rightarrow> STPPort \<Rightarrow> STPPort" where
  "new_port_state stp now p = fst (setPortRole (st_forwardDelay stp) now p (new_role stp p))"

abbreviation recomputed :: "STPState \<Rightarrow> int \<Rightarrow> mac_table \<Rightarrow> STPState" where
  "recomputed stp now macs \<equiv> fst (recomputeLocked stp now macs)"

lemma recomputed_fields:
  "st_rootID (recomputed stp now macs) = new_root stp"
  "st_rootPathCost (recomputed stp now macs) = new_cost stp"
  "st_rootPortName (recomputed stp now macs) =
     (case new_choice stp of None \<Rightarrow> [] | Some (p, _) \<Rightarrow> sp_name p)"
  "st_ports (recomputed stp now macs) = map (new_port_state stp now) (portsSorted stp)"
  "st_bridgeID (recomputed stp now macs) = st_bridgeID stp"
  "st_forwardDelay (recomputed stp now macs) = st_forwardDelay stp"
  "st_enabled (recomputed stp now macs) = st_enabled stp"
  by (auto simp: recomputeLocked_def Let_def new_root_def new_choice_def new_cost_def new_role_def
      new_port_state_def [abs_def] o_def split: option.splits)

lemma new_port_state_keep [simp, stp_keep]:
  "sp_name (new_port_state stp now p) = sp_name p"
  "sp_portID (new_port_state stp now p) = sp_portID p"
  "sp_pathCost (new_port_state stp now p) = sp_pathCost p"
  "sp_hasBPDU (new_port_state stp now p) = sp_hasBPDU p"
  "sp_received (new_port_state stp now p) = sp_received p"
  "sp_role (new_port_state stp now p) = new_role stp p"
  by (simp_all add: new_port_state_def)

lemma set_portsSorted [simp]: "set (portsSorted stp) = set (st_ports stp)"
  by (simp add: portsSorted_def)

lemma distinct_names_sorted:
  "distinct (map sp_name (st_ports stp)) \<Longrightarrow> distinct (map sp_name (portsSorted stp))"
  by (simp add: portsSorted_def distinct_map)

text \<open>The invariant of a bridge: unique names, coherent ports, at most one root port.\<close>

definition stp_inv :: "STPState \<Rightarrow> bool" where
  "stp_inv stp \<longleftrightarrow>
     distinct (map sp_name (st_ports stp)) \<and> (\<forall>p\<in>set (st_ports stp). port_ok p) \<and>
     (\<forall>p\<in>set (st_ports stp). \<forall>q\<in>set (st_ports stp).
        sp_role p = STP_ROLE_ROOT \<and> sp_role q = STP_ROLE_ROOT \<longrightarrow> sp_name p = sp_name q)"

lemma new_role_root:
  "new_role stp p = STP_ROLE_ROOT \<longleftrightarrow> (\<exists>q v. new_choice stp = Some (q, v) \<and> sp_name q = sp_name p)"
  by (auto simp: new_role_def port_role_def)

lemma stp_inv_recomputed:
  assumes "stp_inv stp" shows "stp_inv (recomputed stp now macs)"
proof -
  have "map sp_name (map (new_port_state stp now) (portsSorted stp)) = map sp_name (portsSorted stp)"
    by (simp add: o_def)
  then have "distinct (map sp_name (st_ports (recomputed stp now macs)))"
    unfolding recomputed_fields using assms distinct_names_sorted [of stp] by (simp only: stp_inv_def)
  then show ?thesis using assms
    by (auto simp: stp_inv_def recomputed_fields new_port_state_def port_ok_setPortRole new_role_root)
qed

lemma new_choice_best:
  assumes "new_root stp \<noteq> st_bridgeID stp"
  shows "\<exists>p v. new_choice stp = Some (p, v) \<and> p \<in> set (st_ports stp) \<and> towards (new_root stp) p \<and>
    v = root_candidate (new_root stp) p \<and>
    (\<forall>q\<in>set (st_ports stp). towards (new_root stp) q \<longrightarrow>
       \<not> stpPriorityVector_Compare (root_candidate (new_root stp) q) v < 0)"
proof -
  have ne: "BridgeID_Compare (new_root stp) (st_bridgeID stp) \<noteq> 0"
    using assms by (simp add: bid.cmp_zero)
  have "new_root stp \<in> known_roots (st_bridgeID stp) (portsSorted stp)"
    unfolding new_root_def by (rule elect_root_best)
  with assms obtain p where "p \<in> set (st_ports stp)" "towards (new_root stp) p"
    by (auto simp: known_roots_def towards_def bid.cmp_zero)
  moreover have "best_of (new_root stp) (set (st_ports stp)) (new_choice stp)"
    using choose_root_port_best [of "new_root stp" "portsSorted stp"] ne by (simp add: new_choice_def)
  ultimately show ?thesis
    by (cases "new_choice stp") (auto simp: best_of_def)
qed

lemma new_choice_root_bridge: "new_root stp = st_bridgeID stp \<Longrightarrow> new_choice stp = None"
  by (simp add: new_choice_def)

section \<open>Stability\<close>

lemma portsSorted_recomputed:
  "portsSorted (recomputed stp now macs) = map (new_port_state stp now) (portsSorted stp)"
proof -
  have "map sp_portID (map (new_port_state stp now) (portsSorted stp)) = map sp_portID (portsSorted stp)"
    by (simp add: o_def)
  then have "sorted (map sp_portID (map (new_port_state stp now) (portsSorted stp)))"
    by (simp only:) (simp add: portsSorted_def)
  then show ?thesis
    by (simp add: portsSorted_def [of "recomputed stp now macs"] recomputed_fields sort_key_id_if_sorted)
qed


text \<open>The root and the root port depend only on fields the recomputation keeps.\<close>

lemma elect_root_map:
  assumes "\<And>p. sp_hasBPDU (f p) = sp_hasBPDU p" "\<And>p. sp_received (f p) = sp_received p"
  shows "elect_root b (map f ps) = elect_root b ps"
  using assms by (induction ps arbitrary: b) (auto simp: elect_root_def)

lemma choose_root_port_map:
  assumes "\<And>p. sp_hasBPDU (f p) = sp_hasBPDU p" "\<And>p. sp_received (f p) = sp_received p"
    "\<And>p. sp_pathCost (f p) = sp_pathCost p"
  shows "choose_root_port r (map f ps) = map_option (apfst f) (choose_root_port r ps)"
proof -
  have step: "choose_step r (map_option (apfst f) b) (f p) = map_option (apfst f) (choose_step r b p)" for b p
    by (cases b) (auto simp: choose_step_def root_candidate_def assms)
  have "foldl (choose_step r) (map_option (apfst f) b) (map f ps) =
      map_option (apfst f) (foldl (choose_step r) b ps)" for b
    by (induction ps arbitrary: b) (simp_all add: step)
  from this [of None] show ?thesis by (simp add: choose_root_port_step)
qed

lemma recomputed_again:
  "new_root (recomputed stp now macs) = new_root stp"
  "new_choice (recomputed stp now macs) = map_option (apfst (new_port_state stp now)) (new_choice stp)"
  "new_cost (recomputed stp now macs) = new_cost stp"
  "new_role (recomputed stp now macs) (new_port_state stp now p) = new_role stp p"
proof -
  show root: "new_root (recomputed stp now macs) = new_root stp"
    by (simp add: new_root_def portsSorted_recomputed recomputed_fields elect_root_map)
  show choice: "new_choice (recomputed stp now macs) =
      map_option (apfst (new_port_state stp now)) (new_choice stp)"
    unfolding new_choice_def root portsSorted_recomputed recomputed_fields
    by (simp add: choose_root_port_map)
  show cost: "new_cost (recomputed stp now macs) = new_cost stp"
    by (cases "new_choice stp") (simp_all add: new_cost_def choice split: prod.splits)
  have "map_option sp_name (map_option fst (new_choice (recomputed stp now macs))) =
      map_option sp_name (map_option fst (new_choice stp))"
    unfolding choice by (cases "new_choice stp") simp_all
  then show "new_role (recomputed stp now macs) (new_port_state stp now p) = new_role stp p"
    unfolding new_role_def port_role_def root cost recomputed_fields our_vector_def by simp
qed

lemma changes_recomputed:
  "snd (snd (recomputeLocked stp now macs)) =
     map (\<lambda>(o', n). mk_change o' n)
       (filter (\<lambda>(o', n). port_moved o' n) (zip (portsSorted stp) (map (new_port_state stp now) (portsSorted stp))))"
  by (auto simp: recomputeLocked_def Let_def new_root_def new_choice_def new_cost_def new_role_def
      new_port_state_def [abs_def] o_def split: option.splits)

lemma port_settles: "\<not> port_moved (new_port_state stp now p)
    (new_port_state (recomputed stp now macs) now' (new_port_state stp now p))"
  by (simp add: port_moved_def new_port_state_def [of "recomputed stp now macs"] recomputed_again recomputed_fields)
     (simp add: new_port_state_def setPortRole_stable)

lemma zip_map_self: "zip xs (map f xs) = map (\<lambda>x. (x, f x)) xs"
  by (induction xs) simp_all

section \<open>One designated port per segment\<close>

lemma designated_iff:
  "map_option sp_name rp \<noteq> Some (sp_name p) \<Longrightarrow> sp_hasBPDU p \<Longrightarrow>
     port_role r c b rp p = STP_ROLE_DESIGNATED \<longleftrightarrow>
     stpPriorityVector_Compare (our_vector r c b p) (sp_received p) < 0"
  by (simp add: port_role_def)

section \<open>The invariant under every operation\<close>

lemma port_by_name_Some:
  assumes "port_by_name stp n = Some p" shows "p \<in> set (st_ports stp)" "sp_name p = n"
  using assms unfolding port_by_name_def by (auto simp: find_Some_iff)

lemma port_by_name_None: "port_by_name stp n = None \<longleftrightarrow> n \<notin> sp_name ` set (st_ports stp)"
  by (auto simp: port_by_name_def find_None_iff)

lemma port_by_name_unique:
  assumes "distinct (map sp_name (st_ports stp))" "p \<in> set (st_ports stp)"
  shows "port_by_name stp (sp_name p) = Some p"
proof (cases "port_by_name stp (sp_name p)")
  case None then show ?thesis using assms(2) by (simp add: port_by_name_None)
next
  case (Some q)
  from port_by_name_Some [OF this] assms Some show ?thesis
    by (metis distinct_map inj_onD)
qed

lemma stp_invI:
  assumes "distinct (map sp_name (st_ports stp))"
    "\<And>p. p \<in> set (st_ports stp) \<Longrightarrow> port_ok p"
    "\<And>p q. p \<in> set (st_ports stp) \<Longrightarrow> q \<in> set (st_ports stp) \<Longrightarrow> sp_role p = STP_ROLE_ROOT \<Longrightarrow>
       sp_role q = STP_ROLE_ROOT \<Longrightarrow> sp_name p = sp_name q"
  shows "stp_inv stp"
  unfolding stp_inv_def using assms by blast

lemma stp_inv_ports: "st_ports s = st_ports stp \<Longrightarrow> stp_inv s \<longleftrightarrow> stp_inv stp"
  by (simp add: stp_inv_def)

lemma stp_inv_map:
  assumes "stp_inv stp" "st_ports s = map f ps" "set ps = set (st_ports stp)"
    "distinct (map sp_name ps)" "\<And>p. sp_name (f p) = sp_name p"
    "\<And>p. sp_role (f p) = STP_ROLE_ROOT \<Longrightarrow> sp_role p = STP_ROLE_ROOT" "\<And>p. port_ok p \<Longrightarrow> port_ok (f p)"
  shows "stp_inv s"
proof (rule stp_invI)
  have "map sp_name (map f ps) = map sp_name ps" using assms(5) by simp
  then show "distinct (map sp_name (st_ports s))" using assms(2,4) by (simp only:)
next
  fix p assume "p \<in> set (st_ports s)"
  with assms(2,3) obtain q where "q \<in> set (st_ports stp)" "p = f q" by auto
  with assms(1,7) show "port_ok p" by (simp add: stp_inv_def)
next
  fix p q assume "p \<in> set (st_ports s)" "q \<in> set (st_ports s)"
    and r: "sp_role p = STP_ROLE_ROOT" "sp_role q = STP_ROLE_ROOT"
  with assms(2,3) obtain p' q' where "p' \<in> set (st_ports stp)" "p = f p'" "q' \<in> set (st_ports stp)" "q = f q'"
    by auto
  with assms(1) assms(6) [of p'] assms(6) [of q'] r show "sp_name p = sp_name q"
    unfolding stp_inv_def by (metis assms(5))
qed

lemma stp_inv_sorted: "stp_inv stp \<Longrightarrow> distinct (map sp_name (portsSorted stp))"
  by (simp add: stp_inv_def distinct_names_sorted)

lemma stp_inv_set_port:
  assumes "stp_inv stp" "p \<in> set (st_ports stp)" "sp_name p' = sp_name p" "sp_role p' = sp_role p" "port_ok p'"
  shows "stp_inv (set_port stp p')"
proof (rule stp_invI)
  let ?f = "\<lambda>q. if sp_name q = sp_name p' then p' else q"
  have ports: "st_ports (set_port stp p') = map ?f (st_ports stp)" by (simp add: set_port_def)
  have names: "map sp_name (map ?f (st_ports stp)) = map sp_name (st_ports stp)" by simp
  show "distinct (map sp_name (st_ports (set_port stp p')))"
    unfolding ports names using assms(1) by (simp add: stp_inv_def)
  have old: "\<exists>q\<in>set (st_ports stp). sp_name x = sp_name q \<and> sp_role x = sp_role q \<and> (x = q \<or> x = p')"
    if x: "x \<in> set (st_ports (set_port stp p'))" for x
  proof -
    from x obtain q where "q \<in> set (st_ports stp)" "x = ?f q" unfolding ports by auto
    then show ?thesis using assms(2-4) by (cases "sp_name q = sp_name p'") auto
  qed
  show "port_ok x" if "x \<in> set (st_ports (set_port stp p'))" for x
    using old [OF that] assms(1,5) unfolding stp_inv_def by blast
  show "sp_name x = sp_name y" if "x \<in> set (st_ports (set_port stp p'))" "y \<in> set (st_ports (set_port stp p'))"
    "sp_role x = STP_ROLE_ROOT" "sp_role y = STP_ROLE_ROOT" for x y
    using old [OF that(1)] old [OF that(2)] that(3,4) assms(1) unfolding stp_inv_def by metis
qed

lemma stp_inv_add_port:
  assumes "stp_inv stp" "sp_name p \<notin> sp_name ` set (st_ports stp)" "sp_role p \<noteq> STP_ROLE_ROOT" "port_ok p"
  shows "stp_inv (stp\<lparr>st_ports := st_ports stp @ [p]\<rparr>)"
  by (rule stp_invI) (use assms in \<open>auto simp: stp_inv_def\<close>)

lemma port_ok_cong:
  "sp_role p' = sp_role p \<Longrightarrow> sp_state p' = sp_state p \<Longrightarrow> sp_stateDeadline p' = sp_stateDeadline p \<Longrightarrow>
     port_ok p' \<longleftrightarrow> port_ok p"
  by (simp add: port_ok_def)

lemma port_ok_new_port: "port_ok (new_port lks i intf)"
  by (simp add: port_ok_def new_port_def)

lemma stp_inv_port_ok: "stp_inv stp \<Longrightarrow> p \<in> set (st_ports stp) \<Longrightarrow> port_ok p"
  by (simp add: stp_inv_def)

lemma stp_inv_sync_loop:
  "stp_inv stp \<Longrightarrow> stp_inv (fst (sync_loop lks i intfs stp seen))"
proof (induction lks i intfs stp seen rule: sync_loop.induct)
  case (3 lks index intf rest stp seen)
  let ?n = "get_interface_name intf"
  show ?case
  proof (cases "stpPortEligible lks intf")
    case False with 3 show ?thesis by simp
  next
    case True
    show ?thesis
    proof (cases "port_by_name stp ?n")
      case None
      have "stp_inv (stp\<lparr>st_ports := st_ports stp @ [new_port lks index intf]\<rparr>)"
        by (rule stp_inv_add_port [OF 3(4)])
           (use None in \<open>simp_all add: port_by_name_None port_ok_new_port\<close>, simp_all add: new_port_def)
      with 3(2) [OF _ refl None] True None show ?thesis by simp
    next
      case (Some p)
      note p = port_by_name_Some [OF Some]
      have "port_ok (p\<lparr>sp_intf := index\<rparr>)"
        using stp_inv_port_ok [OF 3(4) p(1)] by (simp add: port_ok_def)
      then have "stp_inv (set_port stp (p\<lparr>sp_intf := index\<rparr>))"
        by (intro stp_inv_set_port [OF 3(4) p(1)]) simp_all
      with 3(3) [OF _ refl Some] True Some show ?thesis by simp
    qed
  qed
qed auto

lemma stp_inv_filter: "stp_inv stp \<Longrightarrow> stp_inv (stp\<lparr>st_ports := filter P (st_ports stp)\<rparr>)"
  by (rule stp_invI) (simp_all add: stp_inv_def distinct_map_filter)

lemma stp_inv_syncPorts: "stp_inv stp \<Longrightarrow> stp_inv (syncPorts stp lks intfs)"
  using stp_inv_sync_loop [of stp lks 0 intfs "[]"]
  by (auto simp: syncPorts_def intro: stp_inv_filter split: prod.splits)

end
