(* ===== verification/StpInv.thy ===== *)
theory StpInv
  imports StpProofs
begin

text \<open>
  What every operation of the spanning tree keeps: the invariant along any run of operations, the
  information recorded on the ports, and the two forward delays before a port relays.
\<close>

section \<open>The invariant under every operation\<close>

lemma stp_inv_fields [simp]:
  "stp_inv (stp\<lparr>st_enabled := e\<rparr>) \<longleftrightarrow> stp_inv stp"
  "stp_inv (stp\<lparr>st_bridgeID := b\<rparr>) \<longleftrightarrow> stp_inv stp"
  "stp_inv (stp\<lparr>st_priority := k\<rparr>) \<longleftrightarrow> stp_inv stp"
  "stp_inv (stp\<lparr>st_topologyChange := t\<rparr>) \<longleftrightarrow> stp_inv stp"
  "stp_inv (stp\<lparr>st_priority := k, st_bridgeID := b\<rparr>) \<longleftrightarrow> stp_inv stp"
  "stp_inv (stp\<lparr>st_enabled := e, st_bridgeID := b\<rparr>) \<longleftrightarrow> stp_inv stp"
  by (rule stp_inv_ports, simp)+

lemma stp_inv_seed_root [simp]: "stp_inv (seed_root stp) \<longleftrightarrow> stp_inv stp"
  by (rule stp_inv_ports) (simp add: seed_root_def)

lemma stp_inv_Converge: "stp_inv stp \<Longrightarrow> stp_inv (so_state (Converge stp now macs))"
  using stp_inv_recomputed [of stp now macs]
  by (cases "recomputeLocked stp now macs") (simp add: Converge_def unchanged_outcome_def)

lemma stp_inv_StartSTP: "stp_inv stp \<Longrightarrow> stp_inv (so_state (StartSTP stp lks intfs now macs))"
  by (simp add: StartSTP_def Let_def unchanged_outcome_def stp_inv_Converge stp_inv_syncPorts)

lemma stp_inv_StopSTP: 
  assumes "stp_inv stp" shows "stp_inv (StopSTP stp)"
proof (cases "st_enabled stp")
  case True
  from assms have d: "distinct (map sp_name (st_ports stp))" by (simp add: stp_inv_def)
  show ?thesis
    by (rule stp_inv_map [OF assms, where ps = "st_ports stp" and f = "\<lambda>port. port\<lparr>sp_role := STP_ROLE_DISABLED,
          sp_state := STP_STATE_DISABLED, sp_hasBPDU := False, sp_stateDeadline := None\<rparr>"])
       (use d True in \<open>simp_all add: StopSTP_def port_ok_def\<close>)
qed (use assms in \<open>simp add: StopSTP_def\<close>)

lemma stp_inv_SetPriority: "stp_inv stp \<Longrightarrow> stp_inv (so_state (fst (SetPriority stp prio now macs)))"
  by (simp add: SetPriority_def Let_def unchanged_outcome_def stp_inv_Converge)

lemma stp_inv_resetForTopologyChange: 
  assumes "stp_inv stp" shows "stp_inv (resetForTopologyChange stp lks intfs)"
proof (cases "st_enabled stp")
  case True
  let ?s = "syncPorts (seed_root (stp\<lparr>st_bridgeID := BridgeID (st_priority stp) (bridgeAddress intfs)\<rparr>)) lks intfs"
  have inv: "stp_inv ?s" 
    by (rule stp_inv_syncPorts) (use assms in simp)
  from inv have d: "distinct (map sp_name (st_ports ?s))" by (simp add: stp_inv_def)
  show ?thesis
    by (rule stp_inv_map [OF inv, where ps = "st_ports ?s" and f = "\<lambda>port. port\<lparr>sp_role := STP_ROLE_DESIGNATED,
          sp_state := STP_STATE_BLOCKING, sp_hasBPDU := False, sp_messageAge := 0, sp_receivedAt := 0,
          sp_stateDeadline := None\<rparr>"])
       (use d True in \<open>simp_all add: resetForTopologyChange_def Let_def port_ok_def\<close>)
qed (use assms in \<open>simp add: resetForTopologyChange_def\<close>)

lemma advance_port_keep [simp, stp_keep]:
  "sp_name (advance_port fd now p) = sp_name p"
  "sp_role (advance_port fd now p) = sp_role p"
  "sp_portID (advance_port fd now p) = sp_portID p"
  "sp_hasBPDU (advance_port fd now p) = sp_hasBPDU p"
  "sp_received (advance_port fd now p) = sp_received p"
  by (simp_all add: advance_port_def split: option.splits)

lemma port_ok_advance_port: "port_ok p \<Longrightarrow> port_ok (advance_port fd now p)"
  by (cases "sp_stateDeadline p"; cases "sp_state p") (simp_all add: port_ok_def advance_port_def)

lemma stp_inv_advancePortStates: 
  assumes "stp_inv stp" shows "stp_inv (fst (advancePortStates stp now))"
proof (cases "st_enabled stp")
  case True
  show ?thesis
    by (rule stp_inv_map [OF assms, where ps = "portsSorted stp" and f = "advance_port (st_forwardDelay stp) now"])
       (use assms True in \<open>simp_all add: advancePortStates_def Let_def port_ok_advance_port stp_inv_sorted\<close>)
qed (use assms in \<open>simp add: advancePortStates_def\<close>)

lemma promote_port_keep [simp, stp_keep]:
  "sp_name (promote_port p) = sp_name p" "sp_role (promote_port p) = sp_role p"
  by (simp_all add: promote_port_def)

lemma port_ok_promote_port: "port_ok p \<Longrightarrow> port_ok (promote_port p)"
  by (cases "sp_role p") (simp_all add: port_ok_def promote_port_def)

lemma stp_inv_promoteForwardingPorts: 
  assumes "stp_inv stp" shows "stp_inv (fst (promoteForwardingPorts stp))"
proof (cases "st_enabled stp")
  case True
  show ?thesis
    by (rule stp_inv_map [OF assms, where ps = "portsSorted stp" and f = promote_port])
       (use assms True in \<open>simp_all add: promoteForwardingPorts_def Let_def port_ok_promote_port stp_inv_sorted\<close>)
qed (use assms in \<open>simp add: promoteForwardingPorts_def\<close>)

lemma stp_inv_ageOutBPDUs: 
  assumes "stp_inv stp" shows "stp_inv (so_state (ageOutBPDUs stp now macs))"
proof -
  let ?f = "\<lambda>p. if age_expired (st_maxAge stp) now p then forget_bpdu p else p"
  let ?s = "stp\<lparr>st_ports := map ?f (portsSorted stp)\<rparr>"
  have "stp_inv ?s"
    by (rule stp_inv_map [OF assms, where ps = "portsSorted stp" and f = ?f])
       (use assms in \<open>simp_all add: forget_bpdu_def port_ok_def stp_inv_sorted split: if_splits\<close>)
  from stp_inv_recomputed [OF this, of now macs] assms show ?thesis
    by (auto simp: ageOutBPDUs_def Let_def unchanged_outcome_def split: prod.splits)
qed

lemma stp_inv_record_bpdu:
  assumes "stp_inv stp" "p \<in> set (st_ports stp)" shows "stp_inv (record_bpdu stp now p bpdu)"
proof -
  let ?p = "p\<lparr>sp_hasBPDU := True, sp_received := bpdu_vector bpdu,
      sp_messageAge := bpduTimeToDuration (MessageAge bpdu), sp_receivedAt := now\<rparr>"
  have "stp_inv (set_port stp ?p)"
    by (rule stp_inv_set_port [OF assms]) (use stp_inv_port_ok [OF assms] in \<open>simp_all add: port_ok_def\<close>)
  then show ?thesis
    by (rule iffD2 [OF stp_inv_ports, rotated]) (simp add: record_bpdu_def Let_def)
qed

lemma stp_inv_ProcessBPDU: 
  assumes "stp_inv stp" shows "stp_inv (so_state (ProcessBPDU stp now macs n hdr payload))"
proof -
  have tcn: "stp_inv (so_state (processTopologyChangeNotification stp macs))"
    using assms by (simp add: processTopologyChangeNotification_def unchanged_outcome_def)
  have notsup: "stp_inv (so_state (process_not_superior stp now macs p bpdu))"
    if p: "p \<in> set (st_ports stp)" for p bpdu
  proof -
    let ?p = "p\<lparr>sp_receivedAt := now, sp_messageAge := bpduTimeToDuration (MessageAge bpdu)\<rparr>"
    have "stp_inv (set_port stp ?p)"
      by (rule stp_inv_set_port [OF assms p])
         (use stp_inv_port_ok [OF assms p] in \<open>simp_all add: port_ok_def\<close>)
    then show ?thesis using assms by (simp add: process_not_superior_def unchanged_outcome_def Let_def)
  qed
  have sup: "stp_inv (so_state (process_superior stp now macs p bpdu))" if "p \<in> set (st_ports stp)" for p bpdu
    using stp_inv_recomputed [OF stp_inv_record_bpdu [OF assms that], of now bpdu now macs]
    by (cases "recomputeLocked (record_bpdu stp now p bpdu) now macs") (simp add: process_superior_def Let_def)
  show ?thesis
  proof (cases "\<exists>bpdu. deserializeBPDU payload = Inr bpdu")
    case True
    then obtain bpdu where "deserializeBPDU payload = Inr bpdu" by blast
    then show ?thesis using assms tcn notsup sup port_by_name_Some(1) [of stp n]
      by (cases "port_by_name stp n") (simp_all add: ProcessBPDU_def unchanged_outcome_def)
  next
    case False
    then obtain e where "deserializeBPDU payload = Inl e" by (cases "deserializeBPDU payload") auto
    then show ?thesis using assms by (simp add: ProcessBPDU_def unchanged_outcome_def)
  qed
qed

section \<open>Recorded information\<close>

text \<open>How the information of a port may change: it is kept, or replaced by strictly better information.\<close>

definition info_improves :: "STPPort \<Rightarrow> STPPort \<Rightarrow> bool" where
  "info_improves p q \<longleftrightarrow> sp_name q = sp_name p \<and>
     (sp_hasBPDU p \<longrightarrow> sp_hasBPDU q \<and>
        (sp_received q = sp_received p \<or> stpPriorityVector_Compare (sp_received q) (sp_received p) < 0))"

lemma info_improves_refl [simp]: "info_improves p p"
  by (simp add: info_improves_def)

lemma info_improves_set_port:
  assumes "distinct (map sp_name (st_ports stp))" "p0 \<in> set (st_ports stp)" "info_improves p0 p'"
    "p \<in> set (st_ports stp)"
  shows "\<exists>q\<in>set (st_ports (set_port stp p')). info_improves p q"
proof -
  have n: "sp_name p' = sp_name p0" using assms(3) by (simp add: info_improves_def)
  have "p = p0" if "sp_name p = sp_name p'" using assms(1,2,4) that n by (metis distinct_map inj_onD)
  then have "info_improves p (if sp_name p = sp_name p' then p' else p)" using assms(3) by auto
  moreover have "(if sp_name p = sp_name p' then p' else p) \<in> set (st_ports (set_port stp p'))"
    using assms(4) by (auto simp: set_port_def intro!: rev_image_eqI)
  ultimately show ?thesis by blast
qed

lemma info_improves_recomputed:
  "info_improves p q \<Longrightarrow> q \<in> set (st_ports stp) \<Longrightarrow> \<exists>q'\<in>set (st_ports (recomputed stp now macs)). info_improves p q'"
  by (rule bexI [of _ "new_port_state stp now q"]) (simp_all add: info_improves_def recomputed_fields)

lemma info_improves_ProcessBPDU:
  assumes "stp_inv stp" "p \<in> set (st_ports stp)"
  shows "\<exists>q\<in>set (st_ports (so_state (ProcessBPDU stp now macs n hdr payload))). info_improves p q"
proof -
  have d: "distinct (map sp_name (st_ports stp))" using assms by (simp add: stp_inv_def)
  have keep: "\<exists>q\<in>set (st_ports stp). info_improves p q" using assms(2) by (rule bexI [rotated]) simp
  have ns: "\<exists>q\<in>set (st_ports (so_state (process_not_superior stp now macs p0 bpdu))). info_improves p q"
    if p0: "p0 \<in> set (st_ports stp)" for p0 bpdu
    using keep info_improves_set_port [OF d p0 _ assms(2),
        of "p0\<lparr>sp_receivedAt := now, sp_messageAge := bpduTimeToDuration (MessageAge bpdu)\<rparr>"]
    by (simp add: process_not_superior_def unchanged_outcome_def Let_def info_improves_def)
  have su: "\<exists>q\<in>set (st_ports (so_state (process_superior stp now macs p0 bpdu))). info_improves p q"
    if p0: "p0 \<in> set (st_ports stp)" and sup: "superior p0 (bpdu_vector bpdu)" for p0 bpdu
  proof -
    let ?p = "p0\<lparr>sp_hasBPDU := True, sp_received := bpdu_vector bpdu,
        sp_messageAge := bpduTimeToDuration (MessageAge bpdu), sp_receivedAt := now\<rparr>"
    have "info_improves p0 ?p" using sup by (simp add: info_improves_def superior_def)
    from info_improves_set_port [OF d p0 this assms(2)]
    obtain q where "q \<in> set (st_ports (record_bpdu stp now p0 bpdu))" "info_improves p q"
      by (auto simp: record_bpdu_def Let_def)
    from info_improves_recomputed [OF this(2,1), of now macs] show ?thesis
      by (cases "recomputeLocked (record_bpdu stp now p0 bpdu) now macs") (simp add: process_superior_def Let_def)
  qed
  show ?thesis
  proof (cases "deserializeBPDU payload")
    case (Inr bpdu)
    then show ?thesis using keep ns su port_by_name_Some(1) [of stp n]
      by (cases "port_by_name stp n")
         (simp_all add: ProcessBPDU_def unchanged_outcome_def processTopologyChangeNotification_def)
  qed (use keep in \<open>simp add: ProcessBPDU_def unchanged_outcome_def\<close>)
qed

section \<open>Runs of a bridge\<close>

text \<open>
  One call on the bridge: any operation of the spanning tree, with any environment (links,
  interfaces, clock, MAC table, frame).
\<close>

inductive stp_step :: "STPState \<Rightarrow> STPState \<Rightarrow> bool" where
  start: "stp_step s (so_state (StartSTP s lks intfs now macs))"
| stop: "stp_step s (StopSTP s)"
| priority: "stp_step s (so_state (fst (SetPriority s prio now macs)))"
| reset: "stp_step s (resetForTopologyChange s lks intfs)"
| converge: "stp_step s (so_state (Converge s now macs))"
| bpdu: "stp_step s (so_state (ProcessBPDU s now macs portName hdr payload))"
| advance: "stp_step s (fst (advancePortStates s now))"
| promote: "stp_step s (fst (promoteForwardingPorts s))"
| age: "stp_step s (so_state (ageOutBPDUs s now macs))"

inductive_cases stp_stepE: "stp_step s s'"

inductive stp_reachable :: "STPState \<Rightarrow> bool" where
  init: "stp_reachable InitSTPState"
| step: "stp_reachable s \<Longrightarrow> stp_step s s' \<Longrightarrow> stp_reachable s'"

lemmas stp_inv_ops =
  stp_inv_StartSTP stp_inv_StopSTP stp_inv_SetPriority stp_inv_resetForTopologyChange
  stp_inv_Converge stp_inv_ProcessBPDU stp_inv_advancePortStates stp_inv_promoteForwardingPorts
  stp_inv_ageOutBPDUs

lemma stp_inv_step: "stp_step s s' \<Longrightarrow> stp_inv s \<Longrightarrow> stp_inv s'"
  by (erule stp_stepE) (simp_all add: stp_inv_ops)

lemma stp_inv_reachable: "stp_reachable s \<Longrightarrow> stp_inv s"
  by (induction rule: stp_reachable.induct) (simp add: stp_inv_def InitSTPState_def, erule stp_inv_step)

section \<open>The forward delay\<close>

text \<open>The timer alone: \<open>advancePortStates\<close> run at the given instants.\<close>

definition run_ticks :: "int \<Rightarrow> int list \<Rightarrow> STPPort \<Rightarrow> STPPort" where
  "run_ticks fd ticks p = foldl (\<lambda>q now. advance_port fd now q) p ticks"

lemma run_ticks_simps [simp]:
  "run_ticks fd [] p = p"
  "run_ticks fd (t # ts) p = run_ticks fd ts (advance_port fd t p)"
  by (simp_all add: run_ticks_def)

text \<open>The earliest instant a port of this state may relay.\<close>

definition ready_at :: "int \<Rightarrow> STPPort \<Rightarrow> int option" where
  "ready_at fd p =
     (case (sp_state p, sp_stateDeadline p) of
        (STP_STATE_LISTENING, Some d) \<Rightarrow> Some (d + fd)
      | (STP_STATE_LEARNING, Some d) \<Rightarrow> Some d
      | _ \<Rightarrow> None)"

lemma ready_at_advance:
  assumes "ready_at fd p = Some r" "0 \<le> fd"
  shows "(\<exists>r'\<ge>r. ready_at fd (advance_port fd t p) = Some r') \<or>
    sp_state (advance_port fd t p) = STP_STATE_FORWARDING \<and> r \<le> t"
proof -
  from assms(1) obtain d where "sp_stateDeadline p = Some d" "sp_state p = STP_STATE_LISTENING \<and> r = d + fd \<or>
      sp_state p = STP_STATE_LEARNING \<and> r = d"
    by (auto simp: ready_at_def split: STPPortState.splits option.splits)
  then show ?thesis using assms(2)
    by (cases "t < d") (auto simp: ready_at_def advance_port_def)
qed

lemma forwarding_not_early:
  assumes "ready_at fd p = Some r" "0 \<le> fd" "sorted ticks" "ticks \<noteq> []"
    "sp_state (run_ticks fd ticks p) = STP_STATE_FORWARDING"
  shows "r \<le> last ticks"
  using assms
proof (induction ticks arbitrary: p r)
  case (Cons t ts)
  from ready_at_advance [OF Cons.prems(1,2), of t] show ?case
  proof
    assume "\<exists>r'\<ge>r. ready_at fd (advance_port fd t p) = Some r'"
    then obtain r' where r': "r \<le> r'" "ready_at fd (advance_port fd t p) = Some r'" by blast
    show ?thesis
    proof (cases ts)
      case Nil
      with r' Cons.prems(5) show ?thesis by (simp add: ready_at_def)
    next
      case Cons': (Cons t' ts')
      with Cons.IH [OF r'(2)] Cons.prems r'(1) show ?thesis by simp
    qed
  next
    assume "sp_state (advance_port fd t p) = STP_STATE_FORWARDING \<and> r \<le> t"
    moreover have "t \<le> last (t # ts)" using Cons.prems(3) by (cases ts rule: rev_cases) auto
    ultimately show ?thesis by simp
  qed
qed simp

lemma forwarding_persists:
  "sp_state p = STP_STATE_FORWARDING \<Longrightarrow> sp_state (run_ticks fd ts p) = STP_STATE_FORWARDING"
  by (induction ts arbitrary: p) (auto simp: advance_port_def split: option.splits)

text \<open>A tick after the deadline and one a forward delay later are enough, whatever runs after them.\<close>

lemma forwarding_in_time:
  assumes "sp_state p = STP_STATE_LISTENING" "sp_stateDeadline p = Some d" "d \<le> t1" "t1 + fd \<le> t2"
  shows "sp_state (run_ticks fd (t1 # t2 # ts) p) = STP_STATE_FORWARDING"
  using assms by (simp add: advance_port_def forwarding_persists)

end
