(* ===== verification/NodeInv.thy ===== *)
theory NodeInv
  imports Receive StpInv
begin

text \<open>
  What every handler of a node keeps: the invariants of all its tables, its configuration, and that
  frames only leave through existing interfaces whose link is up.  Each handler is shown to keep
  them, up to the receive path; \<open>node_step\<close> collects everything that can happen to a node.
\<close>

section \<open>The invariant\<close>

text \<open>The interface names of a node are proper, and no two interfaces share one.\<close>

definition names_unique :: "intf_array \<Rightarrow> bool" where
  "names_unique intfs \<longleftrightarrow>
     (\<forall>i j a b. intf_at intfs i = Some a \<longrightarrow> intf_at intfs j = Some b \<longrightarrow>
        get_interface_name a = get_interface_name b \<longrightarrow> i = j)"

definition intf_names_ok :: "intf_array \<Rightarrow> bool" where
  "intf_names_ok intfs \<longleftrightarrow>
     (\<forall>intf. Some intf \<in> set intfs \<longrightarrow> valid_name (get_interface_name intf)) \<and> names_unique intfs"

definition node_ok :: "Node \<Rightarrow> bool" where
  "node_ok node \<longleftrightarrow> arp_inv (nd_arp node) \<and> mac_table_inv (nd_mac node) \<and> stp_inv (nd_stp node) \<and>
     rip_inv (rip_routes (nd_rip node)) (nd_rt node) \<and> lldp_inv (nd_lldp node) \<and>
     wf_node_intfs node \<and> intf_names_ok (nd_intf node)"

definition same_config :: "Node \<Rightarrow> Node \<Rightarrow> bool" where
  "same_config node node' \<longleftrightarrow> nd_name node' = nd_name node \<and> nd_intf node' = nd_intf node \<and>
     nd_vlan_interfaces node' = nd_vlan_interfaces node \<and>
     nd_is_loopback_config node' = nd_is_loopback_config node \<and> nd_loopback_addr node' = nd_loopback_addr node"

definition sends_up :: "env \<Rightarrow> Node \<Rightarrow> eff list \<Rightarrow> bool" where
  "sends_up env node es \<longleftrightarrow> (\<forall>(i, f)\<in>set (sends es). \<exists>intf. intf_of node i = Some intf \<and> IsUp (e_links env) (link intf))"

definition ok_result :: "env \<Rightarrow> Node \<Rightarrow> result \<Rightarrow> bool" where
  "ok_result env node r \<longleftrightarrow> node_ok (fst r) \<and> same_config node (fst r) \<and> sends_up env node (snd r)"

named_theorems handler_ok "each handler keeps the invariant"
named_theorems up "effects that only use links that are up"

lemma same_config_refl [simp]: "same_config node node"
  by (simp add: same_config_def)

lemma same_config_trans: "same_config a b \<Longrightarrow> same_config b c \<Longrightarrow> same_config a c"
  by (simp add: same_config_def)

lemma same_config_updates [simp]:
  "same_config node (node'\<lparr>nd_arp := t\<rparr>) \<longleftrightarrow> same_config node node'"
  "same_config node (node'\<lparr>nd_mac := m\<rparr>) \<longleftrightarrow> same_config node node'"
  "same_config node (node'\<lparr>nd_stp := s\<rparr>) \<longleftrightarrow> same_config node node'"
  "same_config node (node'\<lparr>nd_rip := r\<rparr>) \<longleftrightarrow> same_config node node'"
  "same_config node (node'\<lparr>nd_rt := rt\<rparr>) \<longleftrightarrow> same_config node node'"
  "same_config node (node'\<lparr>nd_lldp := l\<rparr>) \<longleftrightarrow> same_config node node'"
  "same_config node (node'\<lparr>nd_ping_reply_count := c\<rparr>) \<longleftrightarrow> same_config node node'"
  "same_config node (node'\<lparr>nd_icmp_errors := e\<rparr>) \<longleftrightarrow> same_config node node'"
  by (simp_all add: same_config_def)

lemma node_ok_updates [simp]:
  "node_ok (node\<lparr>nd_ping_reply_count := c\<rparr>) \<longleftrightarrow> node_ok node"
  "node_ok (node\<lparr>nd_icmp_errors := e\<rparr>) \<longleftrightarrow> node_ok node"
  by (simp_all add: node_ok_def wf_node_intfs_def)

lemma node_okD:
  assumes "node_ok node"
  shows "arp_inv (nd_arp node)" "mac_table_inv (nd_mac node)" "stp_inv (nd_stp node)"
    "rip_inv (rip_routes (nd_rip node)) (nd_rt node)" "lldp_inv (nd_lldp node)"
    "wf_node_intfs node" "intf_names_ok (nd_intf node)"
  using assms by (simp_all add: node_ok_def)

lemma node_ok_set:
  assumes "node_ok node"
  shows "arp_inv t \<Longrightarrow> node_ok (node\<lparr>nd_arp := t\<rparr>)" "mac_table_inv m \<Longrightarrow> node_ok (node\<lparr>nd_mac := m\<rparr>)"
    "stp_inv s \<Longrightarrow> node_ok (node\<lparr>nd_stp := s\<rparr>)" "lldp_inv l \<Longrightarrow> node_ok (node\<lparr>nd_lldp := l\<rparr>)"
    "rip_inv (rip_routes r) rt \<Longrightarrow> node_ok (node\<lparr>nd_rip := r, nd_rt := rt\<rparr>)"
  using assms by (simp_all add: node_ok_def wf_node_intfs_def)

lemma sends_up_simps [simp, up]:
  "sends_up env node []" "sends_up env node (Emit p a r # es) \<longleftrightarrow> sends_up env node es"
  "sends_up env node (es @ fs) \<longleftrightarrow> sends_up env node es \<and> sends_up env node fs"
  by (auto simp: sends_up_def)

lemma sends_up_same: "same_config node node' \<Longrightarrow> sends_up env node' es = sends_up env node es"
  by (simp add: sends_up_def intf_of_def same_config_def)

lemma sends_up_update [simp]:
  "sends_up env (node\<lparr>nd_arp := t\<rparr>) = sends_up env node" "sends_up env (node\<lparr>nd_mac := m\<rparr>) = sends_up env node"
  "sends_up env (node\<lparr>nd_stp := s\<rparr>) = sends_up env node" "sends_up env (node\<lparr>nd_lldp := l\<rparr>) = sends_up env node"
  by (intro ext sends_up_same; simp)+

lemma sends_up_concat: "(\<And>x. x \<in> set xs \<Longrightarrow> sends_up env node (g x)) \<Longrightarrow> sends_up env node (concat (map g xs))"
  by (induction xs) auto

text \<open>Sequencing handlers.\<close>

lemma ok_result_effects: "node_ok node \<Longrightarrow> sends_up env node es \<Longrightarrow> ok_result env node (node, es)"
  by (simp add: ok_result_def)

lemma ok_result_then:
  assumes "ok_result env node r" "\<And>node'. node_ok node' \<Longrightarrow> same_config node node' \<Longrightarrow> ok_result env node' (g node')"
  shows "ok_result env node (then_do r g)"
proof -
  obtain n1 es1 where r: "r = (n1, es1)" by fastforce
  obtain n2 es2 where g: "g n1 = (n2, es2)" by fastforce
  have 1: "node_ok n1" "same_config node n1" "sends_up env node es1" using assms(1) r by (auto simp: ok_result_def)
  have 2: "node_ok n2" "same_config n1 n2" "sends_up env n1 es2"
    using assms(2) [OF 1(1,2)] g by (auto simp: ok_result_def)
  show ?thesis using 1 2 same_config_trans [OF 1(2) 2(2)] by (simp add: r g then_do_def ok_result_def sends_up_same [OF 1(2)])
qed

lemma ok_result_Emit [simp]: "ok_result env node (n, Emit p a r # es) \<longleftrightarrow> ok_result env node (n, es)"
  by (simp add: ok_result_def)

section \<open>Effects on links that are up\<close>

lemma sends_up_send [up]: "sends_up env node (snd (send_frame env node pkt i))"
  using send_frame_link_up [of _ _ env node pkt i] by (auto simp: sends_up_def)

lemma sends_up_send' [up]: "send_frame env node pkt i = (ok, es) \<Longrightarrow> sends_up env node es"
  using sends_up_send [of env node pkt i] by simp

lemma sends_up_flood_loop: "sends_up env node (snd (flood_loop env node ex v pkt i xs))"
  by (induction env node ex v pkt i xs rule: flood_loop.induct)
     (auto simp: sends_up_send' split: sum.splits prod.splits)

lemma sends_up_flood [up]: "sends_up env node (l2_switch_flood_frame_vlan env node ex pkt v)"
  using sends_up_flood_loop [of env node ex v pkt 0 "nd_intf node"]
  by (auto simp: l2_switch_flood_frame_vlan_def split: prod.splits)

lemma sends_up_forward [up]: "sends_up env node (l2_switch_forward_frame_vlan env node recv pkt v routed)"
  by (auto simp: l2_switch_forward_frame_vlan_def Let_def up split: sum.splits option.splits)

lemma sends_up_callback [up]: "sends_up env node (run_callback env node cb i pkt)"
  by (auto simp: run_callback_def Let_def up split: arp_cb.splits option.splits)

lemma sends_up_pending [up]: "sends_up env node (process_arp_pending_entry env node i p)"
  by (auto simp: process_arp_pending_entry_def up split: option.splits)

lemma sends_up_failure [up]: "sends_up env node (run_failure cb)"
  by (auto simp: run_failure_def split: arp_cb.splits)

lemma sends_up_request [up]: "sends_up env node (snd (send_arp_broadcast_request env node oif ip))"
  by (auto simp: send_arp_broadcast_request_def up split: option.splits prod.splits)

lemma sends_up_vlan_loop: "sends_up env node (vlan_request_loop env node v s t i xs)"
  by (induction env node v s t i xs rule: vlan_request_loop.induct)
     (auto simp: Let_def up split: sum.splits option.splits)

lemma sends_up_vlan_request [up]: "sends_up env node (send_vlan_arp_request env node v ip)"
  by (auto simp: send_vlan_arp_request_def sends_up_vlan_loop split: option.splits)

lemma sends_up_reply [up]: "sends_up env node (send_arp_reply_msg env node pkt i ip)"
  by (auto simp: send_arp_reply_msg_def up split: option.splits sum.splits)

lemma sends_up_retry [up]: "sends_up env node (run_retry env node cb)"
  by (auto simp: run_retry_def up split: arp_cb.splits)

lemma sends_up_demote [up]: "sends_up env node (demote_resolved env node i mac oif pkt et)"
  by (auto simp: demote_resolved_def up split: option.splits)

lemma sends_up_advertisement [up]: "sends_up env node (sendLLDPAdvertisement env node i ttl)"
  by (auto simp: sendLLDPAdvertisement_def up split: option.splits sum.splits)

lemma sends_up_advertisements [up]: "sends_up env node (sendAdvertisementsWithTTL env node ttl)"
  unfolding sendAdvertisementsWithTTL_def by (intro sends_up_concat) (rule up)

lemma sends_up_bpdus [up]: "sends_up env node (send_bpdus env node frames)"
  unfolding send_bpdus_def by (intro sends_up_concat) (auto simp: up)

lemma sends_up_changes [up]: "sends_up env node (stp_change_events cs)"
  by (induction cs) (auto simp: stp_change_events_def)

lemma sends_up_tcn [up]: "sends_up env node (tcn_events payload)"
  by (auto simp: tcn_events_def split: sum.splits)

lemma sends_up_rip_events [up]: "sends_up env node (map (\<lambda>(action, _). Emit ''RIP'' action []) es)"
  by (induction es) auto

section \<open>Handlers\<close>

lemma ok_arp_learn [handler_ok]:
  assumes "node_ok node" shows "ok_result env node (arp_learn_binding env i ip mac ex node)"
proof -
  obtain t ps cs where l: "arp_table_learn (nd_arp node) (e_now env) (intf_name_of node i) ip mac ex = (t, ps, cs)"
    by (metis prod_cases3)
  have "arp_inv t" using arp_inv_learn [OF node_okD(1) [OF assms], of "e_now env" "intf_name_of node i" ip mac ex] l by simp
  then have n: "node_ok (node\<lparr>nd_arp := t\<rparr>)" by (rule node_ok_set(1) [OF assms])
  have "sends_up env node (concat (map (process_arp_pending_entry env (node\<lparr>nd_arp := t\<rparr>) i) ps))"
    by (rule sends_up_concat) (metis sends_up_pending sends_up_update(1))
  with n show ?thesis by (cases cs) (simp_all add: arp_learn_binding_def l ok_result_def Let_def)
qed

lemma ok_arp_reply [handler_ok]:
  "node_ok node \<Longrightarrow> ok_result env node (process_arp_reply_msg env i pkt node)"
  by (auto simp: process_arp_reply_msg_def intro: ok_arp_learn ok_result_effects split: sum.splits)

lemma ok_arp_request [handler_ok]:
  assumes "node_ok node" shows "ok_result env node (process_arp_broadcast_request env i pkt node)"
proof (cases "deserialize_arp_header (drop ETHERNET_HDR_SIZE pkt)")
  case (Inr hdr)
  let ?s = "arp_should_reply node i (u32_to_ip (ah_dst_ip hdr))"
  have "ok_result env node (if ah_src_ip hdr \<noteq> 0
      then arp_learn_binding env i (u32_to_ip (ah_src_ip hdr)) (ah_src_mac hdr) (\<not> ?s) node else (node, []))"
    using assms by (auto intro: ok_arp_learn ok_result_effects)
  then show ?thesis
    unfolding process_arp_broadcast_request_def Inr sum.case Let_def
    by (rule ok_result_then) (auto intro!: ok_result_effects simp: up)
qed (use assms in \<open>simp add: process_arp_broadcast_request_def ok_result_effects\<close>)

lemma ok_arp_recv [handler_ok]:
  "node_ok node \<Longrightarrow> ok_result env node (layer_2_frame_recv_arp env i pkt node)"
  by (auto simp: layer_2_frame_recv_arp_def intro: handler_ok ok_result_effects)

lemma ok_maintain [handler_ok]:
  assumes "node_ok node" shows "ok_result env node (fst (maintain_arp_pending_entries env node))"
proof -
  obtain t rs fs where c: "collect_arp_pending_actions (nd_arp node) (e_now env) = (t, rs, fs)" by (metis prod_cases3)
  have n: "node_ok (node\<lparr>nd_arp := t\<rparr>)"
    using arp_inv_collect [OF node_okD(1) [OF assms], of "e_now env"] c by (simp add: node_ok_set [OF assms])
  have "sends_up env node (run_retry env (node\<lparr>nd_arp := t\<rparr>) cb)" for cb
    by (metis sends_up_retry sends_up_update(1))
  then have "sends_up env node (concat (map (retry_effects env (node\<lparr>nd_arp := t\<rparr>)) rs))"
    by (intro sends_up_concat) (auto simp: retry_effects_def split: option.splits)
  moreover have "sends_up env node (concat (map failure_effects fs))"
    by (intro sends_up_concat) (auto simp: failure_effects_def up intro!: sends_up_concat)
  ultimately show ?thesis using n by (simp add: maintain_arp_pending_entries_def c ok_result_def Let_def)
qed

lemma ok_demote2 [handler_ok]:
  assumes "node_ok node" shows "ok_result env node (DemotePacketToLayer2 env nh oifn pkt et node)"
proof -
  have upd: "node_ok (node\<lparr>nd_arp := fst (arp_table_resolve_or_queue (nd_arp node) now ip n f k a b c)\<rparr>)"
    for now ip n f k and a b c :: "arp_cb option"
    by (rule node_ok_set(1) [OF assms arp_inv_resolve [OF node_okD(1) [OF assms]]])
  have up': "sends_up env node (snd (send_arp_broadcast_request env (node\<lparr>nd_arp := t\<rparr>) oif ip))"
      "sends_up env node (demote_resolved env (node\<lparr>nd_arp := t\<rparr>) i mac oi p e)" for t oif ip i mac oi p e
    by (metis sends_up_request sends_up_update(1)) (metis sends_up_demote sends_up_update(1))
  show ?thesis
    unfolding DemotePacketToLayer2_def Let_def
    by (auto simp: ok_result_def assms up up' split: option.splits prod.splits resolve_result.splits)
       (metis fst_conv upd)+
qed

lemma ok_learning [handler_ok]:
  assumes "node_ok node" "valid_name n"
  shows "ok_result env node (l2_switch_perform_mac_learning_vlan env mac v n node)"
proof -
  obtain t r where a: "mac_table_add_or_update_vlan (nd_mac node) (e_now env) mac v n = (t, r)" by fastforce
  have "mac_table_inv t" using mac_table_inv_add [OF node_okD(2) [OF assms(1)] assms(2), of "e_now env" mac v] a by simp
  then show ?thesis
    using assms(1) by (simp add: l2_switch_perform_mac_learning_vlan_def a ok_result_def node_ok_set)
qed

lemma ok_demote3_options [handler_ok]:
  "node_ok node \<Longrightarrow> ok_result env node (demotePacketToLayer3WithOptions env payload proto dst src ttl node)"
  unfolding demotePacketToLayer3WithOptions_def Let_def
  by (auto simp: ok_result_effects ok_demote2 split: option.split sum.split)

lemma ok_demote3 [handler_ok]:
  assumes "node_ok node"
  shows "ok_result env node (demotePacketToLayer3WithSource env payload proto dst src node)"
    "ok_result env node (demotePacketToLayer3WithTTL env payload proto dst ttl node)"
    "ok_result env node (DemotePacketToLayer3 env payload proto dst node)"
  using ok_demote3_options [OF assms]
  by (simp_all add: demotePacketToLayer3WithSource_def demotePacketToLayer3WithTTL_def DemotePacketToLayer3_def)

lemma ok_icmp_via [handler_ok]:
  "node_ok node \<Longrightarrow> ok_result env node (sendICMPErrorViaInterface env i src pkt h t c node)"
  by (auto simp: sendICMPErrorViaInterface_def Let_def intro!: ok_result_effects ok_demote2)

lemma ok_icmp_routed [handler_ok]:
  "node_ok node \<Longrightarrow> ok_result env node (sendICMPErrorRouted env i pkt h t c node)"
  by (auto simp: sendICMPErrorRouted_def Let_def intro!: ok_result_effects ok_demote3)

lemma ok_icmp_error [handler_ok]: "node_ok node \<Longrightarrow> ok_result env node (handleICMPError h payload node)"
  by (simp add: handleICMPError_def recordICMPError_def ok_result_def Let_def)

lemma ok_demote_all [handler_ok]: "node_ok node \<Longrightarrow> ok_result env node (demote_all env xs node)"
proof (induction xs arbitrary: node)
  case (Cons x xs)
  then show ?case by (cases x) (auto intro!: ok_result_then ok_demote3)
qed (simp add: ok_result_effects)

lemma ok_send_updates [handler_ok]: "node_ok node \<Longrightarrow> ok_result env node (node_send_routing_updates env node)"
  by (simp add: node_send_routing_updates_def ok_demote_all)

lemma ok_result_from:
  "same_config node node1 \<Longrightarrow> ok_result env node1 r \<Longrightarrow> ok_result env node r"
  by (auto simp: ok_result_def sends_up_same intro: same_config_trans)

lemma ok_rip [handler_ok]:
  assumes "node_ok node" shows "ok_result env node (node_process_rip env i src pkt node)"
proof -
  let ?out = "ProcessRIPPacket (nd_rip node) (nd_rt node) (e_now env) pkt (IPUint32ToString src) (intf_name_of node i)"
  let ?n = "node\<lparr>nd_rip := ro_state ?out, nd_rt := ro_rt ?out\<rparr>"
  have n: "node_ok ?n"
    by (rule node_ok_set(5) [OF assms rip_inv_ProcessRIPPacket [OF node_okD(4) [OF assms]]])
  show ?thesis
  proof (cases "ro_respond ?out")
    case True
    have "ok_result env node (node_send_routing_updates env ?n)"
      by (rule ok_result_from [OF _ ok_send_updates [OF n]]) simp
    with True show ?thesis by (simp add: node_process_rip_def Let_def)
  next
    case False
    with n show ?thesis by (simp add: node_process_rip_def Let_def ok_result_def up)
  qed
qed

lemma ok_local_icmp [handler_ok]:
  assumes "node_ok node" shows "ok_result env node (handle_local_icmp env h payload node)"
proof -
  have "ok_result env node (node\<lparr>nd_ping_reply_count := c\<rparr>, [Emit p a r])" for c p a r
    using assms by (simp add: ok_result_def)
  then show ?thesis
    using assms by (auto simp: handle_local_icmp_def intro!: ok_result_effects handler_ok)
qed

lemma ok_local [handler_ok]:
  assumes "node_ok node" "handleLocalIPPacket env i h pkt node = Handled n es"
  shows "ok_result env node (n, es)"
proof -
  have "handled r = Handled n es \<Longrightarrow> r = (n, es)" for r by (simp add: handled_def prod_eq_iff)
  then show ?thesis
    using assms ok_local_icmp [OF assms(1)] ok_rip [OF assms(1)]
    unfolding handleLocalIPPacket_def Let_def
    by (auto intro!: ok_result_effects split: if_splits option.splits sum.splits) (metis+)?
qed

lemma ok_forward_ip [handler_ok]:
  "node_ok node \<Longrightarrow> ok_result env node (forward_ip_packet env i h pkt node)"
  unfolding forward_ip_packet_def Let_def
  by (auto simp: ok_result_effects ok_icmp_routed ok_demote2 split: option.split sum.split)

lemma ok_layer3 [handler_ok]:
  "node_ok node \<Longrightarrow> ok_result env node (Layer3IPPacketRecvFromBottom env i pkt node)"
proof (induction env i pkt node rule: Layer3IPPacketRecvFromBottom.induct)
  case (1 env i pkt node)
  show ?case
  proof (cases "length pkt < 20 \<or> (\<exists>e. DeserializeIPHeader pkt = Inl e)")
    case True
    with 1 show ?thesis
      by (subst Layer3IPPacketRecvFromBottom.simps) (auto intro: ok_result_effects split: sum.splits)
  next
    case False
    then obtain h where h: "\<not> length pkt < 20" "DeserializeIPHeader pkt = Inr h"
      by (cases "DeserializeIPHeader pkt") auto
    show ?thesis
      using 1(1) [OF h] 1(2) ok_forward_ip [OF 1(2)] ok_local [OF 1(2)] h
      by (subst Layer3IPPacketRecvFromBottom.simps) (auto intro: ok_result_effects split: local_outcome.splits)
  qed
qed

text \<open>Routing between VLANs.\<close>

lemma ok_forward_routed [handler_ok]:
  assumes "node_ok node" shows "ok_result env node (forward_routed_packet_in_vlan env i v nh pkt node)"
proof -
  have upd: "node_ok (node\<lparr>nd_arp := fst (arp_table_resolve_or_queue (nd_arp node) now ip n f k a b c)\<rparr>)"
    for now ip n f k and a b c :: "arp_cb option"
    by (rule node_ok_set(1) [OF assms arp_inv_resolve [OF node_okD(1) [OF assms]]])
  have up': "sends_up env node (l2_switch_forward_frame_vlan env (node\<lparr>nd_arp := t\<rparr>) i f v True)"
      "sends_up env node (send_vlan_arp_request env (node\<lparr>nd_arp := t\<rparr>) v ip)" for t f ip
    by (metis sends_up_forward sends_up_update(1)) (metis sends_up_vlan_request sends_up_update(1))
  show ?thesis
    unfolding forward_routed_packet_in_vlan_def Let_def
    by (auto simp: ok_result_def assms up' split: option.splits prod.splits resolve_result.splits)
       (metis fst_conv upd)+
qed

lemma ok_inter_vlan_error [handler_ok]:
  "node_ok node \<Longrightarrow> ok_result env node (report_inter_vlan_icmp_error env i v pkt t c node)"
  by (auto simp: report_inter_vlan_icmp_error_def ok_result_effects ok_icmp_via split: option.split sum.split)

lemma ok_route_between [handler_ok]:
  "node_ok node \<Longrightarrow> ok_result env node (route_between_vlans env i pkt v node)"
  unfolding route_between_vlans_def Let_def
  by (auto simp: ok_result_effects ok_inter_vlan_error ok_forward_routed ok_demote2
      split: option.split sum.split egress.split)

lemma ok_switch_arp [handler_ok]:
  "node_ok node \<Longrightarrow> ok_result env node (switch_arp env i pkt v dst node)"
  unfolding switch_arp_def
  by (auto intro!: ok_result_then ok_result_effects ok_arp_recv simp: up split: sum.split simp del: then_do_simps)

lemma ok_switch_dispatch [handler_ok]:
  "node_ok node \<Longrightarrow> ok_result env node (switch_dispatch env i pkt v h node)"
  by (simp add: switch_dispatch_def ok_switch_arp ok_route_between ok_result_effects up)

lemma intf_of_name_ok: "node_ok node \<Longrightarrow> intf_of node i = Some intf \<Longrightarrow> valid_name (get_interface_name intf)"
  using node_okD(7) [of node]
  by (auto simp: intf_names_ok_def intf_of_def intf_at_def split: if_splits) (metis nth_mem)

lemma ok_switch_recv [handler_ok]:
  assumes "node_ok node" shows "ok_result env node (l2_switch_recv_frame env i pkt node)"
proof (cases "intf_of node i")
  case (Some intf)
  note n = intf_of_name_ok [OF assms Some]
  have "ok_result env node'
      (if \<not> port_can_forward env node' intf then (node', [Emit p a r]) else switch_dispatch env i pkt v h node')"
    if "node_ok node'" for node' p a r v h
    using that by (simp add: ok_result_effects ok_switch_dispatch)
  then show ?thesis
    unfolding l2_switch_recv_frame_def Let_def Some
    by (auto intro!: ok_result_then ok_learning n assms ok_result_effects split: sum.split simp del: then_do_simps)
qed (use assms in \<open>simp add: l2_switch_recv_frame_def ok_result_effects\<close>)

section \<open>Control protocols\<close>

lemma ok_lldp_recv [handler_ok]:
  assumes "node_ok node" shows "ok_result env node (layer2FrameRecvLLDP env i h pkt node)"
proof -
  have n: "node_ok (node\<lparr>nd_lldp := lo_state (LLDP_ProcessFrame (nd_lldp node) now tr li h' p)\<rparr>)" for now tr li h' p
    by (rule node_ok_set(4) [OF assms lldp_inv_ProcessFrame [OF node_okD(5) [OF assms]]])
  have "sends_up env node (sendLLDPAdvertisement env (node\<lparr>nd_lldp := l\<rparr>) i ttl)" for l ttl
    by (metis sends_up_advertisement sends_up_update(4))
  with n assms show ?thesis
    unfolding layer2FrameRecvLLDP_def Let_def by (auto simp: ok_result_def split: option.split)
qed

lemma lldp_inv_enabled [simp]: "lldp_inv (l\<lparr>lldp_enabled := b\<rparr>) \<longleftrightarrow> lldp_inv l"
  by (simp add: lldp_inv_def)

lemma ok_lldp_ops [handler_ok]:
  assumes "node_ok node"
  shows "ok_result env node (StartLLDP env node)" "ok_result env node (StopLLDP env node)"
    "ok_result env node (node_remove_expired_neighbors env node)" "ok_result env node (node, SendAdvertisements env node)"
proof -
  have up': "sends_up env node (sendAdvertisementsWithTTL env (node\<lparr>nd_lldp := l\<rparr>) ttl)" for l ttl
    by (metis sends_up_advertisements sends_up_update(4))
  note l = node_okD(5) [OF assms]
  show "ok_result env node (StartLLDP env node)"
    using l assms by (auto simp: StartLLDP_def SendAdvertisements_def Let_def ok_result_def up' intro!: node_ok_set)
  show "ok_result env node (StopLLDP env node)"
    using assms by (auto simp: StopLLDP_def ok_result_def up lldp_inv_def intro!: node_ok_set)
  have "sends_up env node (map (\<lambda>_. Emit p a r) xs)" for p a r and xs :: "LLDPNeighbor list"
    by (induction xs) auto
  then show "ok_result env node (node_remove_expired_neighbors env node)"
    using lldp_inv_filter [OF l] assms
    by (simp add: node_remove_expired_neighbors_def RemoveExpiredNeighbors_def Let_def ok_result_def node_ok_set)
  show "ok_result env node (node, SendAdvertisements env node)"
    using assms by (auto simp: SendAdvertisements_def ok_result_def up)
qed

text \<open>The MAC table after a spanning tree operation: entries are only dropped.\<close>

definition macs_kept :: "mac_table \<Rightarrow> stp_outcome \<Rightarrow> bool" where
  "macs_kept macs out \<longleftrightarrow> (mac_table_inv macs \<longrightarrow> mac_table_inv (so_macs out))"

lemma macs_fold:
  "mac_table_inv macs \<Longrightarrow>
     mac_table_inv (foldl (\<lambda>t (p, flush). if flush then fst (flush_mac_table_for_interface t (sp_name p)) else t) macs xs)"
  by (induction xs arbitrary: macs) (auto simp: mac_table_inv_flush_if)

lemma macs_recompute: "mac_table_inv macs \<Longrightarrow> mac_table_inv (fst (snd (recomputeLocked stp now macs)))"
  by (simp add: recomputeLocked_def Let_def macs_fold)

lemma macs_kept_unchanged [simp]: "macs_kept macs (unchanged_outcome stp macs e)"
  "macs_kept macs (unchanged_outcome stp macs e\<lparr>so_pending := x\<rparr>)"
  by (simp_all add: macs_kept_def unchanged_outcome_def)

lemma macs_kept_Converge [simp]: "macs_kept macs (Converge stp now macs)"
  using macs_recompute [of macs stp now]
  by (cases "recomputeLocked stp now macs") (simp add: Converge_def macs_kept_def unchanged_outcome_def)

lemma macs_kept_ops:
  "macs_kept macs (StartSTP stp lks intfs now macs)" "macs_kept macs (fst (SetPriority stp prio now macs))"
  "macs_kept macs (ageOutBPDUs stp now macs)" "macs_kept macs (ProcessBPDU stp now macs n h payload)"
proof -
  show "macs_kept macs (StartSTP stp lks intfs now macs)" by (simp add: StartSTP_def Let_def)
  show "macs_kept macs (fst (SetPriority stp prio now macs))" by (simp add: SetPriority_def Let_def)
  show "macs_kept macs (ageOutBPDUs stp now macs)"
    using macs_recompute [of macs] by (simp add: ageOutBPDUs_def Let_def macs_kept_def unchanged_outcome_def case_prod_beta)
  have sup: "macs_kept macs (process_superior stp now macs p bpdu)" for p bpdu
    using macs_recompute [of macs] by (simp add: process_superior_def macs_kept_def Let_def case_prod_beta)
  have inf: "macs_kept macs (process_not_superior stp now macs p bpdu)" for p bpdu
    by (simp add: process_not_superior_def Let_def)
  have "macs_kept macs (processTopologyChangeNotification stp macs)"
    by (simp add: processTopologyChangeNotification_def macs_kept_def unchanged_outcome_def flush_mac_table_def)
  with sup inf show "macs_kept macs (ProcessBPDU stp now macs n h payload)"
    unfolding ProcessBPDU_def by (auto split: sum.split option.split)
qed

definition ok_stp :: "env \<Rightarrow> stp_node \<Rightarrow> stp_node \<times> eff list \<Rightarrow> bool" where
  "ok_stp env nb r \<longleftrightarrow> ok_result env (fst nb) (fst (fst r), snd r)"

lemma ok_apply_stp:
  assumes "node_ok node" "stp_inv (so_state out)" "macs_kept (nd_mac node) out"
  shows "ok_stp env (node, b) (apply_stp env out (node, b))"
proof -
  obtain b' frames where t: "transmit (nd_intf node) b (so_pending out) = (b', frames)" by fastforce
  have "node_ok (node\<lparr>nd_stp := so_state out, nd_mac := so_macs out\<rparr>)"
    using assms by (simp add: node_ok_def wf_node_intfs_def macs_kept_def)
  moreover have "sends_up env node (send_bpdus env (node\<lparr>nd_stp := s, nd_mac := m\<rparr>) frames)" for s m
    by (metis sends_up_bpdus sends_up_update(2,3))
  ultimately show ?thesis by (simp add: apply_stp_def t ok_stp_def ok_result_def up Let_def)
qed

lemma ok_stp_refl: "node_ok (fst nb) \<Longrightarrow> ok_stp env nb (nb, [Emit p a r])" "node_ok (fst nb) \<Longrightarrow> ok_stp env nb (nb, [])"
  by (simp_all add: ok_stp_def ok_result_effects)

lemma ok_stp_events: "ok_stp env nb (nb', es) \<Longrightarrow> sends_up env (fst nb) fs \<Longrightarrow> ok_stp env nb (nb', fs @ es)"
  by (simp add: ok_stp_def ok_result_def)

lemma ok_stp_recv:
  assumes "node_ok (fst nb)" shows "ok_stp env nb (layer2FrameRecvSTP env i h pkt nb)"
proof -
  obtain node b where nb: "nb = (node, b)" by fastforce
  have "ok_stp env nb (apply_stp env (ProcessBPDU (nd_stp node) (e_now env) (nd_mac node) n h p) nb)" for n p
    unfolding nb using assms nb by (intro ok_apply_stp stp_inv_ops macs_kept_ops) (simp_all add: node_okD)
  then have "ok_stp env nb (let (nb', es) = apply_stp env (ProcessBPDU (nd_stp node) (e_now env) (nd_mac node) n h p) nb
      in (nb', tcn_events p @ es))" for n p
    by (metis (no_types, lifting) case_prod_beta' ok_stp_events prod.collapse sends_up_tcn)
  then show ?thesis
    using assms unfolding layer2FrameRecvSTP_def nb Let_def prod.case by (auto simp: ok_stp_refl split: sum.split)
qed

lemma ok_stp_ops:
  assumes "node_ok (fst nb)"
  shows "ok_stp env nb (node_start_stp env nb)" "ok_stp env nb (fst (node_set_stp_priority env prio nb))"
    "ok_stp env nb (node_converge env nb)" "ok_stp env nb (node_age_out_bpdus env nb)"
    "ok_stp env nb (node_send_hello env nb)"
proof -
  obtain node b where nb: "nb = (node, b)" by fastforce
  have ok: "node_ok node" using assms nb by simp
  note i = node_okD(3) [OF ok]
  have "ok_stp env nb (apply_stp env (StartSTP (nd_stp node) lks intfs now (nd_mac node)) nb)" for lks intfs now
    unfolding nb by (intro ok_apply_stp ok stp_inv_ops i macs_kept_ops)
  then show "ok_stp env nb (node_start_stp env nb)"
    using ok by (simp add: node_start_stp_def nb ok_stp_def ok_result_effects Let_def case_prod_beta)
  show "ok_stp env nb (fst (node_set_stp_priority env prio nb))"
  proof -
    obtain out r where sp: "SetPriority (nd_stp node) prio (e_now env) (nd_mac node) = (out, r)" by fastforce
    have "ok_stp env nb (apply_stp env out nb)"
      unfolding nb using stp_inv_SetPriority [OF i, of prio "e_now env" "nd_mac node"]
        macs_kept_ops(2) [of "nd_mac node" "nd_stp node" prio "e_now env"] sp by (intro ok_apply_stp ok) simp_all
    then show ?thesis by (simp add: node_set_stp_priority_def nb sp)
  qed
  show "ok_stp env nb (node_converge env nb)"
    unfolding node_converge_def nb fst_conv by (intro ok_apply_stp ok stp_inv_ops i macs_kept_Converge)
  show "ok_stp env nb (node_age_out_bpdus env nb)"
    unfolding node_age_out_bpdus_def nb fst_conv by (intro ok_apply_stp ok stp_inv_ops i macs_kept_ops)
  show "ok_stp env nb (node_send_hello env nb)"
    using ok by (auto simp: node_send_hello_def nb ok_stp_def ok_result_def up split: prod.splits)
qed

lemma ok_stp_timers [handler_ok]:
  assumes "node_ok node"
  shows "ok_result env node (node_stop_stp node)" "ok_result env node (node_advance_port_states env node)"
    "ok_result env node (node_promote_forwarding_ports node)"
proof -
  note i = node_okD(3) [OF assms]
  show "ok_result env node (node_stop_stp node)"
    using stp_inv_StopSTP [OF i] assms by (simp add: node_stop_stp_def ok_result_def node_ok_set)
  show "ok_result env node (node_advance_port_states env node)"
    using stp_inv_advancePortStates [OF i, of "e_now env"] assms
    by (simp add: node_advance_port_states_def ok_result_def node_ok_set up case_prod_beta Let_def)
  show "ok_result env node (node_promote_forwarding_ports node)"
    using stp_inv_promoteForwardingPorts [OF i] assms
    by (simp add: node_promote_forwarding_ports_def ok_result_def node_ok_set up case_prod_beta Let_def)
qed

section \<open>Reception\<close>

lemma ok_on_node: "(\<And>node. node_ok node \<Longrightarrow> ok_result env node (f node)) \<Longrightarrow> node_ok (fst nb) \<Longrightarrow> ok_stp env nb (on_node f nb)"
  by (simp add: on_node_def ok_stp_def split: prod.split) (metis prod.collapse)

lemma ok_recv_l3: "node_ok node \<Longrightarrow> ok_result env node (recv_l3 env i h pkt node)"
  by (simp add: recv_l3_def PromotePacketToLayer3_def ok_result_effects handler_ok)

lemma ok_frame_recv:
  "node_ok (fst nb) \<Longrightarrow> ok_stp env nb (layer_2_frame_recv env i pkt nb)"
proof (induction env i pkt nb rule: layer_2_frame_recv.induct)
  case (1 env i pkt nb)
  have "ok_stp env nb (on_node (layer2FrameRecvLLDP env i h pkt) nb)"
    "ok_stp env nb (on_node (l2_switch_recv_frame env i pkt) nb)"
    "ok_stp env nb (on_node (recv_l3 env i h pkt) nb)" "ok_stp env nb (layer2FrameRecvSTP env i h pkt nb)" for h
    by (intro ok_on_node ok_stp_recv handler_ok ok_recv_l3 1(2); assumption)+
  with 1 show ?case
    by (subst layer_2_frame_recv.simps) (auto simp: ok_stp_refl split: option.split sum.split)
qed

lemma ok_deliver:
  "node_ok (fst nb) \<Longrightarrow> ok_stp env nb (deliverTransportFrame env i frame nb)"
  unfolding deliverTransportFrame_def
  using ok_frame_recv [of nb env i frame]
  by (auto simp: ok_stp_refl Let_def split: option.split prod.split) (auto simp: ok_stp_def)

end
