(* ===== verification/Machine.thy ===== *)
theory Machine
  imports Main "HOL-Library.While_Combinator"
begin

text \<open>
  The interface between a component that moves by steps and the proofs about all its runs: what
  every start satisfies and every step keeps holds in every reachable state.  The event bus and the
  network are interpretations.
\<close>

locale machine =
  fixes start :: "'s \<Rightarrow> bool" and step :: "'s \<Rightarrow> 's \<Rightarrow> bool" and inv :: "'s \<Rightarrow> bool"
  assumes start_inv: "start s \<Longrightarrow> inv s"
    and step_inv: "step s s' \<Longrightarrow> inv s \<Longrightarrow> inv s'"
begin

lemma run_inv: "step\<^sup>*\<^sup>* s s' \<Longrightarrow> inv s \<Longrightarrow> inv s'"
  by (induction rule: rtranclp_induct) (auto intro: step_inv)

lemma reachable_inv: "start s \<Longrightarrow> step\<^sup>*\<^sup>* s s' \<Longrightarrow> inv s'"
  using run_inv start_inv by blast

end

text \<open>Loops that may run forever: \<open>while_option\<close> with an invariant and with fuel.\<close>

lemma while_option_inv:
  assumes "while_option b c s = Some s'" "P s" "\<And>s. P s \<Longrightarrow> b s \<Longrightarrow> P (c s)"
  shows "P s' \<and> \<not> b s'"
  using while_option_rule [of P b c s s'] while_option_stop [of b c s s'] assms by blast

lemma while_option_fuel:
  "while_option b c s = Some s' \<longleftrightarrow>
     (\<exists>k. s' = (c ^^ k) s \<and> \<not> b s' \<and> (\<forall>j<k. b ((c ^^ j) s)))"
  (is "?l \<longleftrightarrow> ?r")
proof
  assume l: ?l
  then obtain k0 where k0: "\<not> b ((c ^^ k0) s)"
    by (auto simp: while_option_def split: if_splits)
  let ?k = "LEAST k. \<not> b ((c ^^ k) s)"
  have "s' = (c ^^ ?k) s" using l by (auto simp: while_option_def split: if_splits)
  moreover have "\<not> b ((c ^^ ?k) s)" using k0 by (rule LeastI)
  moreover have "\<forall>j<?k. b ((c ^^ j) s)" using not_less_Least by blast
  ultimately show ?r by blast
next
  assume ?r
  then obtain k where k: "s' = (c ^^ k) s" "\<not> b s'" "\<forall>j<k. b ((c ^^ j) s)" by blast
  have "(LEAST k. \<not> b ((c ^^ k) s)) = k"
    by (rule Least_equality) (use k in \<open>auto simp: not_less [symmetric]\<close>)
  with k show ?l by (auto simp: while_option_def)
qed

end
