(* ===== verification/EventBus.thy ===== *)
theory EventBus
  imports Prelude Machine
begin

text \<open>
  The event bus of \<open>src/src/events.go\<close> and the capture of \<open>src/src/simulation.go\<close> that listens to it.

  Any goroutine may call \<open>Emit\<close>; the locked sections of the Go code are the atomic operations
  \<open>Emit_enter\<close> and \<open>dispatch_next\<close>.  \<open>bus_step\<close> interleaves them freely.  \<open>EventBus_Emit\<close> is the
  uninterrupted run of one call, for a sink that emits nothing itself.  A sink is a number and
  \<open>deliver\<close> is what calling it does.  An event keeps the fields
  the model fills in; its time stamp is left out.
\<close>

record SimulationEvent =
  ev_Sequence :: "64 word"
  ev_Protocol :: string
  ev_Node :: string
  ev_From :: string
  ev_To :: string
  ev_Action :: string
  ev_Fields :: "(string \<times> string) list"

type_synonym sink_id = nat

record EventBus =
  eb_sequence :: "64 word"
  eb_sink :: "sink_id option"
  eb_pending :: "(SimulationEvent \<times> sink_id option) list"
  eb_dispatching :: bool

definition NewEventBus :: "EventBus" where
  "NewEventBus = \<lparr>eb_sequence = 0, eb_sink = None, eb_pending = [], eb_dispatching = False\<rparr>"

definition SetSink :: "EventBus \<Rightarrow> sink_id option \<Rightarrow> EventBus" where
  "SetSink bus sink = bus\<lparr>eb_sink := sink\<rparr>"

text \<open>The first locked section of \<open>Emit\<close>: True when this caller becomes the dispatcher.\<close>

definition Emit_enter :: "EventBus \<Rightarrow> SimulationEvent \<Rightarrow> EventBus \<times> bool" where
  "Emit_enter bus event =
     (let seq = eb_sequence bus + 1;
          bus1 = bus\<lparr>eb_sequence := seq,
                     eb_pending := eb_pending bus @ [(event\<lparr>ev_Sequence := seq\<rparr>, eb_sink bus)]\<rparr>
      in if eb_dispatching bus then (bus1, False) else (bus1\<lparr>eb_dispatching := True\<rparr>, True))"

text \<open>The locked section of the dispatch loop: the next event, or the end of dispatching.\<close>

definition dispatch_next :: "EventBus \<Rightarrow> EventBus \<times> (SimulationEvent \<times> sink_id option) option" where
  "dispatch_next bus =
     (case eb_pending bus of
        [] \<Rightarrow> (bus\<lparr>eb_pending := [], eb_dispatching := False\<rparr>, None)
      | next # rest \<Rightarrow> (bus\<lparr>eb_pending := rest\<rparr>, Some next))"

fun dispatch_all ::
  "(sink_id \<Rightarrow> SimulationEvent \<Rightarrow> 's \<Rightarrow> 's) \<Rightarrow> (SimulationEvent \<times> sink_id option) list \<Rightarrow> 's \<Rightarrow> 's" where
  "dispatch_all deliver [] st = st"
| "dispatch_all deliver ((event, sink) # rest) st =
     dispatch_all deliver rest (case sink of None \<Rightarrow> st | Some k \<Rightarrow> deliver k event st)"

definition EventBus_Emit ::
  "(sink_id \<Rightarrow> SimulationEvent \<Rightarrow> 's \<Rightarrow> 's) \<Rightarrow> SimulationEvent \<Rightarrow> EventBus \<times> 's \<Rightarrow> EventBus \<times> 's" where
  "EventBus_Emit deliver event bs =
     (let (bus, st) = bs; (bus1, dispatcher) = Emit_enter bus event in
      if \<not> dispatcher then (bus1, st)
      else (fst (dispatch_next (bus1\<lparr>eb_pending := []\<rparr>)), dispatch_all deliver (eb_pending bus1) st))"

definition bus_idle :: "EventBus \<Rightarrow> bool" where
  "bus_idle bus \<longleftrightarrow> \<not> eb_dispatching bus \<and> eb_pending bus = []"

text \<open>On an idle bus the event is numbered, delivered to the sink, and the bus is idle again.\<close>

lemma EventBus_Emit_idle:
  assumes "bus_idle bus"
  shows "EventBus_Emit deliver event (bus, st) =
    (bus\<lparr>eb_sequence := eb_sequence bus + 1\<rparr>,
     case eb_sink bus of None \<Rightarrow> st
     | Some k \<Rightarrow> deliver k (event\<lparr>ev_Sequence := eb_sequence bus + 1\<rparr>) st)"
  using assms
  by (cases bus) (auto simp: EventBus_Emit_def Emit_enter_def dispatch_next_def bus_idle_def Let_def split: option.split)

lemma bus_idle_Emit [simp]: "bus_idle bus \<Longrightarrow> bus_idle (fst (EventBus_Emit deliver event (bus, st)))"
  by (simp add: EventBus_Emit_idle) (simp add: bus_idle_def)

section \<open>Concurrent emitters\<close>

text \<open>
  A run of the bus: what has been delivered so far, and how many goroutines are inside the dispatch
  loop.
\<close>

record bus_run =
  br_bus :: "EventBus"
  br_delivered :: "(SimulationEvent \<times> sink_id option) list"
  br_dispatchers :: nat

definition bus_start :: "bus_run" where
  "bus_start = \<lparr>br_bus = NewEventBus, br_delivered = [], br_dispatchers = 0\<rparr>"

inductive bus_step :: "bus_run \<Rightarrow> bus_run \<Rightarrow> bool" where
  emit: "Emit_enter (br_bus r) event = (bus, claimed) \<Longrightarrow>
     bus_step r (r\<lparr>br_bus := bus, br_dispatchers := br_dispatchers r + (if claimed then 1 else 0)\<rparr>)"
| deliver: "br_dispatchers r > 0 \<Longrightarrow> dispatch_next (br_bus r) = (bus, Some next) \<Longrightarrow>
     bus_step r (r\<lparr>br_bus := bus, br_delivered := br_delivered r @ [next]\<rparr>)"
| finish: "br_dispatchers r > 0 \<Longrightarrow> dispatch_next (br_bus r) = (bus, None) \<Longrightarrow>
     bus_step r (r\<lparr>br_bus := bus, br_dispatchers := br_dispatchers r - 1\<rparr>)"
| set_sink: "bus_step r (r\<lparr>br_bus := SetSink (br_bus r) sink\<rparr>)"

inductive_cases bus_stepE: "bus_step r r'"

text \<open>All events, delivered and waiting, carry the numbers 1, 2, 3, \<dots> in order.\<close>

definition numbered :: "(SimulationEvent \<times> sink_id option) list \<Rightarrow> bool" where
  "numbered es \<longleftrightarrow> map (ev_Sequence \<circ> fst) es = map (\<lambda>i. word_of_nat (i + 1)) [0..<length es]"

definition bus_inv :: "bus_run \<Rightarrow> bool" where
  "bus_inv r \<longleftrightarrow>
     numbered (br_delivered r @ eb_pending (br_bus r)) \<and>
     eb_sequence (br_bus r) = word_of_nat (length (br_delivered r @ eb_pending (br_bus r))) \<and>
     br_dispatchers r = (if eb_dispatching (br_bus r) then 1 else 0) \<and>
     (eb_pending (br_bus r) \<noteq> [] \<longrightarrow> eb_dispatching (br_bus r))"

lemma numbered_snoc:
  "numbered (es @ [(e\<lparr>ev_Sequence := word_of_nat (length es) + 1\<rparr>, k)]) \<longleftrightarrow> numbered es"
  by (simp add: numbered_def algebra_simps)

lemma numbered_append: 
  assumes "numbered (es @ fs)" shows "numbered es"
proof -
  have "take (length es) (map (ev_Sequence \<circ> fst) (es @ fs)) =
      take (length es) (map (\<lambda>i. word_of_nat (i + 1)) [0..<length (es @ fs)])"
    using assms by (simp only: numbered_def)
  then show ?thesis by (simp add: numbered_def take_map take_upt)
qed

lemma bus_inv_start: "bus_inv bus_start"
  by (simp add: bus_inv_def bus_start_def NewEventBus_def numbered_def)

lemma bus_inv_step:
  assumes "bus_step r r'" "bus_inv r" shows "bus_inv r'"
  using assms
proof cases
  case (emit event bus claimed)
  let ?es = "br_delivered r @ eb_pending (br_bus r)"
  have "numbered (?es @ [(event\<lparr>ev_Sequence := word_of_nat (length ?es) + 1\<rparr>, eb_sink (br_bus r))])"
    using assms(2) by (subst numbered_snoc) (simp add: bus_inv_def)
  then show ?thesis using emit assms(2)
    by (auto simp: bus_inv_def Emit_enter_def Let_def split: if_splits)
next
  case (deliver bus "next")
  then show ?thesis using assms(2)
    by (auto simp: bus_inv_def dispatch_next_def split: list.splits)
next
  case (finish bus)
  then show ?thesis using assms(2)
    by (auto simp: bus_inv_def dispatch_next_def split: list.splits if_splits)
qed (auto simp: bus_inv_def SetSink_def)

interpretation bus: machine "\<lambda>r. r = bus_start" bus_step bus_inv
  by unfold_locales (use bus_inv_start bus_inv_step in blast)+

section \<open>Capture\<close>

text \<open>\<open>Simulator.handleEvent\<close>: \<open>cp_out\<close> is what the simulator's own sink has received.\<close>

record capture =
  cp_protocols :: "string list"
  cp_events :: "SimulationEvent list"
  cp_sink :: bool
  cp_out :: "SimulationEvent list"

definition beginCapture :: "string list \<Rightarrow> capture \<Rightarrow> capture" where
  "beginCapture protocols cap = cap\<lparr>cp_protocols := protocols, cp_events := []\<rparr>"

definition endCapture :: "capture \<Rightarrow> capture \<times> SimulationEvent list" where
  "endCapture cap = (cap\<lparr>cp_protocols := [], cp_events := []\<rparr>, cp_events cap)"

definition handleEvent :: "SimulationEvent \<Rightarrow> capture \<Rightarrow> capture" where
  "handleEvent event cap =
     (let cap1 = (if ev_Protocol event \<in> set (cp_protocols cap)
                  then cap\<lparr>cp_events := cp_events cap @ [event]\<rparr> else cap)
      in if cp_sink cap1 then cap1\<lparr>cp_out := cp_out cap1 @ [event]\<rparr> else cap1)"

lemma fold_handleEvent:
  "cp_events (fold handleEvent es cap) =
     cp_events cap @ filter (\<lambda>e. ev_Protocol e \<in> set (cp_protocols cap)) es \<and>
   cp_protocols (fold handleEvent es cap) = cp_protocols cap \<and>
   cp_sink (fold handleEvent es cap) = cp_sink cap \<and>
   cp_out (fold handleEvent es cap) = cp_out cap @ (if cp_sink cap then es else [])"
  by (induction es arbitrary: cap) (simp_all add: handleEvent_def Let_def)

end
