(* ===== verification/Graph.thy ===== *)
theory Graph
  imports NodeInv EventBus
begin

text \<open>
  The network: the graph of \<open>src/src/graph.go\<close>, the in-memory transport of
  \<open>src/src/transport_memory.go\<close>, the sending side of \<open>src/src/socket.go\<close>, and the operations that
  start outside any frame delivery.

  While the transport drains its queue, \<open>Send\<close> only appends, so delivering one frame is one atomic
  step (\<open>deliver_one\<close>).  A send from outside drains the queue before it returns; the drain may run
  for ever (a broadcast storm does), so it is a \<open>while_option\<close> and every operation that sends
  returns an option, None when it does not come back.  An operation that sends several frames runs
  on the network as the previous drain left it.
\<close>

datatype FrameTransport = MemoryTransport | UDPTransport

definition Transport_Name :: "FrameTransport \<Rightarrow> string" where
  "Transport_Name transport = (case transport of MemoryTransport \<Rightarrow> ''memory'' | UDPTransport \<Rightarrow> ''udp'')"

text \<open>What a topology file says of its presentation; \<open>rd_Positions\<close> is the map of node names, latest entry first.\<close>

record CanvasConfig = cv_Width :: int cv_Height :: int
record PositionConfig = ps_X :: int ps_Y :: int

record TopologyRenderData =
  rd_Description :: string
  rd_Summary :: string
  rd_DefaultSource :: string
  rd_DefaultDestination :: string
  rd_Canvas :: "CanvasConfig option"
  rd_Positions :: "(string \<times> PositionConfig) list"

record Graph =
  gr_name :: string
  gr_render :: TopologyRenderData
  gr_nodes :: "Node list"
  gr_links :: "Link list"
  gr_transport :: FrameTransport
  gr_queue :: "(intf_id \<times> bytes) list"
  gr_datagrams :: "(nat \<times> bytes) list"
  gr_transport_closed :: bool
  gr_bus :: EventBus
  gr_capture :: capture
  gr_trace :: bool
  gr_budget :: int
  gr_cascade :: int
  gr_started :: bool
  gr_closed :: bool
  gr_mac_counter :: "64 word"
  gr_now :: int

definition NODE_NAME_SIZE :: nat where "NODE_NAME_SIZE = 16"
definition TOPOLOGY_NAME_SIZE :: nat where "TOPOLOGY_NAME_SIZE = 32"
definition STP_BPDU_BUDGET :: int where "STP_BPDU_BUDGET = 10000"

definition create_new_graph_with_transport :: "string \<Rightarrow> FrameTransport \<Rightarrow> 64 word \<Rightarrow> int \<Rightarrow> Graph" where
  "create_new_graph_with_transport topology_name transport mac_counter now =
     \<lparr>gr_name = byteArrayString (name_array TOPOLOGY_NAME_SIZE topology_name),
      gr_render = \<lparr>rd_Description = [], rd_Summary = [], rd_DefaultSource = [], rd_DefaultDestination = [],
                   rd_Canvas = None, rd_Positions = []\<rparr>,
      gr_nodes = [], gr_links = [],
      gr_transport = transport, gr_queue = [], gr_datagrams = [], gr_transport_closed = False, gr_bus = NewEventBus,
      gr_capture = \<lparr>cp_protocols = [], cp_events = [], cp_sink = False, cp_out = []\<rparr>,
      gr_trace = False, gr_budget = 0, gr_cascade = 0, gr_started = False, gr_closed = False,
      gr_mac_counter = mac_counter, gr_now = now\<rparr>"

abbreviation create_new_graph :: "string \<Rightarrow> 64 word \<Rightarrow> int \<Rightarrow> Graph" where
  "create_new_graph topology_name \<equiv> create_new_graph_with_transport topology_name MemoryTransport"

text \<open>\<open>create_graph_node\<close>; a name longer than the array is cut.\<close>

definition new_node :: "string \<Rightarrow> Node" where
  "new_node node_name =
     \<lparr>nd_name = byteArrayString (name_array NODE_NAME_SIZE node_name), nd_device_type = None,
      nd_intf = replicate MAX_INTF_PER_NODE None, nd_is_loopback_config = False,
      nd_loopback_addr = zero_ip, nd_arp = init_arp_table, nd_mac = init_mac_table,
      nd_rt = InitRoutingTable, nd_vlan_interfaces = [], nd_rip = InitRIPState,
      nd_lldp = InitLLDPState, nd_stp = InitSTPState, nd_ping_reply_count = 0, nd_icmp_errors = []\<rparr>"

definition create_graph_node :: "string \<Rightarrow> Graph \<Rightarrow> Graph" where
  "create_graph_node node_name g = g\<lparr>gr_nodes := gr_nodes g @ [new_node node_name]\<rparr>"

definition set_node :: "nat \<Rightarrow> Node \<Rightarrow> Graph \<Rightarrow> Graph" where
  "set_node n node g = g\<lparr>gr_nodes := (gr_nodes g)[n := node]\<rparr>"

definition graph_create_interface :: "nat \<Rightarrow> string \<Rightarrow> Graph \<Rightarrow> string + Graph" where
  "graph_create_interface n interface_name g =
     (case create_node_interface (nd_intf (gr_nodes g ! n)) (gr_mac_counter g) interface_name of
        Inl e \<Rightarrow> Inl e
      | Inr (intfs, counter) \<Rightarrow>
          Inr (set_node n ((gr_nodes g ! n)\<lparr>nd_intf := intfs\<rparr>) g\<lparr>gr_mac_counter := counter\<rparr>))"

definition graph_insert_link :: "nat \<Rightarrow> string \<Rightarrow> nat \<Rightarrow> string \<Rightarrow> u32 \<Rightarrow> Graph \<Rightarrow> string + Graph" where
  "graph_insert_link n1 from_if n2 to_if c g =
     (case insert_link_between_two_nodes (map nd_intf (gr_nodes g)) (gr_links g) n1 n2 from_if to_if c of
        Inl e \<Rightarrow> Inl e
      | Inr (arrs, lks) \<Rightarrow>
          Inr (g\<lparr>gr_nodes := map2 (\<lambda>node intfs. node\<lparr>nd_intf := intfs\<rparr>) (gr_nodes g) arrs, gr_links := lks\<rparr>))"

section \<open>Lookups\<close>

definition intf_in :: "Node list \<Rightarrow> intf_id \<Rightarrow> Interface option" where
  "intf_in nodes x = (if fst x < length nodes then intf_of (nodes ! fst x) (snd x) else None)"

definition remote_of :: "Graph \<Rightarrow> intf_id \<Rightarrow> intf_id option" where
  "remote_of g x =
     (case intf_in (gr_nodes g) x of
        None \<Rightarrow> None | Some intf \<Rightarrow> get_remote_interface (gr_links g) x intf)"

text \<open>What a handler of node \<open>n\<close> can see of the rest of the network.\<close>

definition env_of :: "Graph \<Rightarrow> nat \<Rightarrow> env" where
  "env_of g n =
     \<lparr>e_links = gr_links g, e_self = n, e_now = gr_now g,
      e_peer = (\<lambda>i. case remote_of g (n, i) of None \<Rightarrow> None | Some y \<Rightarrow> intf_in (gr_nodes g) y),
      e_trace = gr_trace g\<rparr>"

definition get_nbr_node :: "Graph \<Rightarrow> intf_id \<Rightarrow> nat option" where
  "get_nbr_node g x = map_option fst (remote_of g x)"

definition findGraphNode :: "Graph \<Rightarrow> string \<Rightarrow> nat option" where
  "findGraphNode g name =
     (case List.extract (\<lambda>node. nd_name node = name) (gr_nodes g) of
        None \<Rightarrow> None | Some (earlier, _, _) \<Rightarrow> Some (length earlier))"

section \<open>Events\<close>

definition node_name_of :: "Graph \<Rightarrow> nat \<Rightarrow> string" where
  "node_name_of g n = (if n < length (gr_nodes g) then nd_name (gr_nodes g ! n) else ''Unknown'')"

definition emitEvent :: "SimulationEvent \<Rightarrow> Graph \<Rightarrow> Graph" where
  "emitEvent event g =
     (let (bus, cap) = EventBus_Emit (\<lambda>_. handleEvent) event (gr_bus g, gr_capture g)
      in g\<lparr>gr_bus := bus, gr_capture := cap\<rparr>)"

definition emitNodeEvent :: "nat \<Rightarrow> string \<Rightarrow> string \<Rightarrow> string \<Rightarrow> Graph \<Rightarrow> Graph" where
  "emitNodeEvent n protocol action reason g =
     emitEvent \<lparr>ev_Sequence = 0, ev_Protocol = protocol, ev_Node = node_name_of g n, ev_From = [],
       ev_To = [], ev_Action = action,
       ev_Fields = (if reason = [] then [] else [(''reason'', reason)])\<rparr> g"

definition SetEventSink :: "bool \<Rightarrow> Graph \<Rightarrow> Graph" where
  "SetEventSink sink g = g\<lparr>gr_bus := SetSink (gr_bus g) (if sink then Some 0 else None)\<rparr>"

section \<open>The transports\<close>

text \<open>
  A datagram of \<open>UDPTransport\<close> carries the name of the interface it is for, cut to its array, and the
  frame.  It waits in the socket of the receiving node; the system refuses a larger one.
\<close>

definition UDP_MAX_PAYLOAD :: nat where "UDP_MAX_PAYLOAD = 65507"

definition udp_payload :: "Interface \<Rightarrow> bytes \<Rightarrow> bytes" where
  "udp_payload remote frame = string_bytes (name_array IF_NAME_SIZE (get_interface_name remote)) @ frame"

definition udp_enqueue :: "intf_id \<Rightarrow> bytes \<Rightarrow> Graph \<Rightarrow> string + Graph" where
  "udp_enqueue y frame g =
     (case intf_in (gr_nodes g) y of
        None \<Rightarrow> Inl ''interface has no connected peer''
      | Some remote \<Rightarrow>
          if gr_transport_closed g then Inl ''UDP endpoint is missing''
          else if length (udp_payload remote frame) > UDP_MAX_PAYLOAD then Inl ''failed to send UDP frame''
          else Inr (g\<lparr>gr_datagrams := gr_datagrams g @ [(fst y, udp_payload remote frame)]\<rparr>))"

text \<open>
  \<open>Send\<close>: refused, or handed over.  The in-memory transport appends the frame to its queue under its
  lock and then drains it; with UDP the queue stays empty and the node's monitor reads its socket.
\<close>

definition transport_enqueue :: "intf_id \<Rightarrow> bytes \<Rightarrow> Graph \<Rightarrow> string + Graph" where
  "transport_enqueue x frame g =
     (case remote_of g x of
        None \<Rightarrow> Inl ''interface has no connected peer''
      | Some y \<Rightarrow>
          if \<not> IsUp (gr_links g) (case intf_in (gr_nodes g) x of None \<Rightarrow> None | Some intf \<Rightarrow> link intf)
          then Inl ''link is down''
          else
            (case gr_transport g of
               UDPTransport \<Rightarrow> udp_enqueue y frame g
             | MemoryTransport \<Rightarrow>
                 if gr_transport_closed g then Inl ''memory transport is closed''
                 else Inr (g\<lparr>gr_queue := gr_queue g @ [(y, frame)]\<rparr>)))"

text \<open>A send that fails in the transport is reported by \<open>send_frame\<close> as a dropped frame.\<close>

definition transport_failed :: "nat \<Rightarrow> bytes \<Rightarrow> Graph \<Rightarrow> Graph" where
  "transport_failed n frame g = emitNodeEvent n (frameProtocol frame) ''frame_dropped'' ''transport_error'' g"

definition enqueue_effect :: "nat \<Rightarrow> eff \<Rightarrow> Graph \<Rightarrow> Graph" where
  "enqueue_effect n e g =
     (case e of
        Emit protocol action reason \<Rightarrow> emitNodeEvent n protocol action reason g
      | Send i frame \<Rightarrow>
          (case transport_enqueue (n, i) frame g of
             Inl _ \<Rightarrow> transport_failed n frame g | Inr g' \<Rightarrow> g'))"

text \<open>The effects of a handler that runs inside the drain.\<close>

definition enqueue_effects :: "nat \<Rightarrow> eff list \<Rightarrow> Graph \<Rightarrow> Graph" where
  "enqueue_effects n es g = fold (enqueue_effect n) es g"

definition deliver_one :: "Graph \<Rightarrow> Graph" where
  "deliver_one g =
     (case gr_queue g of
        [] \<Rightarrow> g
      | ((n, i), frame) # rest \<Rightarrow>
          (let ((node, budget), es) =
                 deliverTransportFrame (env_of g n) i frame (gr_nodes g ! n, gr_budget g)
           in enqueue_effects n es (set_node n node (g\<lparr>gr_queue := rest, gr_budget := budget\<rparr>))))"

definition drain :: "Graph \<Rightarrow> Graph option" where
  "drain g = while_option (\<lambda>g. gr_queue g \<noteq> []) deliver_one g"

definition perform_effect :: "nat \<Rightarrow> eff \<Rightarrow> Graph \<Rightarrow> Graph option" where
  "perform_effect n e g =
     (case e of
        Emit protocol action reason \<Rightarrow> Some (emitNodeEvent n protocol action reason g)
      | Send i frame \<Rightarrow>
          (case transport_enqueue (n, i) frame g of
             Inl _ \<Rightarrow> Some (transport_failed n frame g) | Inr g' \<Rightarrow> drain g'))"

text \<open>The effects of an operation that starts outside the drain: each send drains the queue.\<close>

fun perform :: "nat \<Rightarrow> eff list \<Rightarrow> Graph \<Rightarrow> Graph option" where
  "perform n [] g = Some g"
| "perform n (e # es) g =
     (case perform_effect n e g of None \<Rightarrow> None | Some g' \<Rightarrow> perform n es g')"

definition run_on :: "nat \<Rightarrow> (env \<Rightarrow> Node \<Rightarrow> result) \<Rightarrow> Graph \<Rightarrow> Graph option" where
  "run_on n f g =
     (let (node, es) = f (env_of g n) (gr_nodes g ! n) in perform n es (set_node n node g))"

definition and_then :: "Graph option \<Rightarrow> (Graph \<Rightarrow> Graph option) \<Rightarrow> Graph option" where
  "and_then r f = (case r of None \<Rightarrow> None | Some g \<Rightarrow> f g)"

fun for_each :: "('a \<Rightarrow> Graph \<Rightarrow> Graph option) \<Rightarrow> 'a list \<Rightarrow> Graph \<Rightarrow> Graph option" where
  "for_each f [] g = Some g"
| "for_each f (x # xs) g = and_then (f x g) (for_each f xs)"

end
