(* ===== verification/Network.thy ===== *)
theory Network
  imports Graph
begin

text \<open>
  What can be asked of a running network: the spanning tree exchange over the whole graph
  (\<open>src/src/l2_stp.go\<close>), RIP, LLDP and ARP timers, echo requests, link changes, and the life cycle
  of \<open>src/src/graph.go\<close>.  \<open>command\<close> lists them and \<open>exec\<close> runs one.
\<close>

section \<open>Spanning tree exchanges\<close>

definition resetSTPBudget :: "Graph \<Rightarrow> Graph" where
  "resetSTPBudget g = g\<lparr>gr_budget := STP_BPDU_BUDGET\<rparr>"

definition beginSTPCascade :: "Graph \<Rightarrow> Graph" where
  "beginSTPCascade g =
     (let g1 = g\<lparr>gr_cascade := gr_cascade g + 1\<rparr> in if gr_cascade g1 = 1 then resetSTPBudget g1 else g1)"

definition endSTPCascade :: "Graph \<Rightarrow> Graph" where
  "endSTPCascade g = g\<lparr>gr_cascade := gr_cascade g - 1\<rparr>"

definition consumeSTPBudget :: "Graph \<Rightarrow> Graph \<times> bool" where
  "consumeSTPBudget g = (let g1 = g\<lparr>gr_budget := gr_budget g - 1\<rparr> in (g1, gr_budget g1 \<ge> 0))"

text \<open>\<open>transmit\<close> outside the drain: neighbours answer before the next BPDU leaves.\<close>

fun graph_transmit :: "nat \<Rightarrow> pendingBPDU list \<Rightarrow> Graph \<Rightarrow> Graph option" where
  "graph_transmit n [] g = Some g"
| "graph_transmit n ((port, bpdu) # rest) g =
     (let (g1, ok) = consumeSTPBudget g in
      if \<not> ok then Some g1
      else case intf_of (gr_nodes g1 ! n) (sp_intf port) of
        None \<Rightarrow> graph_transmit n rest g1
      | Some intf \<Rightarrow>
          and_then
            (run_on n (\<lambda>env. do_send env (buildSTPFrame (GetMac intf) (serializeBPDU bpdu)) (sp_intf port)) g1)
            (graph_transmit n rest))"

text \<open>The state change, the events and the transmissions that end every spanning tree operation.\<close>

definition graph_apply_stp :: "nat \<Rightarrow> stp_outcome \<Rightarrow> Graph \<Rightarrow> Graph option" where
  "graph_apply_stp n out g =
     and_then
       (run_on n (\<lambda>_ node. (node\<lparr>nd_stp := so_state out, nd_mac := so_macs out\<rparr>,
                            stp_change_events (so_changes out))) g)
       (graph_transmit n (so_pending out))"

definition in_cascade :: "(Graph \<Rightarrow> Graph option) \<Rightarrow> Graph \<Rightarrow> Graph option" where
  "in_cascade f g = map_option endSTPCascade (f (beginSTPCascade g))"

abbreviation stp_of :: "Graph \<Rightarrow> nat \<Rightarrow> STPState" where
  "stp_of g n \<equiv> nd_stp (gr_nodes g ! n)"

abbreviation macs_of :: "Graph \<Rightarrow> nat \<Rightarrow> mac_table" where
  "macs_of g n \<equiv> nd_mac (gr_nodes g ! n)"

definition graph_converge :: "nat \<Rightarrow> Graph \<Rightarrow> Graph option" where
  "graph_converge n g =
     (if \<not> st_enabled (stp_of g n) then Some g
      else in_cascade (graph_apply_stp n (Converge (stp_of g n) (gr_now g) (macs_of g n))) g)"

definition graph_start_stp :: "nat \<Rightarrow> Graph \<Rightarrow> Graph option" where
  "graph_start_stp n g =
     (if st_enabled (stp_of g n) then Some g
      else in_cascade
        (graph_apply_stp n
           (StartSTP (stp_of g n) (gr_links g) (nd_intf (gr_nodes g ! n)) (gr_now g) (macs_of g n)))
        (emitNodeEvent n ''STP'' ''stp_enabled'' [] g))"

definition graph_set_priority :: "nat \<Rightarrow> u16 \<Rightarrow> Graph \<Rightarrow> Graph option \<times> bool" where
  "graph_set_priority n priority g =
     (let (out, ok) = SetPriority (stp_of g n) priority (gr_now g) (macs_of g n) in
      if \<not> ok then (Some g, False)
      else if st_enabled (stp_of g n) then (in_cascade (graph_apply_stp n out) g, True)
      else (graph_apply_stp n out g, True))"

definition graph_send_hello :: "nat \<Rightarrow> Graph \<Rightarrow> Graph option" where
  "graph_send_hello n g =
     (if \<not> st_enabled (stp_of g n) then Some g
      else in_cascade (graph_transmit n (SendHello (stp_of g n))) g)"

definition graph_age_out :: "nat \<Rightarrow> Graph \<Rightarrow> Graph option" where
  "graph_age_out n g =
     (if \<not> st_enabled (stp_of g n) then Some g
      else in_cascade (graph_apply_stp n (ageOutBPDUs (stp_of g n) (gr_now g) (macs_of g n))) g)"

text \<open>The one-second ticker of \<open>run\<close>.\<close>

definition graph_stp_tick :: "nat \<Rightarrow> Graph \<Rightarrow> Graph option" where
  "graph_stp_tick n g = and_then (graph_age_out n g) (run_on n node_advance_port_states)"

text \<open>\<open>ConvergeSpanningTree\<close>: rounds over all bridges until no mark moves, then promotion.\<close>

fun converge_round :: "nat list \<Rightarrow> Graph \<Rightarrow> (Graph \<times> bool) option" where
  "converge_round [] g = Some (g, True)"
| "converge_round (n # ns) g =
     (if \<not> st_enabled (stp_of g n) then converge_round ns g
      else case graph_converge n g of
        None \<Rightarrow> None
      | Some g1 \<Rightarrow>
          (case converge_round ns g1 of
             None \<Rightarrow> None
           | Some (g2, converged) \<Rightarrow>
               Some (g2, converged \<and> convergenceMark (stp_of g n) = convergenceMark (stp_of g1 n))))"

fun converge_rounds :: "nat \<Rightarrow> Graph \<Rightarrow> Graph option" where
  "converge_rounds 0 g = Some g"
| "converge_rounds (Suc rounds) g =
     (case converge_round [0..<length (gr_nodes g)] g of
        None \<Rightarrow> None
      | Some (g1, converged) \<Rightarrow> if converged then Some g1 else converge_rounds rounds g1)"

definition ConvergeSpanningTree :: "Graph \<Rightarrow> Graph option" where
  "ConvergeSpanningTree g =
     and_then (converge_rounds (length (gr_nodes g) + 1) (resetSTPBudget g))
       (for_each (\<lambda>n. run_on n (\<lambda>_. node_promote_forwarding_ports)) [0..<length (gr_nodes g)])"

section \<open>Timers of the other protocols\<close>

definition graph_send_routing_updates :: "nat \<Rightarrow> Graph \<Rightarrow> Graph option" where
  "graph_send_routing_updates n g =
     (let node = gr_nodes g ! n in
      for_each (\<lambda>(dst, data). run_on n (\<lambda>env. DemotePacketToLayer3 env data PROTO_RIP dst))
        (SendRoutingUpdates (nd_rip node) (nd_rt node) (e_peer (env_of g n)) (nd_intf node)) g)"

definition node_start_rip :: "Node \<Rightarrow> result" where
  "node_start_rip node =
     (if rip_enabled (nd_rip node) then (node, [])
      else (node\<lparr>nd_rip := StartRIP (nd_rip node)\<rparr>, [Emit ''RIP'' ''rip_enabled'' []]))"

definition node_stop_rip :: "Node \<Rightarrow> result" where
  "node_stop_rip node =
     (if \<not> rip_enabled (nd_rip node) then (node, [])
      else (let (rip', rt') = StopRIP (nd_rip node) (nd_rt node)
            in (node\<lparr>nd_rip := rip', nd_rt := rt'\<rparr>, [Emit ''RIP'' ''rip_disabled'' []])))"

definition node_check_expired_routes :: "env \<Rightarrow> Node \<Rightarrow> result" where
  "node_check_expired_routes env node =
     (let out = CheckExpiredRoutes (nd_rip node) (nd_rt node) (e_now env)
      in (node\<lparr>nd_rip := ro_state out, nd_rt := ro_rt out\<rparr>,
          map (\<lambda>(action, _). Emit ''RIP'' action []) (ro_events out)))"

text \<open>The triggered update: the daemon clears the pending trigger and sends.\<close>

definition graph_triggered_update :: "nat \<Rightarrow> Graph \<Rightarrow> Graph option" where
  "graph_triggered_update n g =
     (let node = gr_nodes g ! n in
      if \<not> rip_trigger (nd_rip node) then Some g
      else graph_send_routing_updates n
             (set_node n (node\<lparr>nd_rip := (nd_rip node)\<lparr>rip_trigger := False\<rparr>\<rparr>) g))"

text \<open>The tickers of \<open>start_arp_table_cleanup\<close> and \<open>start_mac_table_cleanup\<close>.\<close>

definition node_arp_cleanup :: "env \<Rightarrow> Node \<Rightarrow> result" where
  "node_arp_cleanup env node = (node\<lparr>nd_arp := fst (arp_table_cleanup_expired (nd_arp node) (e_now env))\<rparr>, [])"

definition node_mac_cleanup :: "env \<Rightarrow> Node \<Rightarrow> result" where
  "node_mac_cleanup env node = (node\<lparr>nd_mac := fst (mac_table_cleanup_expired (nd_mac node) (e_now env))\<rparr>, [])"

section \<open>Links\<close>

text \<open>\<open>findGraphLink\<close>: over all interfaces that are the first end of a link.\<close>

definition intf_ids :: "Graph \<Rightarrow> intf_id list" where
  "intf_ids g = concat (map (\<lambda>n. map (\<lambda>i. (n, i)) [0..<length (nd_intf (gr_nodes g ! n))]) [0..<length (gr_nodes g)])"

definition end_matches :: "Graph \<Rightarrow> intf_id \<Rightarrow> string \<Rightarrow> string \<Rightarrow> bool" where
  "end_matches g x node_name if_nm \<longleftrightarrow>
     node_name_of g (fst x) = node_name \<and>
     (case intf_in (gr_nodes g) x of None \<Rightarrow> False | Some intf \<Rightarrow> get_interface_name intf = if_nm)"

definition first_end_of :: "Graph \<Rightarrow> intf_id \<Rightarrow> nat option" where
  "first_end_of g x =
     (case intf_in (gr_nodes g) x of
        None \<Rightarrow> None
      | Some intf \<Rightarrow>
          (case link intf of
             None \<Rightarrow> None | Some k \<Rightarrow> if intf1 (gr_links g ! k) = x then Some k else None))"

definition link_matches :: "Graph \<Rightarrow> string \<Rightarrow> string \<Rightarrow> string \<Rightarrow> string \<Rightarrow> nat \<Rightarrow> bool" where
  "link_matches g from_node from_if to_node to_if k \<longleftrightarrow>
     (let l = gr_links g ! k in
      (end_matches g (intf1 l) from_node from_if \<and> end_matches g (intf2 l) to_node to_if) \<or>
      (end_matches g (intf1 l) to_node to_if \<and> end_matches g (intf2 l) from_node from_if))"

definition findGraphLink :: "Graph \<Rightarrow> string \<Rightarrow> string \<Rightarrow> string \<Rightarrow> string \<Rightarrow> nat option" where
  "findGraphLink g from_node from_if to_node to_if =
     List.find (link_matches g from_node from_if to_node to_if)
       (List.map_filter (first_end_of g) (intf_ids g))"

text \<open>The state change of \<open>SetLinkState\<close>: every bridge forgets what it learned and starts over.\<close>

definition set_link_up :: "nat \<Rightarrow> bool \<Rightarrow> Graph \<Rightarrow> Graph" where
  "set_link_up k b g = g\<lparr>gr_links := (gr_links g)[k := (gr_links g ! k)\<lparr>up := b\<rparr>]\<rparr>"

definition reset_bridge :: "Link list \<Rightarrow> Node \<Rightarrow> Node" where
  "reset_bridge lks node =
     node\<lparr>nd_mac := fst (flush_mac_table (nd_mac node)),
          nd_stp := resetForTopologyChange (nd_stp node) lks (nd_intf node)\<rparr>"

definition change_link :: "nat \<Rightarrow> bool \<Rightarrow> Graph \<Rightarrow> Graph option" where
  "change_link k b g =
     (if up (gr_links g ! k) = b then Some g
      else
        (let g1 = set_link_up k b g
         in ConvergeSpanningTree (g1\<lparr>gr_nodes := map (reset_bridge (gr_links g1)) (gr_nodes g1)\<rparr>)))"

section \<open>Life cycle\<close>

definition graph_Start :: "Graph \<Rightarrow> string + Graph" where
  "graph_Start g =
     (if gr_closed g then Inl ''graph is closed''
      else if gr_started g then Inr g else Inr (g\<lparr>gr_started := True\<rparr>))"

definition graph_Stop :: "Graph \<Rightarrow> Graph" where
  "graph_Stop g = (if \<not> gr_started g then g else g\<lparr>gr_started := False\<rparr>)"

definition transport_Close :: "Graph \<Rightarrow> Graph" where
  "transport_Close g =
     (case gr_transport g of
        MemoryTransport \<Rightarrow> g\<lparr>gr_transport_closed := True, gr_queue := []\<rparr>
      | UDPTransport \<Rightarrow> g\<lparr>gr_transport_closed := True, gr_datagrams := []\<rparr>)"

definition graph_Close :: "Graph \<Rightarrow> Graph" where
  "graph_Close g =
     (if gr_closed g then g
      else (transport_Close (if gr_started g then g\<lparr>gr_started := False\<rparr> else g))\<lparr>gr_closed := True\<rparr>)"

definition cleanup_node :: "nat \<Rightarrow> Graph \<Rightarrow> Graph option" where
  "cleanup_node n g =
     and_then (run_on n StopLLDP g)
       (\<lambda>g. and_then (run_on n (\<lambda>_. node_stop_rip) g) (run_on n (\<lambda>_. node_stop_stp)))"

definition cleanup_graph_resources :: "Graph \<Rightarrow> Graph option" where
  "cleanup_graph_resources g =
     map_option graph_Close (for_each cleanup_node [0..<length (gr_nodes g)] (graph_Stop g))"

section \<open>Commands\<close>

datatype command =
    CreateNode string
  | CreateInterface nat string
  | InsertLink nat string nat string u32
  | SetLoopback nat string
  | SetAddress nat string string byte
  | SetAccess nat nat u16
  | SetTrunk nat nat u16 "u16 list"
  | AddVlan nat u16 string byte
  | AddStaticRoute nat string byte string string
  | Wait int
  | Ping nat string
  | Probe nat string byte
  | EroPing nat string string
  | ArpMaintain nat
  | ArpCleanup nat
  | MacCleanup nat
  | LldpOn nat
  | LldpOff nat
  | LldpTick nat
  | LldpExpire nat
  | RipOn nat
  | RipOff nat
  | RipUpdate nat
  | RipTrigger nat
  | RipExpire nat
  | StpOn nat
  | StpOff nat
  | StpPriority nat u16
  | StpHello nat
  | StpTick nat
  | StpSettle
  | LinkChange nat bool
  | Cleanup

definition only_if :: "bool \<Rightarrow> (Graph \<Rightarrow> Graph option) \<Rightarrow> Graph \<Rightarrow> Graph option" where
  "only_if b f g = (if b then f g else Some g)"

definition or_same :: "Graph \<Rightarrow> string + Graph \<Rightarrow> Graph option" where
  "or_same g r = (case r of Inl _ \<Rightarrow> Some g | Inr g' \<Rightarrow> Some g')"

definition set_intf :: "nat \<Rightarrow> nat \<Rightarrow> (Interface \<Rightarrow> Interface \<times> bool) \<Rightarrow> Node \<Rightarrow> Node" where
  "set_intf n i f node =
     (case intf_of node i of
        None \<Rightarrow> node | Some intf \<Rightarrow> node\<lparr>nd_intf := (nd_intf node)[i := Some (fst (f intf))]\<rparr>)"

definition configure :: "nat \<Rightarrow> (Node \<Rightarrow> Node) \<Rightarrow> Graph \<Rightarrow> Graph option" where
  "configure n f g = Some (set_node n (f (gr_nodes g ! n)) g)"

definition node_of_command :: "command \<Rightarrow> nat list" where
  "node_of_command c =
     (case c of
        CreateInterface n _ \<Rightarrow> [n] | InsertLink n _ m _ _ \<Rightarrow> [n, m] | SetLoopback n _ \<Rightarrow> [n]
      | SetAddress n _ _ _ \<Rightarrow> [n] | SetAccess n _ _ \<Rightarrow> [n] | SetTrunk n _ _ _ \<Rightarrow> [n] | AddVlan n _ _ _ \<Rightarrow> [n]
      | AddStaticRoute n _ _ _ _ \<Rightarrow> [n] | Ping n _ \<Rightarrow> [n] | Probe n _ _ \<Rightarrow> [n] | EroPing n _ _ \<Rightarrow> [n]
      | ArpMaintain n \<Rightarrow> [n] | ArpCleanup n \<Rightarrow> [n] | MacCleanup n \<Rightarrow> [n] | LldpOn n \<Rightarrow> [n]
      | LldpOff n \<Rightarrow> [n] | LldpTick n \<Rightarrow> [n] | LldpExpire n \<Rightarrow> [n] | RipOn n \<Rightarrow> [n] | RipOff n \<Rightarrow> [n]
      | RipUpdate n \<Rightarrow> [n] | RipTrigger n \<Rightarrow> [n] | RipExpire n \<Rightarrow> [n] | StpOn n \<Rightarrow> [n] | StpOff n \<Rightarrow> [n]
      | StpPriority n _ \<Rightarrow> [n] | StpHello n \<Rightarrow> [n] | StpTick n \<Rightarrow> [n] | _ \<Rightarrow> [])"

text \<open>One command; a command for a node that does not exist has no receiver and does nothing.\<close>

definition run_command :: "command \<Rightarrow> Graph \<Rightarrow> Graph option" where
  "run_command c g =
     (case c of
        CreateNode nm \<Rightarrow> Some (create_graph_node nm g)
      | CreateInterface n nm \<Rightarrow> or_same g (graph_create_interface n nm g)
      | InsertLink n a m b c \<Rightarrow> or_same g (graph_insert_link n a m b c g)
      | SetLoopback n ip \<Rightarrow> configure n (\<lambda>node. fst (SetLoopbackIP node ip)) g
      | SetAddress n ifn ip msk \<Rightarrow> configure n (\<lambda>node. fst (node_set_intf_ip_address node ifn ip msk)) g
      | SetAccess n i v \<Rightarrow> configure n (set_intf n i (\<lambda>intf. SetAccessVLAN intf v)) g
      | SetTrunk n i v vs \<Rightarrow> configure n (set_intf n i (\<lambda>intf. SetTrunkConfig intf v vs)) g
      | AddVlan n v ip msk \<Rightarrow> configure n (\<lambda>node. fst (AddVlanInterface node v ip msk)) g
      | AddStaticRoute n d msk gw oif \<Rightarrow>
          configure n (\<lambda>node. node\<lparr>nd_rt := fst (AddRoute (nd_rt node) d msk gw oif)\<rparr>) g
      | Wait t \<Rightarrow> Some (g\<lparr>gr_now := gr_now g + max 0 t\<rparr>)
      | Ping n ip \<Rightarrow> run_on n (\<lambda>env. Layer5PingFunc env ip) g
      | Probe n ip ttl \<Rightarrow> run_on n (\<lambda>env. Layer5TracerouteProbeFunc env ip ttl) g
      | EroPing n ip ero \<Rightarrow> run_on n (\<lambda>env. Layer3EroPingFunc env ip ero) g
      | ArpMaintain n \<Rightarrow> run_on n (\<lambda>env node. fst (maintain_arp_pending_entries env node)) g
      | ArpCleanup n \<Rightarrow> run_on n node_arp_cleanup g
      | MacCleanup n \<Rightarrow> run_on n node_mac_cleanup g
      | LldpOn n \<Rightarrow> run_on n StartLLDP g
      | LldpOff n \<Rightarrow> run_on n StopLLDP g
      | LldpTick n \<Rightarrow> run_on n (\<lambda>env node. (node, SendAdvertisements env node)) g
      | LldpExpire n \<Rightarrow> run_on n node_remove_expired_neighbors g
      | RipOn n \<Rightarrow> run_on n (\<lambda>_. node_start_rip) g
      | RipOff n \<Rightarrow> run_on n (\<lambda>_. node_stop_rip) g
      | RipUpdate n \<Rightarrow> graph_send_routing_updates n g
      | RipTrigger n \<Rightarrow> graph_triggered_update n g
      | RipExpire n \<Rightarrow> run_on n node_check_expired_routes g
      | StpOn n \<Rightarrow> graph_start_stp n g
      | StpOff n \<Rightarrow> run_on n (\<lambda>_. node_stop_stp) g
      | StpPriority n p \<Rightarrow> fst (graph_set_priority n p g)
      | StpHello n \<Rightarrow> graph_send_hello n g
      | StpTick n \<Rightarrow> graph_stp_tick n g
      | StpSettle \<Rightarrow> ConvergeSpanningTree g
      | LinkChange k b \<Rightarrow> only_if (k < length (gr_links g)) (change_link k b) g
      | Cleanup \<Rightarrow> cleanup_graph_resources g)"

definition exec :: "command \<Rightarrow> Graph \<Rightarrow> Graph option" where
  "exec c g = only_if (\<forall>n\<in>set (node_of_command c). n < length (gr_nodes g)) (run_command c) g"

end
