(* ===== verification/GraphInv.thy ===== *)
theory GraphInv
  imports Network
begin

text \<open>
  What every command keeps of the network: the invariants of every node, the wiring (each linked
  interface is an end of its link, and the other way round), frames queued only for linked
  interfaces, and an idle event bus.  \<open>exec\<close> is an instance of \<open>machine\<close>.
\<close>

definition linked :: "Node list \<Rightarrow> intf_id \<Rightarrow> nat option" where
  "linked nodes x = (case intf_in nodes x of None \<Rightarrow> None | Some intf \<Rightarrow> link intf)"

definition wired :: "Node list \<Rightarrow> Link list \<Rightarrow> bool" where
  "wired nodes lks \<longleftrightarrow>
     (\<forall>k<length lks. linked nodes (intf1 (lks ! k)) = Some k \<and> linked nodes (intf2 (lks ! k)) = Some k) \<and>
     (\<forall>x k. linked nodes x = Some k \<longrightarrow> k < length lks \<and> (x = intf1 (lks ! k) \<or> x = intf2 (lks ! k)))"

definition queue_ok :: "Graph \<Rightarrow> bool" where
  "queue_ok g \<longleftrightarrow> (\<forall>(x, f)\<in>set (gr_queue g). linked (gr_nodes g) x \<noteq> None)"

definition graph_ok :: "Graph \<Rightarrow> bool" where
  "graph_ok g \<longleftrightarrow> (\<forall>node\<in>set (gr_nodes g). node_ok node) \<and> wired (gr_nodes g) (gr_links g) \<and>
     queue_ok g \<and> bus_idle (gr_bus g)"

text \<open>Operations that only send keep the shape of the network.\<close>

definition same_net :: "Graph \<Rightarrow> Graph \<Rightarrow> bool" where
  "same_net g g' \<longleftrightarrow> map nd_intf (gr_nodes g') = map nd_intf (gr_nodes g) \<and> gr_links g' = gr_links g \<and>
     map nd_name (gr_nodes g') = map nd_name (gr_nodes g) \<and> gr_transport_closed g' = gr_transport_closed g \<and>
     gr_transport g' = gr_transport g"

definition good :: "Graph \<Rightarrow> Graph option \<Rightarrow> bool" where
  "good g r \<longleftrightarrow> (\<forall>g'. r = Some g' \<longrightarrow> graph_ok g' \<and> same_net g g')"

named_theorems net_ok "operations of the network that keep the invariant"

lemma same_net_refl [simp]: "same_net g g"
  by (simp add: same_net_def)

lemma same_net_trans: "same_net a b \<Longrightarrow> same_net b c \<Longrightarrow> same_net a c"
  by (simp add: same_net_def)

lemma same_net_length: "same_net g g' \<Longrightarrow> length (gr_nodes g') = length (gr_nodes g)"
  unfolding same_net_def by (metis length_map)

lemma intf_in_cong:
  assumes "map nd_intf nodes' = map nd_intf nodes" shows "intf_in nodes' = intf_in nodes"
proof
  fix x
  have l: "length nodes' = length nodes" using assms by (metis length_map)
  have "nd_intf (nodes' ! n) = nd_intf (nodes ! n)" if "n < length nodes" for n
    using assms l that by (metis nth_map)
  with l show "intf_in nodes' x = intf_in nodes x" by (simp add: intf_in_def intf_of_def)
qed

lemma same_net_intf: "same_net g g' \<Longrightarrow> intf_in (gr_nodes g') = intf_in (gr_nodes g)"
  by (rule intf_in_cong) (simp add: same_net_def)

lemma same_net_linked: "same_net g g' \<Longrightarrow> linked (gr_nodes g') = linked (gr_nodes g)"
  by (rule ext) (simp add: linked_def same_net_intf)

lemma same_net_remote: "same_net g g' \<Longrightarrow> remote_of g' = remote_of g"
proof (rule ext)
  fix x
  assume s: "same_net g g'"
  then have "gr_links g' = gr_links g" by (simp add: same_net_def)
  then show "remote_of g' x = remote_of g x" by (simp add: remote_of_def same_net_intf [OF s] split: option.split)
qed

lemma graph_ok_node: "graph_ok g \<Longrightarrow> n < length (gr_nodes g) \<Longrightarrow> node_ok (gr_nodes g ! n)"
  by (simp add: graph_ok_def)

text \<open>Links are symmetric.\<close>

lemma wired_end:
  "wired nodes lks \<Longrightarrow> k < length lks \<Longrightarrow> x = intf1 (lks ! k) \<or> x = intf2 (lks ! k) \<Longrightarrow> linked nodes x = Some k"
  by (auto simp: wired_def)

lemma wired_link:
  "wired nodes lks \<Longrightarrow> linked nodes x = Some k \<Longrightarrow> k < length lks \<and> (x = intf1 (lks ! k) \<or> x = intf2 (lks ! k))"
  unfolding wired_def by blast

lemma remote_of_linked_eq:
  "remote_of g x =
     (case linked (gr_nodes g) x of None \<Rightarrow> None
      | Some k \<Rightarrow> if k \<ge> length (gr_links g) then None
          else if intf1 (gr_links g ! k) = x then Some (intf2 (gr_links g ! k))
          else if intf2 (gr_links g ! k) = x then Some (intf1 (gr_links g ! k)) else None)"
  by (simp add: remote_of_def get_remote_interface_def linked_def split: option.split)

lemma remote_of_cases:
  assumes "remote_of g x = Some y"
  obtains k where "linked (gr_nodes g) x = Some k" "k < length (gr_links g)"
    "(x = intf1 (gr_links g ! k) \<and> y = intf2 (gr_links g ! k)) \<or>
     (x = intf2 (gr_links g ! k) \<and> y = intf1 (gr_links g ! k))"
  using assms by (auto simp: remote_of_linked_eq split: option.splits if_splits)

lemma remote_of_Some:
  assumes "wired (gr_nodes g) (gr_links g)" "remote_of g x = Some y"
  shows "linked (gr_nodes g) y \<noteq> None"
  by (rule remote_of_cases [OF assms(2)]) (use wired_end [OF assms(1)] in blast)

lemma remote_of_sym:
  assumes w: "wired (gr_nodes g) (gr_links g)" and r: "remote_of g x = Some y"
  shows "remote_of g y = Some x"
proof (rule remote_of_cases [OF r])
  fix k
  assume k: "k < length (gr_links g)" and ends:
    "(x = intf1 (gr_links g ! k) \<and> y = intf2 (gr_links g ! k)) \<or>
     (x = intf2 (gr_links g ! k) \<and> y = intf1 (gr_links g ! k))"
  then have "linked (gr_nodes g) y = Some k" using wired_end [OF w k, of y] by blast
  with k ends show ?thesis by (auto simp: remote_of_linked_eq)
qed

lemma remote_of_linked:
  assumes "wired (gr_nodes g) (gr_links g)" "linked (gr_nodes g) x \<noteq> None" shows "remote_of g x \<noteq> None"
  using assms wired_link [OF assms(1), of x] by (auto simp: remote_of_linked_eq)

section \<open>Sequencing\<close>

lemma goodI: "graph_ok g \<Longrightarrow> good g (Some g)"
  by (simp add: good_def)

lemma good_None [simp]: "good g None"
  by (simp add: good_def)

lemma good_step: "graph_ok g1 \<Longrightarrow> same_net g g1 \<Longrightarrow> good g1 r \<Longrightarrow> good g r"
  unfolding good_def by (blast intro: same_net_trans)

lemma good_Some [simp]: "good g (Some g') \<longleftrightarrow> graph_ok g' \<and> same_net g g'"
  by (simp add: good_def)

lemma good_and_then:
  assumes "good g r" "\<And>g'. graph_ok g' \<Longrightarrow> same_net g g' \<Longrightarrow> good g' (f g')"
  shows "good g (and_then r f)"
proof (cases r)
  case (Some g1)
  with assms(1) have "graph_ok g1" "same_net g g1" by simp_all
  with assms(2) [OF this] Some show ?thesis by (simp add: and_then_def good_step)
qed (simp add: and_then_def)

lemma good_for_each:
  assumes "graph_ok g" "\<And>x g'. x \<in> set xs \<Longrightarrow> graph_ok g' \<Longrightarrow> same_net g g' \<Longrightarrow> good g' (f x g')"
  shows "good g (for_each f xs g)"
  using assms
proof (induction xs arbitrary: g)
  case (Cons x xs)
  have "good g' (for_each f xs g')" if "graph_ok g'" "same_net g g'" for g'
    using Cons.IH [OF that(1)] Cons.prems(2) same_net_trans [OF that(2)] by auto
  with Cons.prems show ?case by (auto intro!: good_and_then)
qed simp

lemma good_map_option:
  "good g r \<Longrightarrow> (\<And>g'. graph_ok g' \<Longrightarrow> same_net g g' \<Longrightarrow> graph_ok (f g') \<and> same_net g' (f g')) \<Longrightarrow> good g (map_option f r)"
  by (cases r) (auto intro: same_net_trans)

section \<open>Sending\<close>

lemma graph_ok_fields [simp]:
  "graph_ok (g\<lparr>gr_budget := b\<rparr>) \<longleftrightarrow> graph_ok g" "same_net g (g'\<lparr>gr_budget := b\<rparr>) \<longleftrightarrow> same_net g g'"
  "graph_ok (g\<lparr>gr_cascade := c\<rparr>) \<longleftrightarrow> graph_ok g" "same_net g (g'\<lparr>gr_cascade := c\<rparr>) \<longleftrightarrow> same_net g g'"
  "graph_ok (g\<lparr>gr_trace := t\<rparr>) \<longleftrightarrow> graph_ok g" "same_net g (g'\<lparr>gr_trace := t\<rparr>) \<longleftrightarrow> same_net g g'"
  "graph_ok (g\<lparr>gr_now := i\<rparr>) \<longleftrightarrow> graph_ok g" "same_net g (g'\<lparr>gr_now := i\<rparr>) \<longleftrightarrow> same_net g g'"
  "graph_ok (g\<lparr>gr_started := s\<rparr>) \<longleftrightarrow> graph_ok g" "same_net g (g'\<lparr>gr_started := s\<rparr>) \<longleftrightarrow> same_net g g'"
  "graph_ok (g\<lparr>gr_closed := s\<rparr>) \<longleftrightarrow> graph_ok g" "same_net g (g'\<lparr>gr_closed := s\<rparr>) \<longleftrightarrow> same_net g g'"
  "graph_ok (g\<lparr>gr_mac_counter := w\<rparr>) \<longleftrightarrow> graph_ok g" "same_net g (g'\<lparr>gr_mac_counter := w\<rparr>) \<longleftrightarrow> same_net g g'"
  "graph_ok (g\<lparr>gr_capture := cap\<rparr>) \<longleftrightarrow> graph_ok g" "same_net g (g'\<lparr>gr_capture := cap\<rparr>) \<longleftrightarrow> same_net g g'"
  "graph_ok (g\<lparr>gr_datagrams := ds\<rparr>) \<longleftrightarrow> graph_ok g" "same_net g (g'\<lparr>gr_datagrams := ds\<rparr>) \<longleftrightarrow> same_net g g'"
  by (simp_all add: graph_ok_def queue_ok_def same_net_def)

lemma emitEvent_fields [simp]:
  "gr_nodes (emitEvent e g) = gr_nodes g" "gr_links (emitEvent e g) = gr_links g"
  "gr_queue (emitEvent e g) = gr_queue g" "gr_transport (emitEvent e g) = gr_transport g"
  "gr_datagrams (emitEvent e g) = gr_datagrams g" "gr_started (emitEvent e g) = gr_started g" "gr_transport_closed (emitEvent e g) = gr_transport_closed g"
  "gr_now (emitEvent e g) = gr_now g" "gr_budget (emitEvent e g) = gr_budget g" "gr_trace (emitEvent e g) = gr_trace g"
  by (simp_all add: emitEvent_def split: prod.split)

lemma emitNodeEvent_fields [simp]:
  "gr_nodes (emitNodeEvent n p a r g) = gr_nodes g" "gr_links (emitNodeEvent n p a r g) = gr_links g"
  "gr_queue (emitNodeEvent n p a r g) = gr_queue g"
  "gr_transport_closed (emitNodeEvent n p a r g) = gr_transport_closed g"
  "gr_transport (emitNodeEvent n p a r g) = gr_transport g"
  "gr_datagrams (emitNodeEvent n p a r g) = gr_datagrams g" "gr_started (emitNodeEvent n p a r g) = gr_started g"
  "gr_now (emitNodeEvent n p a r g) = gr_now g" "gr_budget (emitNodeEvent n p a r g) = gr_budget g"
  "gr_trace (emitNodeEvent n p a r g) = gr_trace g"
  by (simp_all add: emitNodeEvent_def)

lemma bus_idle_emitEvent [simp]: "bus_idle (gr_bus g) \<Longrightarrow> bus_idle (gr_bus (emitEvent e g))"
  using bus_idle_Emit [of "gr_bus g" "\<lambda>_. handleEvent" e "gr_capture g"]
  by (simp add: emitEvent_def case_prod_beta Let_def)

lemma ok_emitEvent [net_ok]: "graph_ok g \<Longrightarrow> graph_ok (emitEvent e g) \<and> same_net g (emitEvent e g)"
  by (simp add: graph_ok_def queue_ok_def same_net_def)

lemma ok_emit [net_ok]: "graph_ok g \<Longrightarrow> graph_ok (emitNodeEvent n p a r g) \<and> same_net g (emitNodeEvent n p a r g)"
  by (simp add: emitNodeEvent_def ok_emitEvent)

lemma ok_set_node:
  assumes "graph_ok g" "node_ok node" "same_config (gr_nodes g ! n) node" "n < length (gr_nodes g)"
  shows "graph_ok (set_node n node g) \<and> same_net g (set_node n node g)"
proof -
  have s: "same_net g (set_node n node g)"
    using assms(3,4) by (simp add: same_net_def set_node_def same_config_def map_update list_update_same_conv)
  have "\<forall>node'\<in>set (gr_nodes (set_node n node g)). node_ok node'"
    using assms(1,2,4) by (auto simp: set_node_def graph_ok_def dest!: set_update_subset_insert [THEN subsetD])
  then show ?thesis using assms(1) s same_net_linked [OF s]
    by (simp add: graph_ok_def wired_def queue_ok_def) (simp add: set_node_def)
qed

lemma ok_enqueue:
  assumes "graph_ok g" "transport_enqueue x frame g = Inr g'" shows "graph_ok g' \<and> same_net g g'"
  using assms remote_of_Some [of g x]
  by (fastforce simp: transport_enqueue_def udp_enqueue_def graph_ok_def queue_ok_def same_net_def
      split: option.splits if_splits FrameTransport.splits)

lemma ok_enqueue_effect:
  "graph_ok g \<Longrightarrow> graph_ok (enqueue_effect n e g) \<and> same_net g (enqueue_effect n e g)"
  using ok_enqueue [of g] ok_emit
  by (auto simp: enqueue_effect_def transport_failed_def split: eff.split sum.split)

lemma ok_enqueue_effects:
  "graph_ok g \<Longrightarrow> graph_ok (enqueue_effects n es g) \<and> same_net g (enqueue_effects n es g)"
  unfolding enqueue_effects_def
proof (induction es arbitrary: g)
  case (Cons e es)
  with ok_enqueue_effect [of g n e] show ?case by (metis fold_simps(2) same_net_trans)
qed simp

lemma ok_pop: "graph_ok g \<Longrightarrow> gr_queue g = q # qs \<Longrightarrow> graph_ok (g\<lparr>gr_queue := qs\<rparr>) \<and> same_net g (g\<lparr>gr_queue := qs\<rparr>)"
  by (auto simp: graph_ok_def queue_ok_def same_net_def)

lemma queue_target: "graph_ok g \<Longrightarrow> gr_queue g = ((n, i), f) # qs \<Longrightarrow> n < length (gr_nodes g)"
  by (auto simp: graph_ok_def queue_ok_def linked_def intf_in_def split: if_splits)

lemma ok_deliver_one: 
  assumes "graph_ok g" shows "graph_ok (deliver_one g) \<and> same_net g (deliver_one g)"
proof (cases "gr_queue g")
  case (Cons q qs)
  obtain n i f where q: "q = ((n, i), f)" by (cases q) auto
  obtain node b es where d: "deliverTransportFrame (env_of g n) i f (gr_nodes g ! n, gr_budget g) = ((node, b), es)"
    by (metis surj_pair)
  have n: "n < length (gr_nodes g)" using queue_target [OF assms] Cons q by blast
  have r: "node_ok node" "same_config (gr_nodes g ! n) node"
    using ok_deliver [of "(gr_nodes g ! n, gr_budget g)" "env_of g n" i f] graph_ok_node [OF assms n] d
    by (simp_all add: ok_stp_def ok_result_def)
  let ?g = "g\<lparr>gr_queue := qs, gr_budget := b\<rparr>"
  have g: "graph_ok ?g" "same_net g ?g" using ok_pop [OF assms Cons] by simp_all
  from ok_set_node [OF g(1) r(1)] r(2) n have s: "graph_ok (set_node n node ?g)" "same_net ?g (set_node n node ?g)" by simp_all
  from ok_enqueue_effects [OF s(1), of n es] same_net_trans [OF same_net_trans [OF g(2) s(2)]] show ?thesis
    by (simp add: deliver_one_def Cons q d)
qed (simp add: deliver_one_def assms)

lemma good_drain: 
  assumes "graph_ok g" shows "good g (drain g)"
proof -
  have "graph_ok g' \<and> same_net g g'" if "drain g = Some g'" for g'
  proof -
    have "(graph_ok g' \<and> same_net g g') \<and> \<not> gr_queue g' \<noteq> []"
    proof (rule while_option_inv [OF that [unfolded drain_def]])
      fix h assume "graph_ok h \<and> same_net g h"
      with ok_deliver_one [of h] same_net_trans [of g h]
      show "graph_ok (deliver_one h) \<and> same_net g (deliver_one h)" by simp
    qed (simp add: assms)
    then show ?thesis by simp
  qed
  then show ?thesis by (simp add: good_def)
qed

lemma drain_empty: "drain g = Some g' \<Longrightarrow> gr_queue g' = []"
  using while_option_stop [of "\<lambda>g. gr_queue g \<noteq> []" deliver_one g g'] by (simp add: drain_def)

lemma good_perform_effect:
  assumes "graph_ok g" shows "good g (perform_effect n e g)"
proof (cases e)
  case (Send i f)
  show ?thesis
  proof (cases "transport_enqueue (n, i) f g")
    case (Inr g')
    from ok_enqueue [OF assms Inr] good_step [OF _ _ good_drain, of g' g] show ?thesis
      by (simp add: perform_effect_def Send Inr)
  qed (simp add: perform_effect_def Send transport_failed_def ok_emit [OF assms])
qed (simp add: perform_effect_def ok_emit [OF assms])

lemma good_perform [net_ok]: "graph_ok g \<Longrightarrow> good g (perform n es g)"
proof (induction es arbitrary: g)
  case (Cons e es)
  show ?case
  proof (cases "perform_effect n e g")
    case (Some g')
    with good_perform_effect [OF Cons.prems, of n e] have "graph_ok g'" "same_net g g'" by simp_all
    with good_step [OF _ _ Cons.IH, of g' g] Some show ?thesis by simp
  qed simp
qed simp

lemma good_run_on [net_ok]:
  assumes "graph_ok g" "n < length (gr_nodes g)"
    "\<And>env node. node_ok node \<Longrightarrow> ok_result env node (f env node)"
  shows "good g (run_on n f g)"
proof -
  obtain node es where r: "f (env_of g n) (gr_nodes g ! n) = (node, es)" by fastforce
  have "node_ok node \<and> same_config (gr_nodes g ! n) node"
    using assms(3) [OF graph_ok_node [OF assms(1,2)], of "env_of g n"] r by (simp add: ok_result_def)
  with ok_set_node [OF assms(1) _ _ assms(2)] have "graph_ok (set_node n node g)" "same_net g (set_node n node g)"
    by simp_all
  with good_step [OF _ _ good_perform, of "set_node n node g" g] show ?thesis by (simp add: run_on_def r)
qed

section \<open>Operations\<close>

lemma good_transmit [net_ok]:
  "graph_ok g \<Longrightarrow> n < length (gr_nodes g) \<Longrightarrow> good g (graph_transmit n pending g)"
proof (induction n pending g rule: graph_transmit.induct)
  case (2 n port bpdu rest g)
  let ?g = "g\<lparr>gr_budget := gr_budget g - 1\<rparr>"
  have g: "graph_ok ?g" "same_net g ?g" "n < length (gr_nodes ?g)" using 2(3,4) by simp_all
  have send: "good ?g (run_on n (\<lambda>env. do_send env frame i) ?g)" for frame i
    by (intro good_run_on g) (simp add: do_send_def ok_result_effects up)
  show ?case
  proof (cases "gr_budget ?g \<ge> 0")
    case ok: True
    show ?thesis
    proof (cases "intf_of (gr_nodes ?g ! n) (sp_intf port)")
      case None
      with 2(1) [of "(?g, True)" ?g True] ok g have "good ?g (graph_transmit n rest ?g)"
        by (simp add: consumeSTPBudget_def Let_def)
      then show ?thesis using None ok good_step [OF g(1,2)] by (simp add: consumeSTPBudget_def Let_def)
    next
      case (Some intf)
      have "good ?g (and_then (run_on n (\<lambda>env. do_send env (buildSTPFrame (GetMac intf) (serializeBPDU bpdu))
              (sp_intf port)) ?g) (graph_transmit n rest))"
        by (rule good_and_then [OF send], rule 2(2) [of "(?g, True)" ?g True intf])
           (use ok Some g same_net_length in \<open>simp_all add: consumeSTPBudget_def Let_def\<close>)
      then show ?thesis using Some ok good_step [OF g(1,2)] by (simp add: consumeSTPBudget_def Let_def)
    qed
  next
    case False
    then show ?thesis using g by (simp add: consumeSTPBudget_def Let_def)
  qed
qed simp

lemma good_apply_stp [net_ok]:
  assumes "graph_ok g" "n < length (gr_nodes g)" "stp_inv (so_state out)" "macs_kept (macs_of g n) out"
  shows "good g (graph_apply_stp n out g)"
proof -
  let ?node = "(gr_nodes g ! n)\<lparr>nd_stp := so_state out, nd_mac := so_macs out\<rparr>"
  have "node_ok ?node"
    using graph_ok_node [OF assms(1,2)] assms(3,4) by (simp add: node_ok_def wf_node_intfs_def macs_kept_def)
  from ok_set_node [OF assms(1) this _ assms(2)]
  have s: "graph_ok (set_node n ?node g)" "same_net g (set_node n ?node g)" by simp_all
  from good_step [OF s good_perform [OF s(1)]]
  have "good g (run_on n (\<lambda>_ node. (node\<lparr>nd_stp := so_state out, nd_mac := so_macs out\<rparr>,
                            stp_change_events (so_changes out))) g)"
    by (simp add: run_on_def)
  then show ?thesis unfolding graph_apply_stp_def
    by (rule good_and_then) (use good_transmit same_net_length assms(2) in metis)
qed

lemma beginSTPCascade_fields [simp]:
  "gr_nodes (beginSTPCascade g) = gr_nodes g" "gr_links (beginSTPCascade g) = gr_links g"
  "gr_queue (beginSTPCascade g) = gr_queue g" "gr_bus (beginSTPCascade g) = gr_bus g"
  "gr_now (beginSTPCascade g) = gr_now g" "gr_transport (beginSTPCascade g) = gr_transport g"
  "gr_transport_closed (beginSTPCascade g) = gr_transport_closed g"
  by (simp_all add: beginSTPCascade_def resetSTPBudget_def Let_def)

lemma graph_ok_beginSTPCascade [simp]: "graph_ok (beginSTPCascade g) \<longleftrightarrow> graph_ok g"
  "same_net g (beginSTPCascade g')= same_net g g'"
  by (simp_all add: graph_ok_def queue_ok_def same_net_def)

lemma good_in_cascade:
  assumes "graph_ok g" "good (beginSTPCascade g) (f (beginSTPCascade g))" shows "good g (in_cascade f g)"
proof -
  have "good g (f (beginSTPCascade g))"
    by (rule good_step [OF _ _ assms(2)]) (simp_all add: assms(1))
  then show ?thesis unfolding in_cascade_def by (rule good_map_option) (simp add: endSTPCascade_def)
qed

lemma good_stp [net_ok]:
  assumes "graph_ok g" "n < length (gr_nodes g)"
  shows "good g (graph_converge n g)" "good g (graph_start_stp n g)" "good g (fst (graph_set_priority n p g))"
    "good g (graph_send_hello n g)" "good g (graph_age_out n g)"
proof -
  note i = node_okD(3) [OF graph_ok_node [OF assms]]
  have apply': "good h (in_cascade (graph_apply_stp n out) h)"
    if "graph_ok h" "gr_nodes h = gr_nodes g" "stp_inv (so_state out)" "macs_kept (macs_of g n) out" for h out
    by (intro good_in_cascade good_apply_stp) (use that assms(2) in simp_all)
  show "good g (graph_converge n g)"
    using assms i by (simp add: graph_converge_def apply' stp_inv_Converge)
  have "good (emitNodeEvent n a b c g) (in_cascade (graph_apply_stp n (StartSTP (stp_of g n) (gr_links g)
      (nd_intf (gr_nodes g ! n)) (gr_now g) (macs_of g n))) (emitNodeEvent n a b c g))" for a b c
    using assms i ok_emit [OF assms(1)] by (intro apply') (simp_all add: stp_inv_StartSTP macs_kept_ops)
  from good_step [OF conjunct1 [OF ok_emit [OF assms(1)]] conjunct2 [OF ok_emit [OF assms(1)]] this] assms(1)
  show "good g (graph_start_stp n g)" by (simp add: graph_start_stp_def)
  obtain out r where sp: "SetPriority (stp_of g n) p (gr_now g) (macs_of g n) = (out, r)" by fastforce
  have o: "stp_inv (so_state out)" "macs_kept (macs_of g n) out"
    using stp_inv_SetPriority [OF i, of p "gr_now g" "macs_of g n"] sp
      macs_kept_ops(2) [of "macs_of g n" "stp_of g n" p "gr_now g"] by simp_all
  then show "good g (fst (graph_set_priority n p g))"
    using assms good_apply_stp [OF assms o] by (simp add: graph_set_priority_def sp apply')
  show "good g (graph_send_hello n g)"
    using assms by (simp add: graph_send_hello_def good_in_cascade good_transmit)
  show "good g (graph_age_out n g)"
    using assms i by (simp add: graph_age_out_def apply' stp_inv_ageOutBPDUs macs_kept_ops)
qed

lemma good_converge_round:
  "graph_ok g \<Longrightarrow> \<forall>n\<in>set ns. n < length (gr_nodes g) \<Longrightarrow> good g (map_option fst (converge_round ns g))"
proof (induction ns g rule: converge_round.induct)
  case (2 n ns g)
  show ?case
  proof (cases "st_enabled (stp_of g n)")
    case True
    show ?thesis
    proof (cases "graph_converge n g")
      case (Some g1)
      with good_stp(1) [OF 2(3), of n] 2(4) have g1: "graph_ok g1" "same_net g g1" by simp_all
      have "good g1 (map_option fst (converge_round ns g1))"
        by (rule 2(2)) (use True Some g1 2(4) same_net_length in simp_all)
      from good_step [OF g1 this] True Some show ?thesis
        by (cases "converge_round ns g1") auto
    qed (simp add: True)
  next
    case False
    with 2 show ?thesis by simp
  qed
qed simp

lemma good_converge_rounds: "graph_ok g \<Longrightarrow> good g (converge_rounds k g)"
proof (induction k arbitrary: g)
  case (Suc k)
  show ?case
  proof (cases "converge_round [0..<length (gr_nodes g)] g")
    case (Some r)
    obtain g1 c where r: "r = (g1, c)" by fastforce
    have "graph_ok g1" "same_net g g1"
      using good_converge_round [OF Suc.prems, of "[0..<length (gr_nodes g)]"] Some r by simp_all
    with good_step [OF _ _ Suc.IH, of g1 g] Some r show ?thesis by simp
  qed simp
qed simp

lemma good_ConvergeSpanningTree [net_ok]:
  assumes "graph_ok g" shows "good g (ConvergeSpanningTree g)"
proof -
  let ?g = "resetSTPBudget g"
  have g: "graph_ok ?g" "same_net g ?g" using assms by (simp_all add: resetSTPBudget_def)
  have "good ?g (ConvergeSpanningTree g)"
    unfolding ConvergeSpanningTree_def
    by (intro good_and_then good_converge_rounds good_for_each good_run_on ok_stp_timers g)
       (auto simp: same_net_length resetSTPBudget_def)
  with good_step [OF g] show ?thesis by blast
qed

lemma good_stp_tick [net_ok]: "graph_ok g \<Longrightarrow> n < length (gr_nodes g) \<Longrightarrow> good g (graph_stp_tick n g)"
  unfolding graph_stp_tick_def by (intro good_and_then good_stp good_run_on ok_stp_timers) (simp_all add: same_net_length)

lemma good_send_updates [net_ok]:
  "graph_ok g \<Longrightarrow> n < length (gr_nodes g) \<Longrightarrow> good g (graph_send_routing_updates n g)"
  unfolding graph_send_routing_updates_def Let_def
  by (intro good_for_each) (auto simp: same_net_length intro!: good_run_on ok_demote3)

lemma good_triggered [net_ok]:
  assumes "graph_ok g" "n < length (gr_nodes g)" shows "good g (graph_triggered_update n g)"
proof -
  let ?node = "(gr_nodes g ! n)\<lparr>nd_rip := (nd_rip (gr_nodes g ! n))\<lparr>rip_trigger := False\<rparr>\<rparr>"
  have "node_ok ?node" using graph_ok_node [OF assms] by (simp add: node_ok_def wf_node_intfs_def)
  from ok_set_node [OF assms(1) this _ assms(2)]
  have s: "graph_ok (set_node n ?node g)" "same_net g (set_node n ?node g)" by simp_all
  with good_step [OF s good_send_updates [OF s(1)], of n] assms same_net_length [OF s(2)] show ?thesis
    by (simp add: graph_triggered_update_def Let_def)
qed

lemma ok_rip_ops [handler_ok]:
  assumes "node_ok node"
  shows "ok_result env node (node_start_rip node)" "ok_result env node (node_stop_rip node)"
    "ok_result env node (node_check_expired_routes env node)"
proof -
  note r = node_okD(4) [OF assms]
  have n: "node_ok (node\<lparr>nd_rip := rip, nd_rt := rt\<rparr>)" if "rip_inv (rip_routes rip) rt" for rip rt
    by (rule node_ok_set(5) [OF assms that])
  show "ok_result env node (node_start_rip node)"
    using n [of "(nd_rip node)\<lparr>rip_enabled := True, rip_trigger := False\<rparr>" "nd_rt node"] r assms
    by (simp add: node_start_rip_def ok_result_def StartRIP_def)
  show "ok_result env node (node_stop_rip node)"
    using n StopRIP_clears [OF r] assms
    by (auto simp: node_stop_rip_def ok_result_def split: prod.split intro!: n)
  show "ok_result env node (node_check_expired_routes env node)"
    using n [OF rip_inv_CheckExpiredRoutes [OF r], of "e_now env"]
    by (simp add: node_check_expired_routes_def ok_result_def Let_def up)
qed

lemma ok_cleanups [handler_ok]:
  assumes "node_ok node"
  shows "ok_result env node (node_arp_cleanup env node)" "ok_result env node (node_mac_cleanup env node)"
  using assms node_okD [OF assms]
  by (simp_all add: node_arp_cleanup_def node_mac_cleanup_def ok_result_def node_ok_set arp_inv_cleanup mac_table_inv_cleanup)

lemma ok_pings [handler_ok]:
  assumes "node_ok node"
  shows "ok_result env node (Layer5PingFunc env ip node)" "ok_result env node (Layer5TracerouteProbeFunc env ip ttl node)"
    "ok_result env node (Layer3EroPingFunc env ip ero node)"
  using assms
  by (auto simp: Layer5PingFunc_def Layer5TracerouteProbeFunc_def Layer3EroPingFunc_def
      demotePacketToLayer3WithTTL_def ok_result_effects handler_ok
      simp del: then_do_simps intro!: ok_result_then split: sum.split)

lemma good_cleanup_node: "graph_ok g \<Longrightarrow> n < length (gr_nodes g) \<Longrightarrow> good g (cleanup_node n g)"
  unfolding cleanup_node_def
  by (intro good_and_then good_run_on handler_ok) (simp_all add: same_net_length)

end
