(* ===== verification/GraphRun.thy ===== *)
theory GraphRun
  imports GraphInv
begin

text \<open>
  Building and reconfiguring a network keeps its invariant, so every command does; runs of commands
  are a \<open>machine\<close>.  Then what one delivery does to the queue, and what a settled tree looks like.
\<close>

section \<open>Construction\<close>

lemma node_ok_new [simp]: "node_ok (new_node nm)"
  by (simp add: node_ok_def new_node_def arp_inv_def init_arp_table_def mac_table_inv_def init_mac_table_def
      stp_inv_def InitSTPState_def rip_inv_def InitRIPState_def InitRoutingTable_def rt_inv_def
      lldp_inv_def InitLLDPState_def wf_node_intfs_def intf_names_ok_def names_unique_def intf_at_def MAX_INTF_PER_NODE_def
      source_look_def live_route_def fun_eq_iff)

lemma graph_ok_new [simp]: "graph_ok (create_new_graph_with_transport nm tr c t)"
  by (simp add: graph_ok_def create_new_graph_with_transport_def wired_def linked_def intf_in_def queue_ok_def bus_idle_def NewEventBus_def)

lemma linked_append: "linked (nodes @ [new_node nm]) x = linked nodes x"
  by (auto simp: linked_def intf_in_def nth_append intf_of_def intf_at_def new_node_def)

lemma graph_okI:
  assumes "\<forall>node\<in>set (gr_nodes g'). node_ok node" "wired (gr_nodes g') (gr_links g')"
    "graph_ok g" "gr_queue g' = gr_queue g" "gr_bus g' = gr_bus g"
    "\<And>x. linked (gr_nodes g) x \<noteq> None \<Longrightarrow> linked (gr_nodes g') x \<noteq> None"
  shows "graph_ok g'"
proof -
  have "linked (gr_nodes g') (fst q) \<noteq> None" if "q \<in> set (gr_queue g)" for q
    using assms(3) assms(6) [of "fst q"] that by (auto simp: graph_ok_def queue_ok_def case_prod_beta)
  then have "queue_ok g'" by (auto simp: queue_ok_def assms(4) case_prod_beta)
  with assms show ?thesis by (simp add: graph_ok_def)
qed

lemma graph_ok_create_node: "graph_ok g \<Longrightarrow> graph_ok (create_graph_node nm g)"
  by (rule graph_okI [of _ g]) (auto simp: create_graph_node_def linked_append wired_def graph_ok_def)

text \<open>One interface of one node changes; its links stay.\<close>

definition update_intf :: "nat \<Rightarrow> nat \<Rightarrow> Interface \<Rightarrow> Node list \<Rightarrow> Node list" where
  "update_intf n i intf nodes = nodes[n := (nodes ! n)\<lparr>nd_intf := (nd_intf (nodes ! n))[i := Some intf]\<rparr>]"

lemma intf_in_update:
  "n < length nodes \<Longrightarrow> i < length (nd_intf (nodes ! n)) \<Longrightarrow>
     intf_in (update_intf n i intf nodes) x = (if x = (n, i) then Some intf else intf_in nodes x)"
  by (cases x) (auto simp: intf_in_def update_intf_def intf_of_def intf_at_def nth_list_update)

lemma linked_update:
  "n < length nodes \<Longrightarrow> i < length (nd_intf (nodes ! n)) \<Longrightarrow>
     linked (update_intf n i intf nodes) x = (if x = (n, i) then link intf else linked nodes x)"
  by (simp add: linked_def intf_in_update)

lemma node_ok_intf:
  assumes "node_ok node" "wf_intf intf" "valid_name (get_interface_name intf)"
    "\<And>j b. intf_of node j = Some b \<Longrightarrow> get_interface_name b = get_interface_name intf \<Longrightarrow> j = i"
  shows "node_ok (node\<lparr>nd_intf := (nd_intf node)[i := Some intf]\<rparr>)"
proof -
  have s: "set ((nd_intf node)[i := Some intf]) \<subseteq> insert (Some intf) (set (nd_intf node))"
    by (rule set_update_subset_insert)
  have "wf_node_intfs (node\<lparr>nd_intf := (nd_intf node)[i := Some intf]\<rparr>)"
    using assms(1,2) s by (auto simp: wf_node_intfs_def node_ok_def)
  moreover have "intf_names_ok ((nd_intf node)[i := Some intf])"
  proof -
    have "names_unique ((nd_intf node)[i := Some intf])"
      unfolding names_unique_def
    proof (intro allI impI)
      fix k j a b
      assume ab: "intf_at ((nd_intf node)[i := Some intf]) k = Some a" "intf_at ((nd_intf node)[i := Some intf]) j = Some b"
        "get_interface_name a = get_interface_name b"
      have u: "names_unique (nd_intf node)" using assms(1) by (simp add: node_ok_def intf_names_ok_def)
      have old: "(l = i \<and> c = intf) \<or> (l \<noteq> i \<and> intf_of node l = Some c)"
        if "intf_at ((nd_intf node)[i := Some intf]) l = Some c" for l c
        using that by (cases "l = i") (auto simp: intf_at_def intf_of_def split: if_splits)
      from old [OF ab(1)] old [OF ab(2)] show "k = j"
        using ab(3) assms(4) u unfolding names_unique_def intf_of_def by metis
    qed
    then show ?thesis using assms(1,3) s by (auto simp: intf_names_ok_def node_ok_def)
  qed
  ultimately show ?thesis using assms(1) by (simp add: node_ok_def)
qed

lemma nodes_ok_update:
  assumes "\<forall>node\<in>set nodes. node_ok node" "n < length nodes" "node_ok node'"
  shows "\<forall>node\<in>set (nodes[n := node']). node_ok node"
  using assms set_update_subset_insert [of nodes n node'] by auto

lemma slot_loop_Some: "slot_loop k xs = Some i \<Longrightarrow> k \<le> i \<and> i < k + length xs \<and> xs ! (i - k) = None"
  by (induction k xs rule: slot_loop.induct) (auto simp: nth_Cons' Suc_diff_Suc)

lemma graph_ok_create_interface:
  assumes "graph_ok g" "n < length (gr_nodes g)" "valid_name nm" "graph_create_interface n nm g = Inr g'"
  shows "graph_ok g'"
proof -
  let ?intfs = "nd_intf (gr_nodes g ! n)"
  obtain mac c where mc: "generate_unique_mac_address (gr_mac_counter g) = (mac, c)" by fastforce
  let ?intf = "\<lparr>if_name = name_array IF_NAME_SIZE nm, link = None, intf_nw_props = init_intf_nw_props\<lparr>mac_addr := mac\<rparr>\<rparr>"
  obtain i where i: "get_node_intf_available_slot ?intfs = Some i"
    and g': "g' = g\<lparr>gr_nodes := update_intf n i ?intf (gr_nodes g), gr_mac_counter := c\<rparr>"
    using assms(4) mc
    by (auto simp: graph_create_interface_def create_node_interface_def set_node_def update_intf_def
        split: if_splits option.splits)
  have slot: "i < length ?intfs" "?intfs ! i = None"
    using slot_loop_Some [of 0 ?intfs i] i by (simp_all add: get_node_intf_available_slot_def)
  note ii = linked_update [OF assms(2) slot(1), of ?intf]
  have none: "linked (gr_nodes g) (n, i) = None" using slot by (simp add: linked_def intf_in_def intf_of_def intf_at_def)
  then have same: "linked (gr_nodes g') x = linked (gr_nodes g) x" for x by (simp add: g' ii)
  have nm: "get_interface_name ?intf = nm"
    using assms(3) by (simp add: get_interface_name_def byteArrayString_padded)
  have "get_node_if_by_name ?intfs nm = None"
    using assms(4) by (auto simp: graph_create_interface_def create_node_interface_def split: if_splits)
  then have fresh: "get_interface_name b \<noteq> nm" if "intf_of (gr_nodes g ! n) j = Some b" for j b
    using that unfolding get_node_if_by_name_None intf_of_def intf_at_def by (metis nth_mem option.distinct(1))
  have "node_ok ((gr_nodes g ! n)\<lparr>nd_intf := ?intfs[i := Some ?intf]\<rparr>)"
    using graph_ok_node [OF assms(1,2)] assms(3) fresh
    by (intro node_ok_intf wf_init_intf) (simp_all add: nm)
  from nodes_ok_update [OF _ assms(2) this] have ok: "\<forall>node\<in>set (gr_nodes g'). node_ok node"
    using assms(1) by (simp add: g' update_intf_def graph_ok_def)
  have w: "wired (gr_nodes g') (gr_links g')"
    using assms(1) same by (simp add: graph_ok_def wired_def) (simp add: g')
  show ?thesis by (rule graph_okI [OF ok w assms(1)]) (simp_all add: same, simp_all add: g')
qed

lemma graph_ok_update_intf:
  assumes "graph_ok g" "intf_in (gr_nodes g) (n, i) = Some intf" "link intf' = link intf"
    "wf_intf intf \<Longrightarrow> wf_intf intf'" "get_interface_name intf' = get_interface_name intf"
  shows "graph_ok (g\<lparr>gr_nodes := update_intf n i intf' (gr_nodes g)\<rparr>)" (is "graph_ok ?g")
proof -
  have n: "n < length (gr_nodes g)" "i < length (nd_intf (gr_nodes g ! n))" "intf_of (gr_nodes g ! n) i = Some intf"
    using assms(2) by (auto simp: intf_in_def intf_of_def intf_at_def split: if_splits)
  have same: "linked (update_intf n i intf' (gr_nodes g)) x = linked (gr_nodes g) x" for x
    using assms(2,3) by (simp add: linked_update n) (simp add: linked_def)
  have ok: "node_ok (gr_nodes g ! n)" by (rule graph_ok_node [OF assms(1) n(1)])
  have "node_ok ((gr_nodes g ! n)\<lparr>nd_intf := (nd_intf (gr_nodes g ! n))[i := Some intf']\<rparr>)"
  proof (rule node_ok_intf [OF ok])
    show "j = i" if "intf_of (gr_nodes g ! n) j = Some b" "get_interface_name b = get_interface_name intf'" for j b
      using ok that n(3) assms(5) by (auto simp: node_ok_def intf_names_ok_def names_unique_def intf_of_def)
  qed (use intf_of_wf [OF node_okD(6) [OF ok] n(3)] assms(4,5) intf_of_name_ok [OF ok n(3)] in simp_all)
  from nodes_ok_update [OF _ n(1) this] have ok': "\<forall>node\<in>set (gr_nodes ?g). node_ok node"
    using assms(1) by (simp add: update_intf_def graph_ok_def)
  have w: "wired (gr_nodes ?g) (gr_links ?g)" using assms(1) by (simp add: graph_ok_def wired_def same)
  show ?thesis by (rule graph_okI [OF ok' w assms(1)]) (simp_all add: same)
qed

section \<open>Links\<close>

definition arr_in :: "intf_array list \<Rightarrow> intf_id \<Rightarrow> Interface option" where
  "arr_in arrs x = (if fst x < length arrs then intf_at (arrs ! fst x) (snd x) else None)"

lemma intf_in_arr: "intf_in nodes = arr_in (map nd_intf nodes)"
  by (rule ext) (simp add: intf_in_def arr_in_def intf_of_def)

lemma arr_in_upd:
  assumes "arr_in arrs y \<noteq> None" shows "arr_in (upd_arr arrs y f) x = (if x = y then f (arr_in arrs y) else arr_in arrs x)"
proof -
  have "fst y < length arrs" "snd y < length (arrs ! fst y)"
    using assms by (auto simp: arr_in_def intf_at_def split: if_splits)
  then show ?thesis
    by (cases x; cases y) (auto simp: arr_in_def upd_arr_def intf_at_def nth_list_update)
qed

lemma length_upd_arr [simp]: "length (upd_arr arrs y f) = length arrs"
  by (simp add: upd_arr_def)

text \<open>Two interface arrays that differ in their links only.\<close>

definition same_ports :: "intf_array list \<Rightarrow> intf_array list \<Rightarrow> bool" where
  "same_ports arrs arrs' \<longleftrightarrow> length arrs' = length arrs \<and>
     (\<forall>x intf'. arr_in arrs' x = Some intf' \<longrightarrow>
        (\<exists>intf. arr_in arrs x = Some intf \<and> if_name intf = if_name intf' \<and> intf_nw_props intf = intf_nw_props intf'))"

lemma same_ports_upd:
  assumes "same_ports arrs0 arrs" "arr_in arrs y \<noteq> None" shows "same_ports arrs0 (upd_arr arrs y (set_intf_link k))"
  using assms unfolding same_ports_def by (auto simp: arr_in_upd set_intf_link_def split: if_splits)

lemma node_ok_ports:
  assumes "node_ok node"
    "\<And>i intf'. intf_at intfs i = Some intf' \<Longrightarrow>
       \<exists>intf. intf_of node i = Some intf \<and> if_name intf = if_name intf' \<and> intf_nw_props intf = intf_nw_props intf'"
  shows "node_ok (node\<lparr>nd_intf := intfs\<rparr>)"
proof -
  have "wf_intf intf' \<and> valid_name (get_interface_name intf')" if intf: "Some intf' \<in> set intfs" for intf'
  proof -
    from intf obtain i where "intf_at intfs i = Some intf'" by (metis in_set_conv_nth intf_at_def)
    from assms(2) [OF this] obtain intf where i: "intf_of node i = Some intf" "if_name intf = if_name intf'"
        "intf_nw_props intf = intf_nw_props intf'" by blast
    with intf_of_wf [OF node_okD(6) [OF assms(1)] i(1)] intf_of_name_ok [OF assms(1) i(1)]
    show ?thesis by (simp add: wf_intf_def trunk_vlans_def get_interface_name_def)
  qed
  moreover have "names_unique intfs"
    unfolding names_unique_def
  proof (intro allI impI)
    fix i j a b assume ab: "intf_at intfs i = Some a" "intf_at intfs j = Some b" "get_interface_name a = get_interface_name b"
    from assms(2) [OF ab(1)] assms(2) [OF ab(2)] obtain a' b' where
      "intf_of node i = Some a'" "if_name a' = if_name a" "intf_of node j = Some b'" "if_name b' = if_name b" by blast
    with ab(3) assms(1) show "i = j"
      by (auto simp: node_ok_def intf_names_ok_def names_unique_def intf_of_def get_interface_name_def)
  qed
  ultimately show ?thesis using assms(1) by (simp add: node_ok_def wf_node_intfs_def intf_names_ok_def)
qed

lemma map2_intfs [simp]:
  "length arrs = length nodes \<Longrightarrow> map nd_intf (map2 (\<lambda>node intfs. node\<lparr>nd_intf := intfs\<rparr>) nodes arrs) = arrs"
  by (rule nth_equalityI) auto

lemma nodes_ok_ports:
  assumes "\<forall>node\<in>set nodes. node_ok node" "same_ports (map nd_intf nodes) arrs"
  shows "\<forall>node\<in>set (map2 (\<lambda>node intfs. node\<lparr>nd_intf := intfs\<rparr>) nodes arrs). node_ok node"
proof -
  have l: "length arrs = length nodes" using assms(2) by (simp add: same_ports_def)
  have "node_ok ((nodes ! n)\<lparr>nd_intf := arrs ! n\<rparr>)" if n: "n < length nodes" for n
  proof (rule node_ok_ports)
    fix i intf' assume "intf_at (arrs ! n) i = Some intf'"
    then have "arr_in arrs (n, i) = Some intf'" using n l by (simp add: arr_in_def)
    with assms(2) have "\<exists>intf. arr_in (map nd_intf nodes) (n, i) = Some intf \<and> if_name intf = if_name intf' \<and>
        intf_nw_props intf = intf_nw_props intf'" unfolding same_ports_def by blast
    then show "\<exists>intf. intf_of (nodes ! n) i = Some intf \<and> if_name intf = if_name intf' \<and>
        intf_nw_props intf = intf_nw_props intf'" using n by (simp add: arr_in_def intf_of_def)
  qed (use assms(1) n in simp)
  with l show ?thesis by (auto simp: set_zip)
qed

lemma graph_insert_link_cases:
  assumes "graph_insert_link n1 from_if n2 to_if c g = Inr g'" "n1 < length (gr_nodes g)" "n2 < length (gr_nodes g)"
  obtains i1 i2 arrs where
    "intf_in (gr_nodes g) (n1, i1) \<noteq> None" "intf_in (gr_nodes g) (n2, i2) \<noteq> None"
    "linked (gr_nodes g) (n1, i1) = None" "linked (gr_nodes g) (n2, i2) = None"
    "arrs = upd_arr (upd_arr (map nd_intf (gr_nodes g)) (n1, i1) (set_intf_link (length (gr_links g)))) (n2, i2)
       (set_intf_link (length (gr_links g)))"
    "g' = g\<lparr>gr_nodes := map2 (\<lambda>node intfs. node\<lparr>nd_intf := intfs\<rparr>) (gr_nodes g) arrs,
            gr_links := gr_links g @ [\<lparr>intf1 = (n1, i1), intf2 = (n2, i2), cost = c, up = True\<rparr>]\<rparr>"
proof -
  let ?arrs = "map nd_intf (gr_nodes g)"
  from assms(1) obtain i1 i2 a b where
    ab: "?arrs ! n1 ! i1 = Some a" "?arrs ! n2 ! i2 = Some b" "link a = None" "link b = None"
    and f: "get_node_if_by_name (?arrs ! n1) from_if = Some i1" "get_node_if_by_name (?arrs ! n2) to_if = Some i2"
    and g': "g' = g\<lparr>gr_nodes := map2 (\<lambda>node intfs. node\<lparr>nd_intf := intfs\<rparr>) (gr_nodes g)
          (upd_arr (upd_arr ?arrs (n1, i1) (set_intf_link (length (gr_links g)))) (n2, i2)
             (set_intf_link (length (gr_links g)))),
        gr_links := gr_links g @ [\<lparr>intf1 = (n1, i1), intf2 = (n2, i2), cost = c, up = True\<rparr>]\<rparr>"
    by (auto simp: graph_insert_link_def insert_link_between_two_nodes_def Let_def split: option.splits if_splits sum.splits)
  have "intf_in (gr_nodes g) (n1, i1) = Some a" "intf_in (gr_nodes g) (n2, i2) = Some b"
    using get_node_if_by_name_Some [OF f(1)] get_node_if_by_name_Some [OF f(2)] ab assms(2,3)
    by (auto simp: intf_in_def intf_of_def intf_at_def split: if_splits)
  with ab g' show ?thesis by (intro that) (simp_all add: linked_def)
qed

lemma graph_ok_insert_link:
  assumes "graph_ok g" "graph_insert_link n1 from_if n2 to_if c g = Inr g'"
    "n1 < length (gr_nodes g)" "n2 < length (gr_nodes g)"
  shows "graph_ok g'"
proof (rule graph_insert_link_cases [OF assms(2-4)])
  fix i1 i2 :: nat and arrs
  let ?k = "length (gr_links g)" and ?arrs = "map nd_intf (gr_nodes g)" and ?x = "(n1, i1)" and ?y = "(n2, i2)"
  let ?arrs1 = "upd_arr ?arrs ?x (set_intf_link ?k)"
  let ?l = "\<lparr>intf1 = ?x, intf2 = ?y, cost = c, up = True\<rparr>"
  assume ex: "intf_in (gr_nodes g) ?x \<noteq> None" "intf_in (gr_nodes g) ?y \<noteq> None"
    and un: "linked (gr_nodes g) ?x = None" "linked (gr_nodes g) ?y = None"
    and arrs: "arrs = upd_arr ?arrs1 ?y (set_intf_link ?k)"
    and g': "g' = g\<lparr>gr_nodes := map2 (\<lambda>node intfs. node\<lparr>nd_intf := intfs\<rparr>) (gr_nodes g) arrs,
            gr_links := gr_links g @ [?l]\<rparr>"
  have x: "arr_in ?arrs ?x \<noteq> None" "arr_in ?arrs ?y \<noteq> None" using ex by (simp_all add: intf_in_arr)
  then have y: "arr_in ?arrs1 ?y \<noteq> None" by (auto simp: arr_in_upd set_intf_link_def)
  have len: "length arrs = length (gr_nodes g)" by (simp add: arrs)
  have "linked (gr_nodes g') z = (case arr_in arrs z of None \<Rightarrow> None | Some intf \<Rightarrow> link intf)" for z
    using map2_intfs [OF len] by (simp add: linked_def intf_in_arr g' del: map_map)
  then have lk: "linked (gr_nodes g') z = (if z = ?x \<or> z = ?y then Some ?k else linked (gr_nodes g) z)" for z
    using x y by (auto simp: arrs arr_in_upd set_intf_link_def linked_def intf_in_arr)
  have "same_ports ?arrs ?arrs" by (simp add: same_ports_def)
  from same_ports_upd [OF same_ports_upd [OF this x(1)] y] have "same_ports ?arrs arrs" by (simp add: arrs)
  from nodes_ok_ports [OF _ this] assms(1) have ok: "\<forall>node\<in>set (gr_nodes g'). node_ok node"
    by (simp add: g' graph_ok_def)
  have wg: "wired (gr_nodes g) (gr_links g)" using assms(1) by (simp add: graph_ok_def)
  have gl: "gr_links g' = gr_links g @ [?l]" by (simp add: g')
  have "wired (gr_nodes g') (gr_links g @ [?l])"
    unfolding wired_def lk
  proof (intro conjI allI impI)
    fix k assume "k < length (gr_links g @ [?l])"
    moreover have "k < ?k \<Longrightarrow> intf1 (gr_links g ! k) \<notin> {?x, ?y} \<and> intf2 (gr_links g ! k) \<notin> {?x, ?y}"
      using wired_end [OF wg, of k] un by (metis insertE option.distinct(1) singletonD)
    ultimately show
      "(if intf1 ((gr_links g @ [?l]) ! k) = ?x \<or> intf1 ((gr_links g @ [?l]) ! k) = ?y then Some ?k
        else linked (gr_nodes g) (intf1 ((gr_links g @ [?l]) ! k))) = Some k"
      "(if intf2 ((gr_links g @ [?l]) ! k) = ?x \<or> intf2 ((gr_links g @ [?l]) ! k) = ?y then Some ?k
        else linked (gr_nodes g) (intf2 ((gr_links g @ [?l]) ! k))) = Some k"
      using wired_end [OF wg, of k] by (cases "k = ?k"; auto simp: nth_append)+
  next
    fix z k assume z: "(if z = ?x \<or> z = ?y then Some ?k else linked (gr_nodes g) z) = Some k"
    show "k < length (gr_links g @ [?l])" "z = intf1 ((gr_links g @ [?l]) ! k) \<or> z = intf2 ((gr_links g @ [?l]) ! k)"
      using z wired_link [OF wg, of z k] by (auto simp: nth_append split: if_splits)
  qed
  then show ?thesis
    by (intro graph_okI [OF ok _ assms(1)]) (simp_all add: lk gl, simp_all add: g')
qed

lemma wired_set_up: "wired nodes (lks[k := (lks ! k)\<lparr>up := b\<rparr>]) \<longleftrightarrow> wired nodes lks"
proof (cases "k < length lks")
  case True
  have "intf1 (lks[k := (lks ! k)\<lparr>up := b\<rparr>] ! j) = intf1 (lks ! j)"
    "intf2 (lks[k := (lks ! k)\<lparr>up := b\<rparr>] ! j) = intf2 (lks ! j)" for j
    using True by (auto simp: nth_list_update)
  then show ?thesis by (simp add: wired_def)
qed (simp add: list_update_beyond)

lemma node_ok_reset_bridge: "node_ok node \<Longrightarrow> node_ok (reset_bridge lks node)"
  by (simp add: reset_bridge_def node_ok_def wf_node_intfs_def stp_inv_resetForTopologyChange
      flush_mac_table_def mac_table_inv_def)

lemma linked_map:
  assumes "\<And>node. nd_intf (f node) = nd_intf node" shows "linked (map f nodes) = linked nodes"
proof -
  have "map nd_intf (map f nodes) = map nd_intf nodes" using assms by simp
  from intf_in_cong [OF this] show ?thesis by (simp add: linked_def fun_eq_iff)
qed

lemma change_link_ok:
  assumes "graph_ok g" "change_link k b g = Some g'" shows "graph_ok g'"
proof (cases "up (gr_links g ! k) = b")
  case False
  let ?g = "(set_link_up k b g)\<lparr>gr_nodes := map (reset_bridge (gr_links (set_link_up k b g))) (gr_nodes g)\<rparr>"
  have l: "linked (map (reset_bridge lks) (gr_nodes g)) = linked (gr_nodes g)" for lks
    by (simp add: linked_map reset_bridge_def)
  have "graph_ok ?g"
  proof (rule graph_okI [OF _ _ assms(1)])
    show "\<forall>node\<in>set (gr_nodes ?g). node_ok node"
      using assms(1) by (auto simp: graph_ok_def node_ok_reset_bridge)
    have "wired (gr_nodes g) (gr_links ?g)"
      using assms(1) by (simp add: graph_ok_def set_link_up_def wired_set_up)
    then show "wired (gr_nodes ?g) (gr_links ?g)" by (simp add: wired_def l)
  qed (simp_all add: l, simp_all add: set_link_up_def)
  from good_ConvergeSpanningTree [OF this] assms(2) False show ?thesis
    by (simp add: change_link_def Let_def good_def set_link_up_def)
qed (use assms in \<open>simp add: change_link_def\<close>)

section \<open>Configuration\<close>

lemma rip_inv_config:
  assumes "rip_inv rs rt" "s \<noteq> ROUTE_SOURCE_RIP"
  shows "rip_inv rs (fst (AddRouteWithParams rt dest m g oif s ad mt))"
proof -
  obtain rt' err where r: "AddRouteWithParams rt dest m g oif s ad mt = (rt', err)" by fastforce
  then have "source_look ROUTE_SOURCE_RIP rt' = source_look ROUTE_SOURCE_RIP rt"
    using assms(2) by (cases rule: AddRouteWithParams_cases) (simp_all add: source_look_def rt_map_add_loop fun_eq_iff)
  moreover have "rt_inv rt'" using rt_inv_add [of rt dest m g oif s ad mt] assms(1) r by (simp add: rip_inv_def)
  ultimately show ?thesis using assms(1) r by (simp add: rip_inv_def)
qed

lemma not_rip [simp]: "ROUTE_SOURCE_CONNECTED \<noteq> ROUTE_SOURCE_RIP" "ROUTE_SOURCE_STATIC \<noteq> ROUTE_SOURCE_RIP"
  by (simp_all add: ROUTE_SOURCE_CONNECTED_def ROUTE_SOURCE_STATIC_def ROUTE_SOURCE_RIP_def)

lemma node_ok_rt: "node_ok node \<Longrightarrow> rip_inv (rip_routes (nd_rip node)) rt \<Longrightarrow> node_ok (node\<lparr>nd_rt := rt\<rparr>)"
  by (simp add: node_ok_def wf_node_intfs_def)

lemma same_intfs_ok:
  assumes "graph_ok g" "n < length (gr_nodes g)" "node_ok node" "nd_intf node = nd_intf (gr_nodes g ! n)"
  shows "graph_ok (set_node n node g)"
proof -
  have "map nd_intf (gr_nodes (set_node n node g)) = map nd_intf (gr_nodes g)"
    using assms(2,4) by (simp add: set_node_def map_update list_update_same_conv)
  from intf_in_cong [OF this] have l: "linked (gr_nodes (set_node n node g)) = linked (gr_nodes g)"
    by (simp add: linked_def fun_eq_iff)
  have ok: "\<forall>node\<in>set (gr_nodes (set_node n node g)). node_ok node"
    using nodes_ok_update [OF _ assms(2,3)] assms(1) by (simp add: set_node_def graph_ok_def)
  have "wired (gr_nodes g) (gr_links (set_node n node g))" using assms(1) by (simp add: graph_ok_def set_node_def)
  then have w: "wired (gr_nodes (set_node n node g)) (gr_links (set_node n node g))" unfolding wired_def l .
  show ?thesis by (rule graph_okI [OF ok w assms(1)]) (simp_all add: l, simp_all add: set_node_def)
qed

text \<open>What an interface setter may change.\<close>

definition setter :: "(Interface \<Rightarrow> Interface \<times> bool) \<Rightarrow> bool" where
  "setter f \<longleftrightarrow> (\<forall>intf. link (fst (f intf)) = link intf \<and> if_name (fst (f intf)) = if_name intf \<and>
     (wf_intf intf \<longrightarrow> wf_intf (fst (f intf))))"

lemma setters:
  "setter (\<lambda>intf. SetAccessVLAN intf v)" "setter (\<lambda>intf. SetTrunkConfig intf v vs)"
  "setter (\<lambda>intf. SetIPConfig intf ip msk)"
  by (auto simp: setter_def wf_SetAccessVLAN wf_SetTrunkConfig SetIPConfig_def wf_SetInterfaceL3Mode)
     (simp_all add: SetAccessVLAN_def SetTrunkConfig_def SetInterfaceL2Mode_def SetInterfaceL3Mode_def Let_def
        split: option.split)

lemma update_intf_set_node:
  "set_node n ((gr_nodes g ! n)\<lparr>nd_intf := (nd_intf (gr_nodes g ! n))[i := Some intf]\<rparr>) g =
     g\<lparr>gr_nodes := update_intf n i intf (gr_nodes g)\<rparr>"
  by (simp add: set_node_def update_intf_def)

lemma setter_ok:
  assumes "graph_ok g" "n < length (gr_nodes g)" "setter f" shows "graph_ok (set_node n (set_intf n i f (gr_nodes g ! n)) g)"
proof (cases "intf_of (gr_nodes g ! n) i")
  case None
  then show ?thesis using assms graph_ok_node [OF assms(1,2)] by (simp add: set_intf_def same_intfs_ok)
next
  case (Some intf)
  then have "intf_in (gr_nodes g) (n, i) = Some intf" using assms(2) by (simp add: intf_in_def)
  from graph_ok_update_intf [OF assms(1) this, of "fst (f intf)"] assms(3) Some show ?thesis
    by (simp add: set_intf_def update_intf_set_node setter_def get_interface_name_def)
qed

lemma set_address_ok:
  assumes "graph_ok g" "n < length (gr_nodes g)"
  shows "graph_ok (set_node n (fst (node_set_intf_ip_address (gr_nodes g ! n) ifn ip msk)) g)"
proof (cases "get_node_if_by_name (nd_intf (gr_nodes g ! n)) ifn")
  case None
  then show ?thesis
    using assms graph_ok_node [OF assms] by (simp add: node_set_intf_ip_address_def same_intfs_ok)
next
  case (Some i)
  from get_node_if_by_name_Some [OF Some] obtain intf where i: "intf_of (gr_nodes g ! n) i = Some intf"
    by (auto simp: intf_of_def)
  obtain intf' ok where s: "SetIPConfig intf ip msk = (intf', ok)" by fastforce
  let ?g = "set_node n (set_intf n i (\<lambda>intf. SetIPConfig intf ip msk) (gr_nodes g ! n)) g"
  have g: "graph_ok ?g" "n < length (gr_nodes ?g)" using setter_ok [OF assms setters(3)] assms(2) by (simp_all add: set_node_def)
  let ?n = "gr_nodes ?g ! n"
  have n: "?n = (gr_nodes g ! n)\<lparr>nd_intf := (nd_intf (gr_nodes g ! n))[i := Some intf']\<rparr>"
    using assms(2) by (simp add: set_node_def set_intf_def i s)
  have "graph_ok (set_node n (?n\<lparr>nd_rt := fst (AddRouteWithParams (nd_rt ?n) ip msk [] ifn
      ROUTE_SOURCE_CONNECTED ROUTE_SOURCE_CONNECTED 0)\<rparr>) ?g)"
    using graph_ok_node [OF g] by (intro same_intfs_ok [OF g] node_ok_rt rip_inv_config) (simp_all add: node_okD)
  with g(1) show ?thesis
    by (cases ok) (simp_all add: node_set_intf_ip_address_def Some i s n, simp_all add: set_node_def set_intf_def i s)
qed

lemma add_vlan_ok: "node_ok node \<Longrightarrow> node_ok (fst (AddVlanInterface node v ip msk))"
  using rip_inv_config [of "rip_routes (nd_rip node)" "nd_rt node" ROUTE_SOURCE_CONNECTED ip msk "[]" "vlan_if_name v"
      ROUTE_SOURCE_CONNECTED 0] node_okD(4) [of node]
  by (auto simp: AddVlanInterface_def node_ok_rt split: option.split prod.split)
     (simp add: node_ok_def wf_node_intfs_def)

lemma add_vlan_intfs: "nd_intf (fst (AddVlanInterface node v ip msk)) = nd_intf node"
  by (simp add: AddVlanInterface_def split: option.split prod.split)

lemma add_route_ok: "node_ok node \<Longrightarrow> node_ok (node\<lparr>nd_rt := fst (AddRoute (nd_rt node) d msk gw oif)\<rparr>)"
  unfolding AddRoute_def by (intro node_ok_rt rip_inv_config) (simp_all add: node_okD)

lemma loopback_ok:
  "node_ok node \<Longrightarrow> node_ok (fst (SetLoopbackIP node ip)) \<and> nd_intf (fst (SetLoopbackIP node ip)) = nd_intf node"
  by (simp add: SetLoopbackIP_def node_ok_def wf_node_intfs_def Let_def split: prod.split)

section \<open>Runs\<close>

text \<open>Interface names as the topology file must give them: not empty, at most 16 bytes, no NUL.\<close>

definition command_ok :: "command \<Rightarrow> bool" where
  "command_ok c \<longleftrightarrow> (case c of CreateInterface _ nm \<Rightarrow> valid_name nm | _ \<Rightarrow> True)"

lemma good_then: "good g r \<Longrightarrow> r = Some g' \<Longrightarrow> graph_ok g'"
  by (simp add: good_def)

lemma or_same_ok: "(\<And>h. r = Inr h \<Longrightarrow> graph_ok h) \<Longrightarrow> graph_ok g \<Longrightarrow> or_same g r = Some g' \<Longrightarrow> graph_ok g'"
  by (auto simp: or_same_def split: sum.splits)

lemma cleanup_ok:
  assumes "graph_ok g" "cleanup_graph_resources g = Some g'" shows "graph_ok g'"
proof -
  let ?g = "graph_Stop g"
  have g: "graph_ok ?g" using assms(1) by (simp add: graph_Stop_def)
  have len: "gr_nodes ?g = gr_nodes g" by (simp add: graph_Stop_def)
  obtain h where h: "for_each cleanup_node [0..<length (gr_nodes g)] ?g = Some h" "g' = graph_Close h"
    using assms(2) by (auto simp: cleanup_graph_resources_def)
  have "good ?g (for_each cleanup_node [0..<length (gr_nodes g)] ?g)"
    by (intro good_for_each g good_cleanup_node) (auto simp: same_net_length len)
  with h(1) have "graph_ok h" by (simp add: good_def)
  then show ?thesis by (simp add: h(2) graph_Close_def transport_Close_def graph_ok_def queue_ok_def split: FrameTransport.split)
qed

theorem exec_ok:
  assumes "graph_ok g" "command_ok c" "exec c g = Some g'" shows "graph_ok g'"
proof (cases "\<forall>n\<in>set (node_of_command c). n < length (gr_nodes g)")
  case True
  then have run: "run_command c g = Some g'" using assms(3) by (simp add: exec_def only_if_def)
  note node = graph_ok_node [OF assms(1)]
  note defs = run_command_def node_of_command_def configure_def only_if_def
  have run_ok: "graph_ok g'" if "run_on n f g = Some g'" "n < length (gr_nodes g)"
    "\<And>env node. node_ok node \<Longrightarrow> ok_result env node (f env node)" for n f
    using good_run_on [OF assms(1) that(2,3)] that(1) by (simp add: good_def)
  show ?thesis
  proof (cases c)
    case (CreateInterface n nm)
    with run True assms(2) have "or_same g (graph_create_interface n nm g) = Some g'" "n < length (gr_nodes g)" "valid_name nm"
      by (simp_all add: defs command_ok_def)
    then show ?thesis using graph_ok_create_interface [OF assms(1)] or_same_ok [OF _ assms(1)] by metis
  next
    case (InsertLink n a m b k)
    with run True have "or_same g (graph_insert_link n a m b k g) = Some g'" "n < length (gr_nodes g)" "m < length (gr_nodes g)"
      by (simp_all add: defs)
    then show ?thesis using graph_ok_insert_link [OF assms(1)] or_same_ok [OF _ assms(1)] by metis
  next
    case (SetLoopback n ip)
    with run True have n: "n < length (gr_nodes g)"
      and g': "g' = set_node n (fst (SetLoopbackIP (gr_nodes g ! n) ip)) g" by (simp_all add: defs)
    show ?thesis unfolding g'
      by (rule same_intfs_ok [OF assms(1) n conjunct1 [OF loopback_ok [OF node [OF n]]] conjunct2 [OF loopback_ok [OF node [OF n]]]])
  next
    case (AddVlan n v ip msk)
    with run True have n: "n < length (gr_nodes g)"
      and g': "g' = set_node n (fst (AddVlanInterface (gr_nodes g ! n) v ip msk)) g" by (simp_all add: defs)
    show ?thesis unfolding g' by (rule same_intfs_ok [OF assms(1) n add_vlan_ok [OF node [OF n]] add_vlan_intfs])
  next
    case (AddStaticRoute n d msk gw oif)
    with run True have n: "n < length (gr_nodes g)"
      and g': "g' = set_node n ((gr_nodes g ! n)\<lparr>nd_rt := fst (AddRoute (nd_rt (gr_nodes g ! n)) d msk gw oif)\<rparr>) g"
      by (simp_all add: defs)
    show ?thesis unfolding g' by (rule same_intfs_ok [OF assms(1) n add_route_ok [OF node [OF n]]]) simp
  next
    case Cleanup with run assms(1) show ?thesis by (simp add: defs cleanup_ok)
  next
    case (LinkChange k b) with run assms(1) show ?thesis
      by (auto simp: defs change_link_ok split: if_splits)
  next
    case (RipTrigger n) with run True good_triggered [OF assms(1)] show ?thesis by (simp add: defs good_def)
  next
    case (RipUpdate n) with run True good_send_updates [OF assms(1)] show ?thesis by (simp add: defs good_def)
  next
    case (StpOn n) with run True good_stp(2) [OF assms(1)] show ?thesis by (simp add: defs good_def)
  next
    case (StpPriority n p) with run True good_stp(3) [OF assms(1)] show ?thesis by (simp add: defs good_def)
  next
    case (StpHello n) with run True good_stp(4) [OF assms(1)] show ?thesis by (simp add: defs good_def)
  next
    case (StpTick n) with run True good_stp_tick [OF assms(1)] show ?thesis by (simp add: defs good_def)
  next
    case StpSettle with run good_ConvergeSpanningTree [OF assms(1)] show ?thesis by (simp add: defs good_def)
  next
    case (Ping n ip) with run True show ?thesis by (auto simp: defs intro!: run_ok ok_pings)
  next
    case (Probe n ip ttl) with run True show ?thesis by (auto simp: defs intro!: run_ok ok_pings)
  next
    case (EroPing n ip ero) with run True show ?thesis by (auto simp: defs intro!: run_ok ok_pings)
  next
    case (ArpMaintain n) with run True show ?thesis by (auto simp: defs intro!: run_ok ok_maintain)
  next
    case (ArpCleanup n) with run True show ?thesis by (auto simp: defs intro!: run_ok ok_cleanups)
  next
    case (MacCleanup n) with run True show ?thesis by (auto simp: defs intro!: run_ok ok_cleanups)
  next
    case (LldpOn n) with run True show ?thesis by (auto simp: defs intro!: run_ok ok_lldp_ops)
  next
    case (LldpOff n) with run True show ?thesis by (auto simp: defs intro!: run_ok ok_lldp_ops)
  next
    case (LldpTick n) with run True show ?thesis by (auto simp: defs intro!: run_ok ok_lldp_ops)
  next
    case (LldpExpire n) with run True show ?thesis by (auto simp: defs intro!: run_ok ok_lldp_ops)
  next
    case (RipOn n) with run True show ?thesis by (auto simp: defs intro!: run_ok ok_rip_ops)
  next
    case (RipOff n) with run True show ?thesis by (auto simp: defs intro!: run_ok ok_rip_ops)
  next
    case (RipExpire n) with run True show ?thesis by (auto simp: defs intro!: run_ok ok_rip_ops)
  next
    case (StpOff n) with run True show ?thesis by (auto simp: defs intro!: run_ok ok_stp_timers)
  qed (use run True assms(1) in \<open>auto simp: defs graph_ok_create_node setter_ok setters set_address_ok\<close>)
next
  case False
  then have "g' = g" using assms(3) by (auto simp: exec_def only_if_def split: if_splits)
  with assms(1) show ?thesis by simp
qed

inductive net_step :: "Graph \<Rightarrow> Graph \<Rightarrow> bool" where
  command: "command_ok c \<Longrightarrow> exec c g = Some g' \<Longrightarrow> net_step g g'"

inductive_cases net_stepE: "net_step g g'"

interpretation net: machine "\<lambda>g. \<exists>nm tr c t. g = create_new_graph_with_transport nm tr c t" net_step graph_ok
proof
  show "net_step g g' \<Longrightarrow> graph_ok g \<Longrightarrow> graph_ok g'" for g g'
    by (elim net_stepE) (rule exec_ok)
qed auto

section \<open>Between commands nothing is in flight\<close>

definition ends :: "Graph option \<Rightarrow> bool" where
  "ends r \<longleftrightarrow> (case r of None \<Rightarrow> True | Some g \<Rightarrow> gr_queue g = [])"

definition quiet :: "(Graph \<Rightarrow> Graph option) \<Rightarrow> bool" where
  "quiet f \<longleftrightarrow> (\<forall>g. gr_queue g = [] \<longrightarrow> ends (f g))"

named_theorems quiet_ops "operations that leave the queue empty"

lemma ends_simps [simp]: "ends None" "ends (Some g) \<longleftrightarrow> gr_queue g = []"
  by (simp_all add: ends_def)

lemma quietD: "quiet f \<Longrightarrow> gr_queue g = [] \<Longrightarrow> ends (f g)"
  by (simp add: quiet_def)

lemma quietI: "(\<And>g. gr_queue g = [] \<Longrightarrow> ends (f g)) \<Longrightarrow> quiet f"
  by (simp add: quiet_def)

lemma ends_and_then: "ends r \<Longrightarrow> quiet f \<Longrightarrow> ends (and_then r f)"
  by (cases r) (simp_all add: and_then_def quietD)

lemma quiet_and_then: "quiet f \<Longrightarrow> quiet h \<Longrightarrow> quiet (\<lambda>g. and_then (f g) h)"
  by (rule quietI) (intro ends_and_then quietD)

lemma quiet_for_each: "(\<And>x. x \<in> set xs \<Longrightarrow> quiet (f x)) \<Longrightarrow> quiet (for_each f xs)"
proof (induction xs)
  case (Cons x xs)
  then have "quiet (\<lambda>g. and_then (f x g) (for_each f xs))" by (intro quiet_and_then) simp_all
  then show ?case by (simp add: quiet_def)
qed (simp add: quiet_def)

lemma ends_drain [simp]: "ends (drain g)"
  using drain_empty [of g] by (cases "drain g") simp_all

lemma quiet_effect: "quiet (perform_effect n e)"
  by (rule quietI) (simp add: perform_effect_def transport_failed_def split: eff.split sum.split)

lemma quiet_perform: "quiet (perform n es)"
proof (induction es)
  case (Cons e es)
  show ?case
  proof (rule quietI)
    fix g :: Graph assume "gr_queue g = []"
    from quietD [OF quiet_effect this, of n e] show "ends (perform n (e # es) g)"
      by (cases "perform_effect n e g") (simp_all add: quietD [OF Cons])
  qed
qed (simp add: quiet_def)

lemma quiet_run_on [quiet_ops]: "quiet (run_on n f)"
  by (rule quietI) (simp add: run_on_def quietD [OF quiet_perform] set_node_def case_prod_beta)

lemma quiet_transmit [quiet_ops]: "quiet (graph_transmit n pending)"
proof (induction pending)
  case (Cons p rest)
  obtain port bpdu where p: "p = (port, bpdu)" by fastforce
  show ?case
  proof (rule quietI)
    fix g :: Graph assume q: "gr_queue g = []"
    let ?g = "g\<lparr>gr_budget := gr_budget g - 1\<rparr>"
    have "ends (run_on n f ?g)" "ends (graph_transmit n rest ?g)" for f
      using quietD [OF quiet_run_on, of ?g] quietD [OF Cons, of ?g] q by simp_all
    with q show "ends (graph_transmit n (p # rest) g)"
      by (simp add: p consumeSTPBudget_def Let_def ends_and_then [OF _ Cons] split: option.split)
  qed
qed (simp add: quiet_def)

lemma quiet_apply_stp [quiet_ops]: "quiet (graph_apply_stp n out)"
  unfolding graph_apply_stp_def by (intro quiet_and_then quiet_ops)

lemma quiet_in_cascade [quiet_ops]: 
  assumes "quiet f" shows "quiet (in_cascade f)"
proof (rule quietI)
  fix g :: Graph assume "gr_queue g = []"
  then have "ends (f (beginSTPCascade g))" by (intro quietD [OF assms]) simp
  then show "ends (in_cascade f g)"
    by (cases "f (beginSTPCascade g)") (simp_all add: in_cascade_def endSTPCascade_def)
qed

lemma quiet_if: "(\<And>h. quiet (f h)) \<Longrightarrow> quiet (\<lambda>g. if b g then Some g else f g g)"
  by (rule quietI) (simp add: quietD)

lemma quiet_stp [quiet_ops]: "quiet (graph_converge n)" "quiet (graph_send_hello n)" "quiet (graph_age_out n)"
  unfolding graph_converge_def graph_send_hello_def graph_age_out_def
  by (intro quiet_if quiet_ops)+

lemma quiet_start_stp [quiet_ops]: "quiet (graph_start_stp n)"
  by (rule quietI) (simp add: graph_start_stp_def quietD [OF quiet_in_cascade [OF quiet_apply_stp]])

lemma quiet_set_priority [quiet_ops]: "quiet (\<lambda>g. fst (graph_set_priority n p g))"
  by (rule quietI) (simp add: graph_set_priority_def case_prod_beta Let_def quietD [OF quiet_apply_stp]
      quietD [OF quiet_in_cascade [OF quiet_apply_stp]])

lemma quiet_stp_tick [quiet_ops]: "quiet (graph_stp_tick n)"
  unfolding graph_stp_tick_def by (intro quiet_and_then quiet_ops)

lemma quiet_send_updates [quiet_ops]: "quiet (graph_send_routing_updates n)"
proof (rule quietI)
  fix g :: Graph assume q: "gr_queue g = []"
  have "quiet (for_each (\<lambda>(dst, data). run_on n (\<lambda>env. DemotePacketToLayer3 env data PROTO_RIP dst)) xs)" for xs
    by (rule quiet_for_each) (simp add: case_prod_beta quiet_run_on)
  from quietD [OF this q] show "ends (graph_send_routing_updates n g)"
    by (simp add: graph_send_routing_updates_def Let_def)
qed

lemma quiet_triggered [quiet_ops]: "quiet (graph_triggered_update n)"
  by (rule quietI) (simp add: graph_triggered_update_def Let_def quietD [OF quiet_send_updates] set_node_def)

lemma quiet_round: "gr_queue g = [] \<Longrightarrow> ends (map_option fst (converge_round ns g))"
proof (induction ns g rule: converge_round.induct)
  case (2 n ns g)
  show ?case
  proof (cases "st_enabled (stp_of g n)")
    case True
    with quietD [OF quiet_stp(1) 2(3), of n] 2(2) show ?thesis
      by (cases "graph_converge n g"; cases "converge_round ns (the (graph_converge n g))") auto
  qed (use 2 in simp)
qed simp

lemma quiet_rounds: "quiet (converge_rounds k)"
proof (induction k)
  case (Suc k)
  show ?case
  proof (rule quietI)
    fix g :: Graph assume q: "gr_queue g = []"
    show "ends (converge_rounds (Suc k) g)"
      using quiet_round [OF q, of "[0..<length (gr_nodes g)]"] quietD [OF Suc]
      by (cases "converge_round [0..<length (gr_nodes g)] g") auto
  qed
qed (simp add: quiet_def)

lemma quiet_ConvergeSpanningTree [quiet_ops]: "quiet ConvergeSpanningTree"
proof (rule quietI)
  fix g :: Graph assume q: "gr_queue g = []"
  have "ends (converge_rounds (length (gr_nodes g) + 1) (resetSTPBudget g))"
    by (rule quietD [OF quiet_rounds]) (simp add: resetSTPBudget_def q)
  then show "ends (ConvergeSpanningTree g)"
    unfolding ConvergeSpanningTree_def by (intro ends_and_then quiet_for_each quiet_run_on)
qed

lemma quiet_change_link [quiet_ops]: "quiet (change_link k b)"
  by (rule quietI) (simp add: change_link_def Let_def set_link_up_def quietD [OF quiet_ConvergeSpanningTree])

lemma quiet_cleanup [quiet_ops]: "quiet cleanup_graph_resources"
proof (rule quietI)
  fix g :: Graph assume q: "gr_queue g = []"
  have "quiet (cleanup_node n)" for n
    unfolding cleanup_node_def by (intro quiet_and_then quiet_ops)
  then have "ends (for_each cleanup_node [0..<length (gr_nodes g)] (graph_Stop g))"
    by (intro quietD [OF quiet_for_each]) (simp_all add: graph_Stop_def q)
  then show "ends (cleanup_graph_resources g)"
    by (cases "for_each cleanup_node [0..<length (gr_nodes g)] (graph_Stop g)")
       (simp_all add: cleanup_graph_resources_def graph_Close_def transport_Close_def split: FrameTransport.split)
qed

lemma quiet_construct:
  "gr_queue g = [] \<Longrightarrow> ends (or_same g (graph_create_interface n nm g))"
  "gr_queue g = [] \<Longrightarrow> ends (or_same g (graph_insert_link n a m b c g))"
  by (auto simp: or_same_def graph_create_interface_def graph_insert_link_def set_node_def split: sum.split)

lemma exec_quiet: "quiet (exec c)"
proof (rule quietI)
  fix g :: Graph assume q: "gr_queue g = []"
  have "ends (run_command c g)"
    by (cases c) (simp_all add: run_command_def q quiet_construct quietD [OF quiet_ops(1)] quietD [OF quiet_start_stp]
        quietD [OF quiet_set_priority] quietD [OF quiet_stp(2)] quietD [OF quiet_stp_tick]
        quietD [OF quiet_send_updates] quietD [OF quiet_triggered] quietD [OF quiet_ConvergeSpanningTree]
        quietD [OF quiet_change_link] quietD [OF quiet_cleanup] quietD [OF quiet_run_on]
        create_graph_node_def configure_def set_node_def only_if_def)
  with q show "ends (exec c g)" by (simp add: exec_def only_if_def)
qed

section \<open>Delivery\<close>

text \<open>
  One delivery takes the first frame and appends, for each frame the receiver sends, one frame for the
  other end of the link, in order: nothing is lost, duplicated or overtaken.
\<close>

definition routed :: "Graph \<Rightarrow> nat \<Rightarrow> (nat \<times> bytes) list \<Rightarrow> (intf_id \<times> bytes) list" where
  "routed g n fs = map (\<lambda>(i, f). (the (remote_of g (n, i)), f)) fs"

definition memory_open :: "Graph \<Rightarrow> bool" where
  "memory_open g \<longleftrightarrow> gr_transport g = MemoryTransport \<and> \<not> gr_transport_closed g"

lemma same_net_memory_open: "same_net g g' \<Longrightarrow> memory_open g' \<longleftrightarrow> memory_open g"
  by (simp add: same_net_def memory_open_def)

lemma enqueue_effects_queue:
  assumes "graph_ok g" "memory_open g" "n < length (gr_nodes g)" "sends_up (env_of g n) (gr_nodes g ! n) es"
  shows "gr_queue (enqueue_effects n es g) = gr_queue g @ routed g n (sends es)"
  using assms
proof (induction es arbitrary: g)
  case (Cons e es)
  have step: "graph_ok (enqueue_effect n e g)" "same_net g (enqueue_effect n e g)"
    using ok_enqueue_effect [OF Cons.prems(1)] by simp_all
  have nodes: "gr_nodes (enqueue_effect n e g) = gr_nodes g" "gr_links (enqueue_effect n e g) = gr_links g"
    using step(2) Cons.prems(2)
    by (simp_all add: enqueue_effect_def transport_enqueue_def transport_failed_def memory_open_def split: eff.split option.split)
  have rm: "remote_of (enqueue_effect n e g) = remote_of g" by (rule same_net_remote [OF step(2)])
  have up: "sends_up (env_of g n) (gr_nodes g ! n) es" using Cons.prems(4) by (auto simp: sends_up_def sends_def)
  then have "sends_up (env_of (enqueue_effect n e g) n) (gr_nodes (enqueue_effect n e g) ! n) es"
    by (simp add: sends_up_def nodes env_of_def)
  with Cons.IH [OF step(1)] Cons.prems(2,3) same_net_memory_open [OF step(2)] nodes
  have ih: "gr_queue (enqueue_effects n (e # es) g) = gr_queue (enqueue_effect n e g) @ routed g n (sends es)"
    by (simp add: enqueue_effects_def routed_def rm)
  show ?case
  proof (cases e)
    case (Emit a b c)
    then show ?thesis using ih by (simp add: enqueue_effect_def)
  next
    case (Send i f)
    then obtain intf where i: "intf_of (gr_nodes g ! n) i = Some intf" "IsUp (gr_links g) (link intf)"
      using Cons.prems(4) by (auto simp: sends_up_def env_of_def)
    then have "intf_in (gr_nodes g) (n, i) = Some intf" using Cons.prems(3) by (simp add: intf_in_def)
    moreover from this have "linked (gr_nodes g) (n, i) \<noteq> None" using i(2) by (auto simp: linked_def IsUp_def split: option.splits)
    then obtain y where "remote_of g (n, i) = Some y"
      using remote_of_linked Cons.prems(1) by (fastforce simp: graph_ok_def)
    ultimately show ?thesis using ih Send i Cons.prems(2)
      by (simp add: enqueue_effect_def transport_enqueue_def routed_def memory_open_def)
  qed
qed (simp add: enqueue_effects_def routed_def)

lemma deliver_one_queue:
  assumes "graph_ok g" "memory_open g" "gr_queue g = ((n, i), frame) # rest"
  shows "gr_queue (deliver_one g) =
    rest @ routed g n (sends (snd (deliverTransportFrame (env_of g n) i frame (gr_nodes g ! n, gr_budget g))))"
proof -
  obtain node b es where d: "deliverTransportFrame (env_of g n) i frame (gr_nodes g ! n, gr_budget g) = ((node, b), es)"
    by (metis surj_pair)
  have n: "n < length (gr_nodes g)" using queue_target [OF assms(1,3)] .
  have r: "node_ok node" "same_config (gr_nodes g ! n) node" "sends_up (env_of g n) (gr_nodes g ! n) es"
    using ok_deliver [of "(gr_nodes g ! n, gr_budget g)" "env_of g n" i frame] graph_ok_node [OF assms(1) n] d
    by (simp_all add: ok_stp_def ok_result_def)
  let ?g = "g\<lparr>gr_queue := rest, gr_budget := b\<rparr>" and ?h = "set_node n node (g\<lparr>gr_queue := rest, gr_budget := b\<rparr>)"
  have g: "graph_ok ?g" "same_net g ?g" using ok_pop [OF assms(1,3)] by simp_all
  have s: "graph_ok ?h" "same_net g ?h"
    using ok_set_node [OF g(1) r(1), of n] r(2) n same_net_trans [OF g(2)] by simp_all
  have "sends_up (env_of ?h n) (gr_nodes ?h ! n) es"
    using r(3) sends_up_same [OF r(2), of "env_of g n"] n by (simp add: sends_up_def set_node_def env_of_def)
  with enqueue_effects_queue [OF s(1), of n es] assms(2) n same_net_remote [OF s(2)] same_net_memory_open [OF s(2)]
  show ?thesis by (simp add: deliver_one_def assms(3) d set_node_def routed_def)
qed

lemma drain_deliver: "gr_queue g \<noteq> [] \<Longrightarrow> drain (deliver_one g) = drain g"
  by (simp add: drain_def while_option_unfold)

lemma enqueue_effects_nodes: "gr_nodes (enqueue_effects n es g) = gr_nodes g"
proof (induction es arbitrary: g)
  case (Cons e es)
  have "gr_nodes (enqueue_effect n e g) = gr_nodes g"
    by (auto simp: enqueue_effect_def transport_failed_def transport_enqueue_def udp_enqueue_def split: eff.split sum.split option.splits if_splits FrameTransport.splits)
  with Cons [of "enqueue_effect n e g"] show ?case by (simp add: enqueue_effects_def)
qed (simp add: enqueue_effects_def)

end
