(* ===== verification/Parser.thy ===== *)
theory Parser
  imports GraphRun
begin

text \<open>
  The topology file: the configuration structs, the validation and the construction of
  \<open>src/src/topology_parser.go\<close>, and the device type names of \<open>src/src/node.go\<close>.  The YAML decoder is
  outside the model; a configuration is what it returns.  Go's \<open>int\<close> is \<open>int\<close>, and the conversions to
  \<open>uint8\<close>, \<open>uint16\<close> and \<open>uint32\<close> truncate.  \<open>strings.ToLower\<close> and \<open>strings.TrimSpace\<close> are modelled on ASCII.

  A build is an option of a sum: None when draining the network does not come back, \<open>Inl\<close> with the
  error and the graph as far as it was built, \<open>Inr\<close> with the graph.
\<close>

record TopologyInfo =
  ti_Name :: string
  ti_Description :: string
  ti_Summary :: string
  ti_DefaultSource :: string
  ti_DefaultDestination :: string
  ti_Canvas :: "CanvasConfig option"

record VLANInterfaceConfig = vc_VLAN :: int vc_IP :: string vc_Mask :: int
record RouteConfig = rc_Destination :: string rc_Mask :: int rc_Gateway :: string rc_Interface :: string

record InterfaceConfig =
  ic_Name :: string
  ic_IP :: string
  ic_Mask :: int
  ic_Mode :: string
  ic_VLAN :: int
  ic_NativeVLAN :: int
  ic_AllowedVLANs :: "int list"

record NodeConfig =
  nc_Name :: string
  nc_Type :: string
  nc_LLDP :: bool
  nc_STP :: "bool option"
  nc_STPPriority :: "int option"
  nc_Position :: "PositionConfig option"
  nc_Loopback :: string
  nc_Interfaces :: "InterfaceConfig list"
  nc_VLANInterfaces :: "VLANInterfaceConfig list"
  nc_Routes :: "RouteConfig list"

record LinkConfig =
  lc_FromNode :: string
  lc_FromInterface :: string
  lc_ToNode :: string
  lc_ToInterface :: string
  lc_Cost :: int

record TopologyConfig =
  tc_Topology :: TopologyInfo
  tc_Nodes :: "NodeConfig list"
  tc_Links :: "LinkConfig list"

definition MAX_NODES_PER_TOPOLOGY :: nat where "MAX_NODES_PER_TOPOLOGY = 100"

section \<open>Device types\<close>

definition to_lower_char :: "char \<Rightarrow> char" where
  "to_lower_char c = (if 65 \<le> (of_char c :: nat) \<and> (of_char c :: nat) \<le> 90 then char_of ((of_char c :: nat) + 32) else c)"

definition is_space :: "char \<Rightarrow> bool" where
  "is_space c \<longleftrightarrow> (of_char c :: nat) \<in> {9, 10, 11, 12, 13, 32}"

definition trim_space :: "string \<Rightarrow> string" where
  "trim_space s = rev (dropWhile is_space (rev (dropWhile is_space s)))"

definition lower_trimmed :: "string \<Rightarrow> string" where
  "lower_trimmed s = map to_lower_char (trim_space s)"

definition parseDeviceType :: "string \<Rightarrow> DeviceType option" where
  "parseDeviceType val =
     (if lower_trimmed val = ''host'' then Some DEVICE_TYPE_HOST
      else if lower_trimmed val = ''switch'' then Some DEVICE_TYPE_SWITCH
      else if lower_trimmed val = ''router'' then Some DEVICE_TYPE_ROUTER
      else None)"

definition hasRouterName :: "string \<Rightarrow> bool" where
  "hasRouterName name =
     (let name = lower_trimmed name in
      if take 6 name = ''router'' then True
      else if length name < 2 \<or> hd name \<noteq> CHR ''r'' then False
      else list_all is_digit (tl name))"

fun routed_interfaces :: "nat \<Rightarrow> InterfaceConfig list \<Rightarrow> nat option" where
  "routed_interfaces k [] = Some k"
| "routed_interfaces k (intf # rest) = (if ic_IP intf = [] then None else routed_interfaces (k + 1) rest)"

definition resolveDeviceType :: "NodeConfig \<Rightarrow> DeviceType" where
  "resolveDeviceType config =
     (case parseDeviceType (nc_Type config) of
        Some configured \<Rightarrow> configured
      | None \<Rightarrow>
          if nc_VLANInterfaces config \<noteq> [] then DEVICE_TYPE_SWITCH
          else case routed_interfaces 0 (nc_Interfaces config) of
            None \<Rightarrow> DEVICE_TYPE_SWITCH
          | Some k \<Rightarrow> if k > 1 \<or> hasRouterName (nc_Name config) then DEVICE_TYPE_ROUTER else DEVICE_TYPE_HOST)"

definition stpEnabledForNode :: "NodeConfig \<Rightarrow> Node \<Rightarrow> bool" where
  "stpEnabledForNode config node =
     (case nc_STP config of Some b \<Rightarrow> b | None \<Rightarrow> nd_device_type node = Some DEVICE_TYPE_SWITCH)"

section \<open>Validation\<close>

text \<open>The first of a list of checks that fails, with its message.\<close>

definition first_error :: "(bool \<times> string) list \<Rightarrow> string option" where
  "first_error checks = map_option snd (find fst checks)"

definition valid_ip :: "string \<Rightarrow> bool" where
  "valid_ip s \<longleftrightarrow> snd (set_ip_addr zero_ip s)"

definition vlan_id_ok :: "int \<Rightarrow> bool" where
  "vlan_id_ok v \<longleftrightarrow> \<not> (v < int (unat VLAN_MIN) \<or> v > int (unat VLAN_MAX))"

definition intf_key :: "string \<Rightarrow> string \<Rightarrow> string" where
  "intf_key node_name if_nm = node_name @ '':'' @ if_nm"

definition effective_mode :: "InterfaceConfig \<Rightarrow> string" where
  "effective_mode intf = (if ic_Mode intf = [] then ''access'' else ic_Mode intf)"

definition switchport_errors :: "InterfaceConfig \<Rightarrow> (bool \<times> string) list" where
  "switchport_errors intf =
     (let m = effective_mode intf in
      [(m \<noteq> ''access'' \<and> m \<noteq> ''trunk'', ''invalid mode''),
       (m = ''access'' \<and> (ic_NativeVLAN intf \<noteq> 0 \<or> ic_AllowedVLANs intf \<noteq> []),
        ''cannot use native_vlan or allowed_vlans in access mode''),
       (m = ''trunk'' \<and> ic_VLAN intf \<noteq> 0, ''cannot use vlan in trunk mode''),
       (m = ''access'' \<and> ic_VLAN intf \<noteq> 0 \<and> \<not> vlan_id_ok (ic_VLAN intf), ''invalid access VLAN''),
       (m = ''trunk'' \<and> ic_NativeVLAN intf \<noteq> 0 \<and> \<not> vlan_id_ok (ic_NativeVLAN intf), ''invalid native VLAN''),
       (m = ''trunk'' \<and> length (ic_AllowedVLANs intf) > MAX_VLAN_MEMBERSHIP, ''too many allowed VLANs''),
       (m = ''trunk'' \<and> \<not> list_all vlan_id_ok (ic_AllowedVLANs intf), ''invalid allowed VLAN'')])"

definition interface_errors :: "string \<Rightarrow> string list \<Rightarrow> InterfaceConfig \<Rightarrow> (bool \<times> string) list" where
  "interface_errors node_name interfaceMap intf =
     (let hasSwitchportFields =
            (ic_Mode intf \<noteq> [] \<or> ic_VLAN intf \<noteq> 0 \<or> ic_NativeVLAN intf \<noteq> 0 \<or> ic_AllowedVLANs intf \<noteq> [])
      in [(ic_Name intf = [], ''interface name is required''),
          (length (ic_Name intf) > IF_NAME_SIZE, ''interface name too long''),
          (intf_key node_name (ic_Name intf) \<in> set interfaceMap, ''duplicate interface name''),
          (ic_IP intf = [] \<and> ic_Mask intf \<noteq> 0, ''mask without ip''),
          (ic_IP intf \<noteq> [] \<and> hasSwitchportFields, ''both routed and switchport'')]
         @ (if ic_IP intf \<noteq> []
            then [(\<not> valid_ip (ic_IP intf), ''invalid IP''),
                  (ic_Mask intf < 1 \<or> ic_Mask intf > 32, ''invalid subnet mask'')]
            else switchport_errors intf))"

fun validate_interfaces :: "string \<Rightarrow> string list \<Rightarrow> InterfaceConfig list \<Rightarrow> string + string list" where
  "validate_interfaces node_name interfaceMap [] = Inr interfaceMap"
| "validate_interfaces node_name interfaceMap (intf # rest) =
     (case first_error (interface_errors node_name interfaceMap intf) of
        Some e \<Rightarrow> Inl e
      | None \<Rightarrow> validate_interfaces node_name (intf_key node_name (ic_Name intf) # interfaceMap) rest)"

fun validate_vlan_interfaces :: "int list \<Rightarrow> VLANInterfaceConfig list \<Rightarrow> string option" where
  "validate_vlan_interfaces seen [] = None"
| "validate_vlan_interfaces seen (v # rest) =
     (case first_error
         [(\<not> vlan_id_ok (vc_VLAN v), ''invalid VLAN interface ID''),
          (vc_VLAN v \<in> set seen, ''duplicate VLAN interface''),
          (\<not> valid_ip (vc_IP v) \<or> vc_Mask v < 1 \<or> vc_Mask v > 32, ''invalid VLAN interface address'')] of
        Some e \<Rightarrow> Some e | None \<Rightarrow> validate_vlan_interfaces (vc_VLAN v # seen) rest)"

definition route_errors :: "NodeConfig \<Rightarrow> RouteConfig \<Rightarrow> (bool \<times> string) list" where
  "route_errors node route =
     [(\<not> valid_ip (rc_Destination route) \<or> rc_Mask route < 0 \<or> rc_Mask route > 32, ''invalid route destination''),
      (\<not> valid_ip (rc_Gateway route), ''invalid route gateway''),
      (rc_Interface route \<notin> ic_Name ` set (nc_Interfaces node), ''route interface not found'')]"

definition position_ok :: "TopologyConfig \<Rightarrow> NodeConfig \<Rightarrow> bool" where
  "position_ok config node =
     (case (nc_Position node, ti_Canvas (tc_Topology config)) of
        (Some p, Some c) \<Rightarrow> \<not> (ps_X p < 0 \<or> ps_X p > cv_Width c \<or> ps_Y p < 0 \<or> ps_Y p > cv_Height c)
      | _ \<Rightarrow> True)"

definition node_errors :: "TopologyConfig \<Rightarrow> string list \<Rightarrow> NodeConfig \<Rightarrow> (bool \<times> string) list" where
  "node_errors config nodeMap node =
     [(nc_Name node = [], ''node name is required''),
      (length (nc_Name node) > NODE_NAME_SIZE, ''node name too long''),
      (length (nc_Interfaces node) > MAX_INTF_PER_NODE, ''too many interfaces''),
      (nc_Type node \<noteq> [] \<and> parseDeviceType (nc_Type node) = None, ''invalid device type''),
      (nc_Position node \<noteq> None \<and> ti_Canvas (tc_Topology config) = None, ''position without canvas''),
      (\<not> position_ok config node, ''position outside the canvas''),
      (nc_Loopback node \<noteq> [] \<and> \<not> valid_ip (nc_Loopback node), ''invalid loopback IP''),
      (nc_Name node \<in> set nodeMap, ''duplicate node name'')]"

fun validate_nodes ::
  "TopologyConfig \<Rightarrow> string list \<Rightarrow> string list \<Rightarrow> NodeConfig list \<Rightarrow> string + string list \<times> string list" where
  "validate_nodes config nodeMap interfaceMap [] = Inr (nodeMap, interfaceMap)"
| "validate_nodes config nodeMap interfaceMap (node # rest) =
     (case first_error (node_errors config nodeMap node) of
        Some e \<Rightarrow> Inl e
      | None \<Rightarrow>
          (case validate_interfaces (nc_Name node) interfaceMap (nc_Interfaces node) of
             Inl e \<Rightarrow> Inl e
           | Inr interfaceMap' \<Rightarrow>
               (case validate_vlan_interfaces [] (nc_VLANInterfaces node) of
                  Some e \<Rightarrow> Inl e
                | None \<Rightarrow>
                    (case first_error (concat (map (route_errors node) (nc_Routes node))) of
                       Some e \<Rightarrow> Inl e
                     | None \<Rightarrow> validate_nodes config (nc_Name node # nodeMap) interfaceMap' rest))))"

definition link_errors :: "string list \<Rightarrow> string list \<Rightarrow> string list \<Rightarrow> LinkConfig \<Rightarrow> (bool \<times> string) list" where
  "link_errors nodeMap interfaceMap linkedInterfaces l =
     (let fromIntfKey = intf_key (lc_FromNode l) (lc_FromInterface l);
          toIntfKey = intf_key (lc_ToNode l) (lc_ToInterface l)
      in [(lc_FromNode l = [] \<or> lc_ToNode l = [], ''from_node and to_node are required''),
          (lc_FromInterface l = [] \<or> lc_ToInterface l = [], ''from_interface and to_interface are required''),
          (lc_FromNode l \<notin> set nodeMap, ''from_node not found''),
          (lc_ToNode l \<notin> set nodeMap, ''to_node not found''),
          (fromIntfKey \<notin> set interfaceMap, ''from_interface not found''),
          (toIntfKey \<notin> set interfaceMap, ''to_interface not found''),
          (fromIntfKey \<in> set linkedInterfaces \<or> toIntfKey \<in> set linkedInterfaces,
           ''reuses an interface that is already connected''),
          (lc_Cost l < 0, ''cost must be non-negative'')])"

fun validate_links :: "string list \<Rightarrow> string list \<Rightarrow> string list \<Rightarrow> LinkConfig list \<Rightarrow> string option" where
  "validate_links nodeMap interfaceMap linkedInterfaces [] = None"
| "validate_links nodeMap interfaceMap linkedInterfaces (l # rest) =
     (case first_error (link_errors nodeMap interfaceMap linkedInterfaces l) of
        Some e \<Rightarrow> Some e
      | None \<Rightarrow> validate_links nodeMap interfaceMap
          (intf_key (lc_FromNode l) (lc_FromInterface l) #
           intf_key (lc_ToNode l) (lc_ToInterface l) # linkedInterfaces) rest)"

definition topology_errors :: "TopologyConfig \<Rightarrow> (bool \<times> string) list" where
  "topology_errors config =
     [(ti_Name (tc_Topology config) = [], ''topology name is required''),
      (length (ti_Name (tc_Topology config)) > 32, ''topology name too long''),
      (tc_Nodes config = [], ''at least one node is required''),
      (length (tc_Nodes config) > MAX_NODES_PER_TOPOLOGY, ''too many devices'')]
     @ (case ti_Canvas (tc_Topology config) of
          None \<Rightarrow> []
        | Some c \<Rightarrow> [(cv_Width c \<le> 0 \<or> cv_Height c \<le> 0, ''canvas must be positive''),
                     (cv_Width c > 10000 \<or> cv_Height c > 10000, ''canvas too large'')])"

definition validate_topology_config :: "TopologyConfig \<Rightarrow> string option" where
  "validate_topology_config config =
     (case first_error (topology_errors config) of
        Some e \<Rightarrow> Some e
      | None \<Rightarrow>
          (case validate_nodes config [] [] (tc_Nodes config) of
             Inl e \<Rightarrow> Some e
           | Inr (nodeMap, interfaceMap) \<Rightarrow>
               (let src = ti_DefaultSource (tc_Topology config);
                    dst = ti_DefaultDestination (tc_Topology config)
                in case first_error [(src \<noteq> [] \<and> src \<notin> set nodeMap, ''default_source not found''),
                                     (dst \<noteq> [] \<and> dst \<notin> set nodeMap, ''default_destination not found'')] of
                     Some e \<Rightarrow> Some e
                   | None \<Rightarrow> validate_links nodeMap interfaceMap [] (tc_Links config))))"

section \<open>Construction\<close>

type_synonym 'a build = "(string \<times> Graph + 'a) option"

definition build_then :: "'a build \<Rightarrow> ('a \<Rightarrow> 'b build) \<Rightarrow> 'b build" where
  "build_then r f = (case r of None \<Rightarrow> None | Some (Inl e) \<Rightarrow> Some (Inl e) | Some (Inr x) \<Rightarrow> f x)"

fun build_each :: "('a \<Rightarrow> Graph \<Rightarrow> Graph build) \<Rightarrow> 'a list \<Rightarrow> Graph \<Rightarrow> Graph build" where
  "build_each f [] g = Some (Inr g)"
| "build_each f (x # xs) g = build_then (f x g) (build_each f xs)"

definition or_fail :: "string \<Rightarrow> Graph \<Rightarrow> bool \<Rightarrow> Graph build" where
  "or_fail e g ok = (if ok then Some (Inr g) else Some (Inl (e, g)))"

definition returned :: "Graph option \<Rightarrow> Graph build" where
  "returned r = map_option Inr r"

definition build_interface :: "nat \<Rightarrow> InterfaceConfig \<Rightarrow> Graph \<Rightarrow> Graph build" where
  "build_interface n intf g =
     (case graph_create_interface n (ic_Name intf) g of Inl e \<Rightarrow> Some (Inl (e, g)) | Inr g' \<Rightarrow> Some (Inr g'))"

definition build_vlan_interface :: "nat \<Rightarrow> VLANInterfaceConfig \<Rightarrow> Graph \<Rightarrow> Graph build" where
  "build_vlan_interface n v g =
     (let (node, ok) = AddVlanInterface (gr_nodes g ! n) (word_of_int (vc_VLAN v)) (vc_IP v) (word_of_int (vc_Mask v))
      in or_fail ''failed to configure VLAN interface'' (set_node n node g) ok)"

definition build_route :: "nat \<Rightarrow> RouteConfig \<Rightarrow> Graph \<Rightarrow> Graph build" where
  "build_route n r g =
     (let (rt, err) = AddRoute (nd_rt (gr_nodes g ! n)) (rc_Destination r) (word_of_int (rc_Mask r))
                        (rc_Gateway r) (rc_Interface r)
      in or_fail ''failed to configure route'' (set_node n ((gr_nodes g ! n)\<lparr>nd_rt := rt\<rparr>) g) (err = None))"

definition build_node :: "NodeConfig \<Rightarrow> Graph \<Rightarrow> Graph build" where
  "build_node config g =
     (let n = length (gr_nodes g);
          g1 = create_graph_node (nc_Name config) g;
          g2 = set_node n ((gr_nodes g1 ! n)\<lparr>nd_device_type := Some (resolveDeviceType config)\<rparr>) g1
      in build_then (build_each (build_interface n) (nc_Interfaces config) g2) (\<lambda>g3.
           let g4 = (if nc_Loopback config = [] then g3
                     else set_node n (fst (SetLoopbackIP (gr_nodes g3 ! n) (nc_Loopback config))) g3)
           in build_then (build_each (build_vlan_interface n) (nc_VLANInterfaces config) g4)
                (build_each (build_route n) (nc_Routes config))))"

text \<open>\<open>nodeMap\<close>: the last node created under a name.\<close>

definition node_map :: "TopologyConfig \<Rightarrow> string \<Rightarrow> nat option" where
  "node_map config name = map_of (rev (zip (map nc_Name (tc_Nodes config)) [0..<length (tc_Nodes config)])) name"

definition build_link :: "TopologyConfig \<Rightarrow> LinkConfig \<Rightarrow> Graph \<Rightarrow> Graph build" where
  "build_link config l g =
     (case (node_map config (lc_FromNode l), node_map config (lc_ToNode l)) of
        (Some n1, Some n2) \<Rightarrow>
          (case graph_insert_link n1 (lc_FromInterface l) n2 (lc_ToInterface l) (word_of_int (lc_Cost l)) g of
             Inl e \<Rightarrow> Some (Inl (e, g)) | Inr g' \<Rightarrow> Some (Inr g'))
      | _ \<Rightarrow> Some (Inl (''failed to find nodes for link'', g)))"

definition default_vlan :: "int \<Rightarrow> u16" where
  "default_vlan v = (if (word_of_int v :: u16) = 0 then VLAN_DEFAULT else word_of_int v)"

definition set_port_mode :: "nat \<Rightarrow> nat \<Rightarrow> (Interface \<Rightarrow> Interface \<times> bool) \<Rightarrow> string \<Rightarrow> Graph \<Rightarrow> Graph build" where
  "set_port_mode n i f e g =
     (case intf_of (gr_nodes g ! n) i of
        None \<Rightarrow> Some (Inr g)
      | Some intf \<Rightarrow> or_fail e (set_node n (set_intf n i f (gr_nodes g ! n)) g) (snd (f intf)))"

definition configure_interface :: "nat \<Rightarrow> InterfaceConfig \<Rightarrow> Graph \<Rightarrow> Graph build" where
  "configure_interface n config g =
     (case get_node_if_by_name (nd_intf (gr_nodes g ! n)) (ic_Name config) of
        None \<Rightarrow> Some (Inr g)
      | Some i \<Rightarrow>
          if ic_IP config \<noteq> [] then
            (let (node, ok) = node_set_intf_ip_address (gr_nodes g ! n) (ic_Name config) (ic_IP config)
                                (word_of_int (ic_Mask config))
             in or_fail ''failed to set IP address'' (set_node n node g) ok)
          else if effective_mode config = ''access'' then
            set_port_mode n i (\<lambda>intf. SetAccessVLAN intf (default_vlan (ic_VLAN config))) ''failed to set access VLAN'' g
          else if effective_mode config = ''trunk'' then
            set_port_mode n i (\<lambda>intf. SetTrunkConfig intf (default_vlan (ic_NativeVLAN config))
                                        (map word_of_int (ic_AllowedVLANs config))) ''failed to set trunk config'' g
          else Some (Inl (''invalid interface mode'', g)))"

definition configure_node :: "TopologyConfig \<Rightarrow> NodeConfig \<Rightarrow> Graph \<Rightarrow> Graph build" where
  "configure_node config nodeConfig g =
     (case node_map config (nc_Name nodeConfig) of
        None \<Rightarrow> Some (Inr g) | Some n \<Rightarrow> build_each (configure_interface n) (nc_Interfaces nodeConfig) g)"

definition build_priority :: "nat \<Rightarrow> int option \<Rightarrow> Graph \<Rightarrow> Graph build" where
  "build_priority n priority g =
     (case priority of
        None \<Rightarrow> Some (Inr g)
      | Some p \<Rightarrow>
          if p < 0 \<or> p > 65535 then Some (Inl (''stp_priority is out of range'', g))
          else (case graph_set_priority n (word_of_int p) g of
                  (None, _) \<Rightarrow> None
                | (Some g', ok) \<Rightarrow> or_fail ''stp_priority must be a multiple of 4096'' g' ok))"

definition build_stp :: "TopologyConfig \<Rightarrow> NodeConfig \<Rightarrow> Graph \<Rightarrow> Graph build" where
  "build_stp config nodeConfig g =
     (case node_map config (nc_Name nodeConfig) of
        None \<Rightarrow> Some (Inr g)
      | Some n \<Rightarrow>
          build_then (build_priority n (nc_STPPriority nodeConfig) g)
            (\<lambda>g. if stpEnabledForNode nodeConfig (gr_nodes g ! n) then returned (graph_start_stp n g) else Some (Inr g)))"

definition build_lldp :: "TopologyConfig \<Rightarrow> NodeConfig \<Rightarrow> Graph \<Rightarrow> Graph build" where
  "build_lldp config nodeConfig g =
     (if \<not> nc_LLDP nodeConfig then Some (Inr g)
      else case node_map config (nc_Name nodeConfig) of
        None \<Rightarrow> Some (Inr g) | Some n \<Rightarrow> returned (run_on n StartLLDP g))"

definition render_data :: "TopologyConfig \<Rightarrow> TopologyRenderData" where
  "render_data config =
     (let info = tc_Topology config in
      \<lparr>rd_Description = ti_Description info, rd_Summary = ti_Summary info,
       rd_DefaultSource = ti_DefaultSource info, rd_DefaultDestination = ti_DefaultDestination info,
       rd_Canvas = ti_Canvas info,
       rd_Positions = rev (List.map_filter (\<lambda>node. map_option (Pair (nc_Name node)) (nc_Position node)) (tc_Nodes config))\<rparr>)"

definition empty_topology :: "TopologyConfig \<Rightarrow> FrameTransport \<Rightarrow> 64 word \<Rightarrow> int \<Rightarrow> Graph" where
  "empty_topology config transport counter now =
     (create_new_graph_with_transport (ti_Name (tc_Topology config)) transport counter now)\<lparr>gr_render := render_data config\<rparr>"

lemma empty_topology_fields [simp]:
  "graph_ok (empty_topology config transport counter now)" "gr_nodes (empty_topology config transport counter now) = []"
  "gr_transport (empty_topology config transport counter now) = transport"
  "gr_queue (empty_topology config transport counter now) = []"
  by (simp_all add: empty_topology_def create_new_graph_with_transport_def graph_ok_def wired_def linked_def
      intf_in_def queue_ok_def bus_idle_def NewEventBus_def)

definition build_graph_from_config_with_transport ::
  "TopologyConfig \<Rightarrow> FrameTransport \<Rightarrow> 64 word \<Rightarrow> int \<Rightarrow> Graph build" where
  "build_graph_from_config_with_transport config transport counter now =
     build_then
       (build_each build_node (tc_Nodes config)
         (empty_topology config transport counter now))
       (\<lambda>g. build_then (build_each (build_link config) (tc_Links config) g)
       (\<lambda>g. build_then (build_each (configure_node config) (tc_Nodes config) g)
       (\<lambda>g. build_then (build_each (build_stp config) (tc_Nodes config) g)
       (\<lambda>g. build_then (returned (ConvergeSpanningTree g))
         (build_each (build_lldp config) (tc_Nodes config))))))"

text \<open>\<open>load_topology_from_bytes_with_transport\<close>, on the decoded configuration; a failed build is
  cleaned up and dropped.\<close>

definition load_topology_with_transport :: "TopologyConfig \<Rightarrow> FrameTransport \<Rightarrow> 64 word \<Rightarrow> int \<Rightarrow> Graph build" where
  "load_topology_with_transport config transport counter now =
     (case validate_topology_config config of
        Some e \<Rightarrow> Some (Inl (''topology validation failed: '' @ e, create_new_graph_with_transport [] transport counter now))
      | None \<Rightarrow>
          (case build_graph_from_config_with_transport config transport counter now of
             None \<Rightarrow> None
           | Some (Inr g) \<Rightarrow> Some (Inr g)
           | Some (Inl (e, g)) \<Rightarrow>
               (case cleanup_graph_resources g of
                  None \<Rightarrow> None | Some g' \<Rightarrow> Some (Inl (''failed to build graph: '' @ e, g')))))"

abbreviation load_topology :: "TopologyConfig \<Rightarrow> 64 word \<Rightarrow> int \<Rightarrow> Graph build" where
  "load_topology config \<equiv> load_topology_with_transport config MemoryTransport"

end
