(* ===== verification/ParserProofs.thy ===== *)
theory ParserProofs
  imports Parser
begin

text \<open>
  What validation guarantees, and that a build that succeeds yields a network with its invariant, no
  frame in flight and one node per node of the configuration.
\<close>

section \<open>Validation\<close>

lemma first_error_None: "first_error cs = None \<longleftrightarrow> (\<forall>c\<in>set cs. \<not> fst c)"
  by (auto simp: first_error_def find_None_iff)

lemma validate_interfaces_names:
  "validate_interfaces nm im is = Inr im' \<Longrightarrow>
     (\<forall>i\<in>set is. ic_Name i \<noteq> [] \<and> length (ic_Name i) \<le> IF_NAME_SIZE) \<and> distinct (map ic_Name is) \<and>
     (\<forall>i\<in>set is. intf_key nm (ic_Name i) \<notin> set im)"
proof (induction "is" arbitrary: im)
  case (Cons i rest)
  have e: "first_error (interface_errors nm im i) = None"
    using Cons.prems by (cases "first_error (interface_errors nm im i)") simp_all
  then have "validate_interfaces nm (intf_key nm (ic_Name i) # im) rest = Inr im'" using Cons.prems by simp
  from Cons.IH [OF this] e show ?case
    by (auto simp: first_error_None interface_errors_def Let_def intf_key_def)
qed simp

definition node_names_ok :: "NodeConfig \<Rightarrow> bool" where
  "node_names_ok n \<longleftrightarrow> nc_Name n \<noteq> [] \<and> length (nc_Name n) \<le> NODE_NAME_SIZE \<and>
      length (nc_Interfaces n) \<le> MAX_INTF_PER_NODE \<and> distinct (map ic_Name (nc_Interfaces n)) \<and>
      (\<forall>i\<in>set (nc_Interfaces n). ic_Name i \<noteq> [] \<and> length (ic_Name i) \<le> IF_NAME_SIZE)"

lemma validate_nodes_Cons:
  assumes "validate_nodes config nm im (n # rest) = Inr r"
  obtains im' where "node_names_ok n" "nc_Name n \<notin> set nm" "validate_nodes config (nc_Name n # nm) im' rest = Inr r"
proof -
  have e: "first_error (node_errors config nm n) = None"
    using assms by (cases "first_error (node_errors config nm n)") simp_all
  then obtain im' where im': "validate_interfaces (nc_Name n) im (nc_Interfaces n) = Inr im'"
    using assms by (cases "validate_interfaces (nc_Name n) im (nc_Interfaces n)") simp_all
  have "validate_nodes config (nc_Name n # nm) im' rest = Inr r"
    using assms e im' by (simp split: option.splits)
  moreover have "node_names_ok n" "nc_Name n \<notin> set nm"
    using e validate_interfaces_names [OF im'] by (simp_all add: first_error_None node_errors_def node_names_ok_def)
  ultimately show ?thesis by (rule that [rotated 2])
qed

lemma validate_nodes_names:
  "validate_nodes config nm im ns = Inr r \<Longrightarrow>
     (\<forall>n\<in>set ns. node_names_ok n) \<and> distinct (map nc_Name ns) \<and> (\<forall>n\<in>set ns. nc_Name n \<notin> set nm)"
proof (induction ns arbitrary: nm im)
  case (Cons n rest)
  from Cons.prems obtain im' where "node_names_ok n" "nc_Name n \<notin> set nm"
    "validate_nodes config (nc_Name n # nm) im' rest = Inr r" by (rule validate_nodes_Cons)
  with Cons.IH [of "nc_Name n # nm" im'] show ?case by auto
qed simp

lemma validated_names:
  assumes "validate_topology_config config = None"
  shows "\<forall>n\<in>set (tc_Nodes config). node_names_ok n" "distinct (map nc_Name (tc_Nodes config))"
    "tc_Nodes config \<noteq> []" "length (tc_Nodes config) \<le> MAX_NODES_PER_TOPOLOGY"
proof -
  have t: "first_error (topology_errors config) = None"
    using assms by (cases "first_error (topology_errors config)") (simp_all add: validate_topology_config_def)
  then obtain r where r: "validate_nodes config [] [] (tc_Nodes config) = Inr r"
    using assms by (cases "validate_nodes config [] [] (tc_Nodes config)") (auto simp: validate_topology_config_def)
  from validate_nodes_names [OF r] show "\<forall>n\<in>set (tc_Nodes config). node_names_ok n"
    "distinct (map nc_Name (tc_Nodes config))" by simp_all
  from t show "tc_Nodes config \<noteq> []" "length (tc_Nodes config) \<le> MAX_NODES_PER_TOPOLOGY"
    by (simp_all add: first_error_None topology_errors_def)
qed

section \<open>Construction\<close>

definition built :: "nat \<Rightarrow> Graph \<Rightarrow> bool" where
  "built k g \<longleftrightarrow> graph_ok g \<and> gr_queue g = [] \<and> length (gr_nodes g) = k"

definition fine :: "nat \<Rightarrow> Graph build \<Rightarrow> bool" where
  "fine k r \<longleftrightarrow>
     (case r of None \<Rightarrow> True
      | Some (Inl (e, g)) \<Rightarrow> graph_ok g \<and> gr_queue g = []
      | Some (Inr g) \<Rightarrow> built k g)"

named_theorems build_ok "steps of the construction that keep the invariant"

lemma fine_simps [simp]:
  "fine k None" "fine k (Some (Inr g)) \<longleftrightarrow> built k g"
  "fine k (Some (Inl (e, g))) \<longleftrightarrow> graph_ok g \<and> gr_queue g = []"
  by (simp_all add: fine_def)

lemma builtD: "built k g \<Longrightarrow> graph_ok g" "built k g \<Longrightarrow> gr_queue g = []" "built k g \<Longrightarrow> length (gr_nodes g) = k"
  by (simp_all add: built_def)

lemma fine_then:
  assumes "fine k r" "\<And>g. built k g \<Longrightarrow> fine k' (f g)" shows "fine k' (build_then r f)"
proof (cases r)
  case (Some x)
  then show ?thesis using assms by (cases x) (auto simp: build_then_def)
qed (simp add: build_then_def)

lemma fine_each:
  "built k g \<Longrightarrow> (\<And>x g. x \<in> set xs \<Longrightarrow> built k g \<Longrightarrow> fine k (f x g)) \<Longrightarrow> fine k (build_each f xs g)"
  by (induction xs arbitrary: g) (auto intro: fine_then)

lemma fine_or_fail: "built k g \<Longrightarrow> fine k (or_fail e g ok)"
  by (simp add: or_fail_def builtD)

lemma built_set_node:
  "built k g \<Longrightarrow> graph_ok (set_node n node g) \<Longrightarrow> built k (set_node n node g)"
  by (simp add: built_def set_node_def)

lemma fine_interface [build_ok]:
  "built k g \<Longrightarrow> n < k \<Longrightarrow> valid_name (ic_Name i) \<Longrightarrow> fine k (build_interface n i g)"
  using graph_ok_create_interface [of g n "ic_Name i"]
  by (auto simp: build_interface_def built_def graph_create_interface_def set_node_def split: sum.splits)

lemma fine_vlan [build_ok]:
  assumes "built k g" "n < k" shows "fine k (build_vlan_interface n v g)"
proof -
  let ?r = "AddVlanInterface (gr_nodes g ! n) (word_of_int (vc_VLAN v)) (vc_IP v) (word_of_int (vc_Mask v))"
  have "graph_ok (set_node n (fst ?r) g)"
    using assms by (intro same_intfs_ok add_vlan_ok graph_ok_node) (simp_all add: built_def add_vlan_intfs)
  then show ?thesis using built_set_node [OF assms(1)]
    by (simp add: build_vlan_interface_def case_prod_beta Let_def fine_or_fail)
qed

lemma fine_route [build_ok]:
  assumes "built k g" "n < k" shows "fine k (build_route n r g)"
proof -
  let ?rt = "AddRoute (nd_rt (gr_nodes g ! n)) (rc_Destination r) (word_of_int (rc_Mask r)) (rc_Gateway r) (rc_Interface r)"
  have "graph_ok (set_node n ((gr_nodes g ! n)\<lparr>nd_rt := fst ?rt\<rparr>) g)"
    using assms by (intro same_intfs_ok add_route_ok graph_ok_node) (simp_all add: built_def)
  then show ?thesis using built_set_node [OF assms(1)]
    by (simp add: build_route_def case_prod_beta Let_def fine_or_fail)
qed

lemma built_loopback: "built k g \<Longrightarrow> n < k \<Longrightarrow> built k (set_node n (fst (SetLoopbackIP (gr_nodes g ! n) ip)) g)"
  by (intro built_set_node same_intfs_ok conjunct1 [OF loopback_ok] conjunct2 [OF loopback_ok] graph_ok_node)
     (simp_all add: built_def)

lemma built_new_node:
  assumes "built k g"
  shows "built (Suc k) (set_node k ((gr_nodes (create_graph_node nm g) ! k)\<lparr>nd_device_type := d\<rparr>) (create_graph_node nm g))"
proof -
  let ?g = "create_graph_node nm g"
  have g: "built (Suc k) ?g" using assms graph_ok_create_node [of g nm] by (simp add: built_def create_graph_node_def)
  have "node_ok ((gr_nodes ?g ! k)\<lparr>nd_device_type := d\<rparr>)"
    using graph_ok_node [of ?g k] g by (simp add: built_def node_ok_def wf_node_intfs_def)
  with g show ?thesis by (intro built_set_node same_intfs_ok) (simp_all add: built_def)
qed

lemma fine_node [build_ok]:
  assumes "built k g" "\<forall>i\<in>set (nc_Interfaces config). valid_name (ic_Name i)"
  shows "fine (Suc k) (build_node config g)"
proof -
  have k: "length (gr_nodes g) = k" using assms(1) by (simp add: built_def)
  have rest: "fine (Suc k) (build_then (build_each (build_vlan_interface k) vs h) (build_each (build_route k) rs))"
    if "built (Suc k) h" for vs rs h
    using that by (auto intro!: fine_then fine_each build_ok)
  have "fine (Suc k) (build_then (build_each (build_interface k) (nc_Interfaces config) h) (\<lambda>g3.
         let g4 = (if nc_Loopback config = [] then g3
                   else set_node k (fst (SetLoopbackIP (gr_nodes g3 ! k) (nc_Loopback config))) g3)
         in build_then (build_each (build_vlan_interface k) (nc_VLANInterfaces config) g4)
              (build_each (build_route k) (nc_Routes config))))" if "built (Suc k) h" for h
    using assms(2) that by (auto simp: Let_def intro!: fine_then fine_each fine_interface rest built_loopback)
  from this [OF built_new_node [OF assms(1)]] show ?thesis unfolding build_node_def k Let_def .
qed

lemma fine_nodes:
  "built k g \<Longrightarrow> \<forall>config\<in>set configs. \<forall>i\<in>set (nc_Interfaces config). valid_name (ic_Name i) \<Longrightarrow>
     fine (k + length configs) (build_each build_node configs g)"
proof (induction configs arbitrary: k g)
  case (Cons c cs)
  have "fine (Suc k) (build_node c g)" using Cons.prems by (intro fine_node) simp_all
  then show ?case using Cons.IH [of "Suc k"] Cons.prems(2) by (auto intro: fine_then)
qed simp

lemma node_map_less: "node_map config nm = Some n \<Longrightarrow> n < length (tc_Nodes config)"
  unfolding node_map_def by (drule map_of_SomeD) (auto simp: set_zip)

lemma fine_link [build_ok]:
  assumes "built k g" "k = length (tc_Nodes config)" shows "fine k (build_link config l g)"
proof (cases "node_map config (lc_FromNode l)"; cases "node_map config (lc_ToNode l)")
  fix n1 n2
  assume n: "node_map config (lc_FromNode l) = Some n1" "node_map config (lc_ToNode l) = Some n2"
  then have less: "n1 < length (gr_nodes g)" "n2 < length (gr_nodes g)"
    using node_map_less assms by (simp_all add: built_def)
  show ?thesis
  proof (cases "graph_insert_link n1 (lc_FromInterface l) n2 (lc_ToInterface l) (word_of_int (lc_Cost l)) g")
    case (Inr g')
    from graph_ok_insert_link [OF builtD(1) [OF assms(1)] Inr less] have "graph_ok g'" .
    moreover have "gr_queue g' = gr_queue g \<and> length (gr_nodes g') = length (gr_nodes g)"
      by (rule graph_insert_link_cases [OF Inr less]) simp
    ultimately show ?thesis using assms(1) by (simp add: build_link_def n Inr built_def)
  qed (use assms(1) in \<open>simp add: build_link_def n built_def\<close>)
qed (use assms(1) in \<open>simp_all add: build_link_def built_def\<close>)

lemma fine_port_mode:
  "built k g \<Longrightarrow> n < k \<Longrightarrow> setter f \<Longrightarrow> fine k (set_port_mode n i f e g)"
  unfolding set_port_mode_def
  by (auto simp: built_def intro!: fine_or_fail built_set_node setter_ok split: option.split)

lemma fine_configure [build_ok]:
  assumes "built k g" "n < k" shows "fine k (configure_interface n i g)"
proof -
  have "graph_ok (set_node n (fst (node_set_intf_ip_address (gr_nodes g ! n) (ic_Name i) (ic_IP i) (word_of_int (ic_Mask i)))) g)"
    using assms by (intro set_address_ok) (simp_all add: built_def)
  then have "fine k (or_fail e (set_node n (fst (node_set_intf_ip_address (gr_nodes g ! n) (ic_Name i) (ic_IP i)
      (word_of_int (ic_Mask i)))) g) ok)" for e ok
    by (intro fine_or_fail built_set_node assms)
  with assms show ?thesis
    unfolding configure_interface_def
    by (auto simp: case_prod_beta Let_def builtD fine_port_mode setters split: option.split)
qed

lemma fine_configure_node [build_ok]:
  "built k g \<Longrightarrow> k = length (tc_Nodes config) \<Longrightarrow> fine k (configure_node config c g)"
  unfolding configure_node_def
  by (auto intro!: fine_each fine_configure dest: node_map_less split: option.split)

lemma fine_good:
  assumes "built k g" "good g r" "ends r" shows "fine k (returned r)"
  using assms by (cases r) (auto simp: returned_def good_def built_def same_net_length)

lemma fine_priority [build_ok]:
  assumes "built k g" "n < k" shows "fine k (build_priority n p g)"
proof (cases p)
  case (Some v)
  obtain r ok where r: "graph_set_priority n (word_of_int v) g = (r, ok)" by fastforce
  have g: "good g r" using good_stp(3) [of g n "word_of_int v"] assms r by (simp add: built_def)
  have e: "ends r" using quietD [OF quiet_set_priority, of g n "word_of_int v"] assms(1) r by (simp add: built_def)
  show ?thesis
  proof (cases r)
    case (Some g')
    with fine_good [OF assms(1) g e] have "built k g'" by (simp add: returned_def)
    with Some r \<open>p = Some v\<close> show ?thesis using assms(1) by (simp add: build_priority_def fine_or_fail builtD)
  qed (use r Some assms(1) in \<open>simp add: build_priority_def builtD\<close>)
qed (simp add: build_priority_def assms(1))

lemma fine_stp [build_ok]:
  assumes "built k g" "k = length (tc_Nodes config)" shows "fine k (build_stp config c g)"
proof (cases "node_map config (nc_Name c)")
  case (Some n)
  with assms(2) have n: "n < k" by (simp add: node_map_less)
  have "fine k (returned (graph_start_stp n h))" if "built k h" for h
    using that n by (intro fine_good [OF that] good_stp quietD [OF quiet_start_stp]) (simp_all add: built_def)
  then show ?thesis
    by (auto simp: build_stp_def Some intro!: fine_then fine_priority assms(1) n)
qed (simp add: build_stp_def assms(1))

lemma fine_lldp [build_ok]:
  assumes "built k g" "k = length (tc_Nodes config)" shows "fine k (build_lldp config c g)"
proof (cases "node_map config (nc_Name c)")
  case (Some n)
  with assms have n: "n < length (gr_nodes g)" by (simp add: node_map_less built_def)
  have "fine k (returned (run_on n StartLLDP g))"
    by (intro fine_good [OF assms(1)] good_run_on quietD [OF quiet_run_on] builtD(1,2) [OF assms(1)] n ok_lldp_ops)
  then show ?thesis by (simp add: build_lldp_def Some assms(1))
qed (simp add: build_lldp_def assms(1))

lemma fine_build:
  assumes "\<forall>c\<in>set (tc_Nodes config). \<forall>i\<in>set (nc_Interfaces c). valid_name (ic_Name i)"
  shows "fine (length (tc_Nodes config)) (build_graph_from_config_with_transport config transport counter now)"
proof -
  let ?g = "empty_topology config transport counter now" and ?k = "length (tc_Nodes config)"
  have "built 0 ?g" by (simp add: built_def)
  from fine_nodes [OF this assms] have nodes: "fine ?k (build_each build_node (tc_Nodes config) ?g)" by simp
  have settle: "fine ?k (returned (ConvergeSpanningTree g))" if "built ?k g" for g
    by (intro fine_good [OF that] good_ConvergeSpanningTree quietD [OF quiet_ConvergeSpanningTree] builtD(1,2) [OF that])
  show ?thesis
    unfolding build_graph_from_config_with_transport_def
    by (auto intro!: fine_then [OF nodes] fine_then fine_each settle fine_link fine_configure_node fine_stp fine_lldp)
qed

theorem load_topology_ok:
  assumes "load_topology_with_transport config transport counter now = Some (Inr g)"
    "\<forall>c\<in>set (tc_Nodes config). \<forall>i\<in>set (nc_Interfaces c). NUL \<notin> set (ic_Name i)"
  shows "graph_ok g \<and> gr_queue g = [] \<and> length (gr_nodes g) = length (tc_Nodes config)"
proof -
  have v: "validate_topology_config config = None" and b: "build_graph_from_config_with_transport config transport counter now = Some (Inr g)"
    using assms(1) by (auto simp: load_topology_with_transport_def split: option.splits sum.splits)
  have "\<forall>c\<in>set (tc_Nodes config). \<forall>i\<in>set (nc_Interfaces c). valid_name (ic_Name i)"
    using validated_names(1) [OF v] assms(2) by (simp add: valid_name_def node_names_ok_def)
  from fine_build [OF this, of transport counter now] b show ?thesis by (simp add: built_def)
qed

end
