(* ===== verification/Snapshot.thy ===== *)
theory Snapshot
  imports Network
begin

text \<open>
  What the program shows of its state: the read-only views of \<open>src/src/simulation.go\<close>
  (\<open>snapshotNode\<close>, \<open>snapshotTopology\<close>), of \<open>src/src/l2_stp.go\<close> (\<open>BridgeSummary\<close>), and the packet
  fields of \<open>src/src/events.go\<close>.
\<close>

section \<open>Spanning tree views\<close>

definition STPPortRole_String :: "STPPortRole \<Rightarrow> string" where
  "STPPortRole_String role =
     (case role of STP_ROLE_ROOT \<Rightarrow> ''root'' | STP_ROLE_DESIGNATED \<Rightarrow> ''designated''
      | STP_ROLE_ALTERNATE \<Rightarrow> ''alternate'' | STP_ROLE_DISABLED \<Rightarrow> ''disabled'')"

definition STPPortState_String :: "STPPortState \<Rightarrow> string" where
  "STPPortState_String state =
     (case state of STP_STATE_BLOCKING \<Rightarrow> ''blocking'' | STP_STATE_LISTENING \<Rightarrow> ''listening''
      | STP_STATE_LEARNING \<Rightarrow> ''learning'' | STP_STATE_FORWARDING \<Rightarrow> ''forwarding''
      | STP_STATE_DISABLED \<Rightarrow> ''disabled'')"

definition BridgeID_String :: "BridgeID \<Rightarrow> string" where
  "BridgeID_String i = dec (unat (Priority i)) @ ''.'' @ mac_string (Address i)"

definition formatPortID :: "u16 \<Rightarrow> string" where
  "formatPortID portID = dec (unat (drop_bit 8 portID)) @ ''.'' @ dec (unat (portID AND 0xFF))"

definition stp_port_state_name :: "Node \<Rightarrow> nat \<Rightarrow> string" where
  "stp_port_state_name node i =
     (case intf_of node i of
        None \<Rightarrow> []
      | Some intf \<Rightarrow>
          if \<not> st_enabled (nd_stp node) then []
          else case port_by_name (nd_stp node) (get_interface_name intf) of
            None \<Rightarrow> [] | Some port \<Rightarrow> STPPortState_String (sp_state port))"

record STPPortStatus =
  ss_Interface :: string
  ss_Role :: string
  ss_State :: string
  ss_PathCost :: u32
  ss_PortID :: string

definition PortStatusSnapshot :: "STPState \<Rightarrow> STPPortStatus list" where
  "PortStatusSnapshot stp =
     map (\<lambda>port. \<lparr>ss_Interface = sp_name port, ss_Role = STPPortRole_String (sp_role port),
                 ss_State = STPPortState_String (sp_state port), ss_PathCost = sp_pathCost port,
                 ss_PortID = formatPortID (sp_portID port)\<rparr>) (portsSorted stp)"

record STPBridgeState =
  sb_Enabled :: bool
  sb_Priority :: u16
  sb_BridgeID :: string
  sb_RootID :: string
  sb_IsRoot :: bool
  sb_RootPathCost :: u32
  sb_RootPort :: string
  sb_Ports :: "STPPortStatus list"

definition BridgeSummary :: "STPState \<Rightarrow> STPBridgeState" where
  "BridgeSummary stp =
     \<lparr>sb_Enabled = st_enabled stp, sb_Priority = st_priority stp,
      sb_BridgeID = BridgeID_String (st_bridgeID stp), sb_RootID = BridgeID_String (st_rootID stp),
      sb_IsRoot = IsRootBridge stp, sb_RootPathCost = st_rootPathCost stp,
      sb_RootPort = st_rootPortName stp, sb_Ports = PortStatusSnapshot stp\<rparr>"

section \<open>Node views\<close>

record InterfaceState =
  is_Name :: string
  is_IP :: string
  is_Mask :: byte
  is_Mode :: string
  is_AccessVLAN :: u16
  is_NativeVLAN :: u16
  is_AllowedVLANs :: "u16 list"
  is_Up :: bool

record VLANInterfaceState = vs_VLAN :: u16 vs_IP :: string vs_Mask :: byte

record RouteState =
  rs_Destination :: string
  rs_Mask :: byte
  rs_Gateway :: string
  rs_Interface :: string
  rs_Source :: string
  rs_AdminDistance :: byte
  rs_Metric :: u32
  rs_Direct :: bool

record ARPState = as_IP :: string as_MAC :: string as_Interface :: string as_Pending :: bool
record MACState = ms_MAC :: string ms_VLAN :: u16 ms_Interface :: string
record LLDPNeighborState = ls_SystemName :: string ls_Port :: string ls_LocalInterface :: string

record NodeState =
  ns_Name :: string
  ns_Type :: "DeviceType option"
  ns_Position :: "PositionConfig option"
  ns_Loopback :: string
  ns_LLDPEnabled :: bool
  ns_STP :: STPBridgeState
  ns_Interfaces :: "InterfaceState list"
  ns_VLANInterfaces :: "VLANInterfaceState list"
  ns_Routes :: "RouteState list"
  ns_ARP :: "ARPState list"
  ns_MAC :: "MACState list"
  ns_LLDP :: "LLDPNeighborState list"

definition interface_state :: "Link list \<Rightarrow> Interface \<Rightarrow> InterfaceState" where
  "interface_state lks intf =
     (let p = intf_nw_props intf;
          st = \<lparr>is_Name = get_interface_name intf, is_IP = [], is_Mask = 0, is_Mode = [], is_AccessVLAN = 0,
                is_NativeVLAN = 0, is_AllowedVLANs = [], is_Up = IsUp lks (link intf)\<rparr>
      in case mode p of
           INTF_MODE_L3 \<Rightarrow>
             (let st1 = st\<lparr>is_Mode := ''l3''\<rparr>
              in if is_ip_addr_config p then st1\<lparr>is_IP := ip_string (ip_addr p), is_Mask := ip_mask p\<rparr> else st1)
         | INTF_MODE_TRUNK \<Rightarrow>
             st\<lparr>is_Mode := ''trunk'', is_NativeVLAN := native_vlan p,
                is_AllowedVLANs := take (allowed_vlan_count p) (allowed_vlans p)\<rparr>
         | INTF_MODE_ACCESS \<Rightarrow> st\<lparr>is_Mode := ''access'', is_AccessVLAN := access_vlan p\<rparr>)"

definition vlan_states :: "VlanInterface list \<Rightarrow> VLANInterfaceState list" where
  "vlan_states vs =
     sort_key vs_VLAN (map (\<lambda>v. \<lparr>vs_VLAN = vi_vlan_id v, vs_IP = ip_string (vi_ip_addr v), vs_Mask = vi_mask v\<rparr>) vs)"

definition route_state :: "L3Route \<Rightarrow> RouteState" where
  "route_state r =
     \<lparr>rs_Destination = r_Dest r, rs_Mask = r_Mask r, rs_Gateway = r_GatewayIP r, rs_Interface = r_OIF r,
      rs_Source = RouteSourceToString (r_Source r), rs_AdminDistance = r_AdminDistance r,
      rs_Metric = r_Metric r, rs_Direct = r_IsDirect r\<rparr>"

definition arp_state :: "arp_cb arp_entry \<Rightarrow> ARPState" where
  "arp_state e =
     \<lparr>as_IP = ip_string (ae_ip_addr e), as_MAC = mac_string (ae_mac_addr e),
      as_Interface = byteArrayString (ae_oif_name e), as_Pending = ae_is_sane e\<rparr>"

definition mac_state :: "mac_table_entry \<Rightarrow> MACState" where
  "mac_state e =
     \<lparr>ms_MAC = mac_string (me_mac_addr e), ms_VLAN = me_vlan_id e,
      ms_Interface = byteArrayString (me_oif_name e)\<rparr>"

definition snapshotNode :: "Graph \<Rightarrow> Node \<Rightarrow> NodeState" where
  "snapshotNode g node =
     \<lparr>ns_Name = nd_name node, ns_Type = nd_device_type node,
      ns_Position = map_of (rd_Positions (gr_render g)) (nd_name node),
      ns_Loopback = (if nd_is_loopback_config node then ip_string (nd_loopback_addr node) else []),
      ns_LLDPEnabled = lldp_enabled (nd_lldp node), ns_STP = BridgeSummary (nd_stp node),
      ns_Interfaces = List.map_filter (map_option (interface_state (gr_links g))) (nd_intf node),
      ns_VLANInterfaces = vlan_states (nd_vlan_interfaces node),
      ns_Routes = map route_state (RoutesSnapshot (nd_rt node)),
      ns_ARP = map arp_state (nd_arp node), ns_MAC = map mac_state (nd_mac node),
      ns_LLDP = map (\<lambda>nb. \<lparr>ls_SystemName = nb_SystemName nb, ls_Port = nb_PortID nb,
                           ls_LocalInterface = nb_LocalInterface nb\<rparr>) (lldp_neighbors (nd_lldp node))\<rparr>"

record LinkState =
  lk_From :: string
  lk_FromInterface :: string
  lk_To :: string
  lk_ToInterface :: string
  lk_Cost :: u32
  lk_Up :: bool

record TopologyState =
  ts_Name :: string
  ts_Description :: string
  ts_Summary :: string
  ts_DefaultSource :: string
  ts_DefaultDestination :: string
  ts_Canvas :: "CanvasConfig option"
  ts_Transport :: string
  ts_Nodes :: "NodeState list"
  ts_Links :: "LinkState list"

definition intf_name_at :: "Graph \<Rightarrow> intf_id \<Rightarrow> string" where
  "intf_name_at g x = (case intf_in (gr_nodes g) x of None \<Rightarrow> ''Unknown'' | Some intf \<Rightarrow> get_interface_name intf)"

definition link_state :: "Graph \<Rightarrow> nat \<Rightarrow> LinkState" where
  "link_state g k =
     (let l = gr_links g ! k in
      \<lparr>lk_From = node_name_of g (fst (intf1 l)), lk_FromInterface = intf_name_at g (intf1 l),
       lk_To = node_name_of g (fst (intf2 l)), lk_ToInterface = intf_name_at g (intf2 l),
       lk_Cost = cost l, lk_Up = up l\<rparr>)"

definition snapshotTopology :: "Graph \<Rightarrow> TopologyState" where
  "snapshotTopology g =
     \<lparr>ts_Name = gr_name g, ts_Description = rd_Description (gr_render g), ts_Summary = rd_Summary (gr_render g),
      ts_DefaultSource = rd_DefaultSource (gr_render g), ts_DefaultDestination = rd_DefaultDestination (gr_render g),
      ts_Canvas = rd_Canvas (gr_render g), ts_Transport = Transport_Name (gr_transport g),
      ts_Nodes = map (snapshotNode g) (gr_nodes g),
      ts_Links = map (link_state g) (List.map_filter (first_end_of g) (intf_ids g))\<rparr>"

text \<open>
  Go iterates over the map of VLAN interfaces in an arbitrary order; the snapshot does not depend
  on it.
\<close>

lemma vlan_states_order:
  assumes "mset vs = mset vs'" "distinct (map vi_vlan_id vs)"
  shows "vlan_states vs = vlan_states vs'"
proof -
  let ?f = "\<lambda>v. \<lparr>vs_VLAN = vi_vlan_id v, vs_IP = ip_string (vi_ip_addr v), vs_Mask = vi_mask v\<rparr>"
  have "mset (map ?f vs') = mset (map ?f vs)" using assms(1) by simp
  moreover have "inj_on vs_VLAN (set (map ?f vs))"
    using assms(2) by (auto simp: inj_on_def distinct_map)
  ultimately show ?thesis
    unfolding vlan_states_def by (intro sort_key_inj_key_eq) simp_all
qed

section \<open>Packet fields of frame events\<close>

definition icmp_event_fields :: "bytes \<Rightarrow> nat \<Rightarrow> (string \<times> string) list" where
  "icmp_event_fields frame off =
     (let icmpType = frame ! off; icmpCode = frame ! (off + 1);
          base = [(''icmpType'', icmpMessageName icmpType icmpCode)]
      in if icmpType \<noteq> ICMP_TYPE_ECHO_REQUEST \<and> icmpType \<noteq> ICMP_TYPE_ECHO_REPLY then base
         else (let identifier = dec (unat (u16_at frame (off + 4))); sequence = dec (unat (u16_at frame (off + 6)))
               in base @ [(''icmpIdentifier'', identifier), (''icmpSequence'', sequence),
                          (''flowId'', ''icmp-'' @ identifier @ ''-'' @ sequence)]))"

definition ip_event_fields :: "bytes \<Rightarrow> nat \<Rightarrow> (string \<times> string) list" where
  "ip_event_fields frame payloadOffset =
     (if length frame < payloadOffset + 20 then []
      else case DeserializeIPHeader (drop payloadOffset frame) of
        Inl _ \<Rightarrow> []
      | Inr ipHeader \<Rightarrow>
          [(''sourceIp'', IPUint32ToString (ih_SrcIP ipHeader)),
           (''destinationIp'', IPUint32ToString (ih_DstIP ipHeader)), (''ttl'', dec (unat (ih_TTL ipHeader)))]
          @ (let icmpOffset = payloadOffset + GetIPHeaderLen ipHeader in
             if ih_Protocol ipHeader \<noteq> PROTO_ICMP \<or> length frame < icmpOffset + 8 then []
             else icmp_event_fields frame icmpOffset))"

definition frameEventFields :: "bytes \<Rightarrow> (string \<times> string) list \<Rightarrow> (string \<times> string) list" where
  "frameEventFields frame extra =
     (if length frame < ETHERNET_HDR_SIZE then extra
      else
        (let etherType = u16_at frame 12;
             tagged = (etherType = ETHERTYPE_VLAN \<and> length frame \<ge> VLAN_HEADER_SIZE)
         in extra
            @ [(''sourceMac'', mac_string (mac_at frame 6)), (''destinationMac'', mac_string (mac_at frame 0))]
            @ (if tagged then [(''vlan'', dec (unat (u16_at frame 14 AND 0x0fff)))] else [])
            @ (if (if tagged then u16_at frame 16 else etherType) \<noteq> ETHERTYPE_IP then []
               else ip_event_fields frame (if tagged then VLAN_HEADER_SIZE else ETHERNET_HDR_SIZE))))"

end
