(* ===== verification/Simulator.thy ===== *)
theory Simulator
  imports ParserProofs Snapshot
begin

text \<open>
  The operations a user interface calls: \<open>Simulator\<close> of \<open>src/src/simulation.go\<close>.  The YAML decoder is
  the parameter \<open>parse\<close> (None: the text does not decode), the transport is the in-memory one, and
  the mutexes are implicit because each operation is atomic.  A result is an option (None: the
  network does not come to rest) of the new simulator and an error or a value.
\<close>

definition DefaultTracerouteMaxHops :: int where "DefaultTracerouteMaxHops = 30"

record PingResult =
  pr_Source :: string
  pr_Destination :: string
  pr_DestinationIP :: string
  pr_ReplyReceived :: bool
  pr_Errors :: "ICMPErrorReport list"

record TracerouteHop =
  th_TTL :: nat
  th_Address :: string
  th_Reached :: bool
  th_TimedOut :: bool
  th_Reason :: string

record TracerouteResult =
  tr_Source :: string
  tr_Destination :: string
  tr_DestinationIP :: string
  tr_Reached :: bool
  tr_Hops :: "TracerouteHop list"

record Simulator =
  sm_graph :: "Graph option"
  sm_topologyYAML :: bytes
  sm_capture :: capture
  sm_mac_counter :: "64 word"
  sm_now :: int

definition NewSimulator :: "bool \<Rightarrow> int \<Rightarrow> Simulator" where
  "NewSimulator eventSink now =
     \<lparr>sm_graph = None, sm_topologyYAML = [],
      sm_capture = \<lparr>cp_protocols = [], cp_events = [], cp_sink = eventSink, cp_out = []\<rparr>,
      sm_mac_counter = 0, sm_now = now\<rparr>"

type_synonym 'a sim_result = "(Simulator \<times> (string + 'a)) option"
type_synonym 'a graph_result = "(Graph \<times> (string + 'a)) option"

text \<open>An operation on the loaded topology.\<close>

definition with_graph :: "Simulator \<Rightarrow> (Graph \<Rightarrow> 'a graph_result) \<Rightarrow> 'a sim_result" where
  "with_graph simulator f =
     (case sm_graph simulator of
        None \<Rightarrow> Some (simulator, Inl ''no topology is loaded'')
      | Some g \<Rightarrow>
          (case f g of None \<Rightarrow> None | Some (g', r) \<Rightarrow> Some (simulator\<lparr>sm_graph := Some g'\<rparr>, r)))"

definition yields :: "Graph option \<Rightarrow> (Graph \<Rightarrow> 'a) \<Rightarrow> 'a graph_result" where
  "yields r f = (case r of None \<Rightarrow> None | Some g \<Rightarrow> Some (g, Inr (f g)))"

section \<open>Loading\<close>

definition capture_of :: "Simulator \<Rightarrow> capture" where
  "capture_of simulator = (case sm_graph simulator of None \<Rightarrow> sm_capture simulator | Some g \<Rightarrow> gr_capture g)"

definition counter_of :: "Simulator \<Rightarrow> 64 word" where
  "counter_of simulator = (case sm_graph simulator of None \<Rightarrow> sm_mac_counter simulator | Some g \<Rightarrow> gr_mac_counter g)"

definition now_of :: "Simulator \<Rightarrow> int" where
  "now_of simulator = (case sm_graph simulator of None \<Rightarrow> sm_now simulator | Some g \<Rightarrow> gr_now g)"

text \<open>What is left of the previous topology: its sink is the same simulator, so the capture goes on.\<close>

definition retire_graph :: "Simulator \<Rightarrow> capture option" where
  "retire_graph simulator =
     (case sm_graph simulator of
        None \<Rightarrow> Some (sm_capture simulator)
      | Some g \<Rightarrow> map_option gr_capture (cleanup_graph_resources g))"

text \<open>A topology that does not load has used up MAC addresses all the same.\<close>

definition use_counter :: "64 word \<Rightarrow> Simulator \<Rightarrow> Simulator" where
  "use_counter c simulator =
     simulator\<lparr>sm_mac_counter := c,
               sm_graph := map_option (\<lambda>g. g\<lparr>gr_mac_counter := c\<rparr>) (sm_graph simulator)\<rparr>"

definition loadTopologyLocked ::
  "(bytes \<Rightarrow> TopologyConfig option) \<Rightarrow> bytes \<Rightarrow> Simulator \<Rightarrow> TopologyState sim_result" where
  "loadTopologyLocked parse yamlData simulator =
     (case parse yamlData of
        None \<Rightarrow> Some (simulator, Inl ''failed to parse YAML topology'')
      | Some config \<Rightarrow>
          (case load_topology config (counter_of simulator) (now_of simulator) of
             None \<Rightarrow> None
           | Some (Inl (e, g)) \<Rightarrow> Some (use_counter (gr_mac_counter g) simulator, Inl e)
           | Some (Inr g) \<Rightarrow>
               (case graph_Start (SetEventSink True g) of
                  Inl e \<Rightarrow>
                    (case cleanup_graph_resources (SetEventSink True g) of
                       None \<Rightarrow> None
                     | Some g' \<Rightarrow> Some (use_counter (gr_mac_counter g') simulator, Inl e))
                | Inr g1 \<Rightarrow>
                    (case retire_graph simulator of
                       None \<Rightarrow> None
                     | Some cap \<Rightarrow>
                         (let g2 = g1\<lparr>gr_capture := cap\<rparr>
                          in Some (simulator\<lparr>sm_graph := Some g2, sm_topologyYAML := yamlData\<rparr>,
                                   Inr (snapshotTopology g2)))))))"

definition Reset ::
  "(bytes \<Rightarrow> TopologyConfig option) \<Rightarrow> Simulator \<Rightarrow> TopologyState option sim_result" where
  "Reset parse simulator =
     (if sm_topologyYAML simulator = [] then
        (case retire_graph simulator of
           None \<Rightarrow> None
         | Some cap \<Rightarrow>
             Some (simulator\<lparr>sm_graph := None, sm_capture := cap, sm_mac_counter := counter_of simulator,
                             sm_now := now_of simulator\<rparr>, Inr None))
      else map_option (map_prod id (map_sum id Some)) (loadTopologyLocked parse (sm_topologyYAML simulator) simulator))"

section \<open>Ping\<close>

text \<open>
  \<open>resolveDestination\<close>: an address, or the first address of a named node.  Go takes an arbitrary VLAN
  interface; the model takes the first of its list.
\<close>

definition node_address :: "Node \<Rightarrow> string option" where
  "node_address node =
     (case List.find (\<lambda>x. case x of None \<Rightarrow> False | Some intf \<Rightarrow> IsIPConfigured intf) (nd_intf node) of
        Some (Some intf) \<Rightarrow> Some (ip_string (GetIP intf))
      | _ \<Rightarrow>
          (case nd_vlan_interfaces node of
             v # _ \<Rightarrow> Some (ip_string (vi_ip_addr v))
           | [] \<Rightarrow> if nd_is_loopback_config node then Some (ip_string (nd_loopback_addr node)) else None))"

definition resolveDestination :: "Graph \<Rightarrow> string \<Rightarrow> string + string" where
  "resolveDestination g destination =
     (if parseIPv4 destination \<noteq> None then Inr destination
      else case findGraphNode g destination of
        None \<Rightarrow> Inl ''destination node was not found''
      | Some n \<Rightarrow>
          (case node_address (gr_nodes g ! n) of
             None \<Rightarrow> Inl ''destination node has no IP address'' | Some ip \<Rightarrow> Inr ip))"

definition icmp_event :: "string \<Rightarrow> string \<Rightarrow> string \<Rightarrow> string \<Rightarrow> (string \<times> string) list \<Rightarrow> SimulationEvent" where
  "icmp_event node_name from to action fs =
     \<lparr>ev_Sequence = 0, ev_Protocol = ''ICMP'', ev_Node = node_name, ev_From = from, ev_To = to,
      ev_Action = action, ev_Fields = fs\<rparr>"

definition take_errors :: "nat \<Rightarrow> Graph \<Rightarrow> Graph \<times> ICMPErrorReport list" where
  "take_errors n g =
     (let (node, reports) = takeICMPErrors (gr_nodes g ! n) in (set_node n node g, reports))"

definition ping_fields :: "string \<Rightarrow> bool \<Rightarrow> ICMPErrorReport list \<Rightarrow> (string \<times> string) list" where
  "ping_fields ip received reports =
     (''destinationIp'', ip) #
     (if \<not> received \<and> reports \<noteq> []
      then [(''reason'', ie_Reason (last reports)), (''reportedBy'', ie_ReporterIP (last reports))] else [])"

definition ping_from :: "nat \<Rightarrow> string \<Rightarrow> string \<Rightarrow> string \<Rightarrow> Graph \<Rightarrow> PingResult graph_result" where
  "ping_from n source destination ip g =
     (let before_count = nd_ping_reply_count (gr_nodes g ! n);
          g1 = fst (take_errors n g);
          g2 = emitEvent (icmp_event source source destination ''ping_started'' [(''destinationIp'', ip)]) g1
      in case run_on n (\<lambda>env. Layer5PingFunc env ip) g2 of
           None \<Rightarrow> None
         | Some g3 \<Rightarrow>
             (let received = (nd_ping_reply_count (gr_nodes g3 ! n) > before_count);
                  (g4, reports) = take_errors n g3;
                  action = (if received then ''ping_reply_received'' else ''ping_no_reply'');
                  g5 = emitEvent (icmp_event source destination source action (ping_fields ip received reports)) g4
              in Some (g5, Inr \<lparr>pr_Source = source, pr_Destination = destination, pr_DestinationIP = ip,
                                pr_ReplyReceived = received, pr_Errors = reports\<rparr>)))"

definition pingLocked :: "string \<Rightarrow> string \<Rightarrow> Graph \<Rightarrow> PingResult graph_result" where
  "pingLocked source destination g =
     (case findGraphNode g source of
        None \<Rightarrow> Some (g, Inl ''source node was not found'')
      | Some n \<Rightarrow>
          (case resolveDestination g destination of
             Inl e \<Rightarrow> Some (g, Inl e) | Inr ip \<Rightarrow> ping_from n source destination ip g))"

definition Ping :: "string \<Rightarrow> string \<Rightarrow> Simulator \<Rightarrow> PingResult sim_result" where
  "Ping source destination simulator = with_graph simulator (pingLocked source destination)"

text \<open>The operation with a capture of its events around it.\<close>

definition captured :: "string list \<Rightarrow> (Graph \<Rightarrow> 'a graph_result) \<Rightarrow> Graph \<Rightarrow> ('a \<times> SimulationEvent list) graph_result" where
  "captured protocols f g =
     (case f (g\<lparr>gr_capture := beginCapture protocols (gr_capture g)\<rparr>) of
        None \<Rightarrow> None
      | Some (g1, r) \<Rightarrow>
          (let (cap, events) = endCapture (gr_capture g1)
           in Some (g1\<lparr>gr_capture := cap\<rparr>, map_sum id (\<lambda>x. (x, events)) r)))"

definition TracePing :: "string \<Rightarrow> string \<Rightarrow> Simulator \<Rightarrow> (PingResult \<times> SimulationEvent list) sim_result" where
  "TracePing source destination simulator =
     with_graph simulator (captured [''ARP'', ''ICMP'', ''ETHERNET''] (pingLocked source destination))"

section \<open>Traceroute\<close>

definition hop_of :: "nat \<Rightarrow> string \<Rightarrow> bool \<Rightarrow> ICMPErrorReport list \<Rightarrow> TracerouteHop" where
  "hop_of ttl ip reached reports =
     (if reached then \<lparr>th_TTL = ttl, th_Address = ip, th_Reached = True, th_TimedOut = False, th_Reason = ''echo_reply''\<rparr>
      else if reports \<noteq> [] then
        \<lparr>th_TTL = ttl, th_Address = ie_ReporterIP (last reports), th_Reached = False, th_TimedOut = False,
         th_Reason = ie_Reason (last reports)\<rparr>
      else \<lparr>th_TTL = ttl, th_Address = [], th_Reached = False, th_TimedOut = True, th_Reason = ''timeout''\<rparr>)"

definition hop_event :: "string \<Rightarrow> string \<Rightarrow> TracerouteHop \<Rightarrow> SimulationEvent" where
  "hop_event source ip hop =
     icmp_event source [] []
       (if th_Reached hop then ''traceroute_destination_reached''
        else if th_TimedOut hop then ''traceroute_probe_timed_out'' else ''traceroute_hop_discovered'')
       ([(''destinationIp'', ip), (''ttl'', dec (th_TTL hop))]
        @ (if th_TimedOut hop then [] else [(''address'', th_Address hop)]) @ [(''reason'', th_Reason hop)])"

definition probe_once :: "nat \<Rightarrow> string \<Rightarrow> string \<Rightarrow> string \<Rightarrow> nat \<Rightarrow> Graph \<Rightarrow> (Graph \<times> TracerouteHop) option" where
  "probe_once n source destination ip ttl g =
     (let before_count = nd_ping_reply_count (gr_nodes g ! n);
          g1 = fst (take_errors n g);
          g2 = emitEvent (icmp_event source source destination ''traceroute_probe_started''
                 [(''destinationIp'', ip), (''ttl'', dec ttl)]) g1
      in case run_on n (\<lambda>env. Layer5TracerouteProbeFunc env ip (word_of_nat ttl)) g2 of
           None \<Rightarrow> None
         | Some g3 \<Rightarrow>
             (let reached = (nd_ping_reply_count (gr_nodes g3 ! n) > before_count);
                  (g4, reports) = take_errors n g3;
                  hop = hop_of ttl ip reached reports
              in Some (emitEvent (hop_event source ip hop) g4, hop)))"

text \<open>The probe loop: \<open>k\<close> probes are left, the next one has TTL \<open>ttl\<close>.\<close>

fun traceroute_loop ::
  "nat \<Rightarrow> string \<Rightarrow> string \<Rightarrow> string \<Rightarrow> nat \<Rightarrow> nat \<Rightarrow> Graph \<Rightarrow> (Graph \<times> TracerouteHop list) option" where
  "traceroute_loop n source destination ip 0 ttl g = Some (g, [])"
| "traceroute_loop n source destination ip (Suc k) ttl g =
     (case probe_once n source destination ip ttl g of
        None \<Rightarrow> None
      | Some (g1, hop) \<Rightarrow>
          if th_Reached hop then Some (g1, [hop])
          else (case traceroute_loop n source destination ip k (ttl + 1) g1 of
                  None \<Rightarrow> None | Some (g2, hops) \<Rightarrow> Some (g2, hop # hops)))"

definition traceroute_from ::
  "nat \<Rightarrow> string \<Rightarrow> string \<Rightarrow> string \<Rightarrow> nat \<Rightarrow> Graph \<Rightarrow> TracerouteResult graph_result" where
  "traceroute_from n source destination ip maxHops g =
     (let g1 = emitEvent (icmp_event source source destination ''traceroute_started''
                 [(''destinationIp'', ip), (''maxHops'', dec maxHops)]) g;
          g2 = fst (take_errors n g1)
      in case traceroute_loop n source destination ip maxHops 1 g2 of
           None \<Rightarrow> None
         | Some (g3, hops) \<Rightarrow>
             (let reached = list_ex th_Reached hops;
                  g4 = emitEvent (icmp_event source [] [] ''traceroute_completed''
                         [(''destinationIp'', ip), (''hops'', dec (length hops)),
                          (''reached'', if reached then ''true'' else ''false'')]) g3
              in Some (g4, Inr \<lparr>tr_Source = source, tr_Destination = destination, tr_DestinationIP = ip,
                                tr_Reached = reached, tr_Hops = hops\<rparr>)))"

definition tracerouteLocked :: "string \<Rightarrow> string \<Rightarrow> int \<Rightarrow> Graph \<Rightarrow> TracerouteResult graph_result" where
  "tracerouteLocked source destination maxHops g =
     (if maxHops < 1 \<or> maxHops > 255 then Some (g, Inl ''maximum hops must be between 1 and 255'')
      else case findGraphNode g source of
        None \<Rightarrow> Some (g, Inl ''source node was not found'')
      | Some n \<Rightarrow>
          (case resolveDestination g destination of
             Inl e \<Rightarrow> Some (g, Inl e)
           | Inr ip \<Rightarrow> traceroute_from n source destination ip (nat maxHops) g))"

definition Traceroute :: "string \<Rightarrow> string \<Rightarrow> int \<Rightarrow> Simulator \<Rightarrow> TracerouteResult sim_result" where
  "Traceroute source destination maxHops simulator =
     with_graph simulator (tracerouteLocked source destination maxHops)"

definition TraceTraceroute ::
  "string \<Rightarrow> string \<Rightarrow> int \<Rightarrow> Simulator \<Rightarrow> (TracerouteResult \<times> SimulationEvent list) sim_result" where
  "TraceTraceroute source destination maxHops simulator =
     with_graph simulator
       (captured [''ARP'', ''ICMP'', ''ETHERNET''] (tracerouteLocked source destination maxHops))"

section \<open>LLDP round\<close>

definition lldp_nodes :: "Graph \<Rightarrow> nat list" where
  "lldp_nodes g = filter (\<lambda>n. lldp_enabled (nd_lldp (gr_nodes g ! n))) [0..<length (gr_nodes g)]"

definition lldp_round :: "Graph \<Rightarrow> string list graph_result" where
  "lldp_round g =
     (let advertisers = map (node_name_of g) (lldp_nodes g) in
      case for_each (\<lambda>n. run_on n (\<lambda>env node. (node, SendAdvertisements env node)))
             [0..<length (gr_nodes g)] g of
        None \<Rightarrow> None | Some g1 \<Rightarrow> Some (g1\<lparr>gr_trace := False\<rparr>, Inr advertisers))"

definition TraceLLDP :: "Simulator \<Rightarrow> (string list \<times> SimulationEvent list) sim_result" where
  "TraceLLDP simulator =
     with_graph simulator
       (\<lambda>g. if lldp_nodes g = [] then Some (g, Inl ''LLDP is not enabled on any device'')
            else captured [''LLDP''] lldp_round (g\<lparr>gr_trace := True\<rparr>))"

section \<open>Changes\<close>

definition on_named_node :: "string \<Rightarrow> (nat \<Rightarrow> Graph \<Rightarrow> Graph option) \<Rightarrow> Graph \<Rightarrow> NodeState graph_result" where
  "on_named_node name f g =
     (case findGraphNode g name of
        None \<Rightarrow> Some (g, Inl ''node was not found'')
      | Some n \<Rightarrow> yields (f n g) (\<lambda>g. snapshotNode g (gr_nodes g ! n)))"

definition GetNodeState :: "string \<Rightarrow> Simulator \<Rightarrow> NodeState sim_result" where
  "GetNodeState name simulator = with_graph simulator (on_named_node name (\<lambda>_. Some))"

definition SetLLDP :: "string \<Rightarrow> bool \<Rightarrow> Simulator \<Rightarrow> NodeState sim_result" where
  "SetLLDP name enabled simulator =
     with_graph simulator (on_named_node name (\<lambda>n. run_on n (if enabled then StartLLDP else StopLLDP)))"

definition SetSTP :: "string \<Rightarrow> bool \<Rightarrow> Simulator \<Rightarrow> NodeState sim_result" where
  "SetSTP name enabled simulator =
     with_graph simulator
       (on_named_node name
          (\<lambda>n g. and_then (if enabled then graph_start_stp n g else run_on n (\<lambda>_. node_stop_stp) g)
                   ConvergeSpanningTree))"

definition SetSTPPriority :: "string \<Rightarrow> u16 \<Rightarrow> Simulator \<Rightarrow> NodeState sim_result" where
  "SetSTPPriority name priority simulator =
     with_graph simulator
       (\<lambda>g. case findGraphNode g name of
          None \<Rightarrow> Some (g, Inl ''node was not found'')
        | Some n \<Rightarrow>
            (let (r, ok) = graph_set_priority n priority g in
             if \<not> ok then Some (g, Inl ''bridge priority must be a multiple of 4096'')
             else yields (and_then r ConvergeSpanningTree)
                    (\<lambda>g. snapshotNode g (gr_nodes g ! n))))"

definition SetLinkState :: "string \<Rightarrow> string \<Rightarrow> string \<Rightarrow> string \<Rightarrow> bool \<Rightarrow> Simulator \<Rightarrow> TopologyState sim_result" where
  "SetLinkState fromNode fromInterface toNode toInterface b simulator =
     with_graph simulator
       (\<lambda>g. case findGraphLink g fromNode fromInterface toNode toInterface of
          None \<Rightarrow> Some (g, Inl ''link was not found'')
        | Some k \<Rightarrow> yields (change_link k b g) snapshotTopology)"

end
