(* ===== verification/SimulatorProofs.thy ===== *)
theory SimulatorProofs
  imports Simulator
begin

text \<open>
  Every operation of the simulator leaves a network that satisfies its invariant with no frame in
  flight; the simulator is a \<open>machine\<close>.  Then the shape of a traceroute, and what a capture holds.
\<close>

definition resting :: "Graph \<Rightarrow> bool" where
  "resting g \<longleftrightarrow> graph_ok g \<and> gr_queue g = []"

definition sim_ok :: "Simulator \<Rightarrow> bool" where
  "sim_ok simulator \<longleftrightarrow> (case sm_graph simulator of None \<Rightarrow> True | Some g \<Rightarrow> resting g)"

text \<open>A decoder whose interface names hold no NUL byte.\<close>

definition clean_names :: "(bytes \<Rightarrow> TopologyConfig option) \<Rightarrow> bool" where
  "clean_names parse \<longleftrightarrow>
     (\<forall>yaml config. parse yaml = Some config \<longrightarrow>
        (\<forall>c\<in>set (tc_Nodes config). \<forall>i\<in>set (nc_Interfaces c). NUL \<notin> set (ic_Name i)))"

definition rests :: "'a graph_result \<Rightarrow> bool" where
  "rests r \<longleftrightarrow> (\<forall>g x. r = Some (g, x) \<longrightarrow> resting g)"

lemma rests_simps [simp]: "rests None" "rests (Some (g, x)) \<longleftrightarrow> resting g"
  by (simp_all add: rests_def)

lemma restingD: "resting g \<Longrightarrow> graph_ok g" "resting g \<Longrightarrow> gr_queue g = []"
  by (simp_all add: resting_def)

lemma resting_op:
  assumes "resting g" "good g r" "ends r" "r = Some g'" shows "resting g'"
  using assms by (simp add: resting_def good_def)

lemma resting_emitEvent [simp]: "resting g \<Longrightarrow> resting (emitEvent e g)"
  using ok_emitEvent [of g e] by (simp add: resting_def)

lemma resting_fields [simp]:
  "resting (g\<lparr>gr_capture := c\<rparr>) \<longleftrightarrow> resting g" "resting (g\<lparr>gr_trace := b\<rparr>) \<longleftrightarrow> resting g"
  by (simp_all add: resting_def)

lemma findGraphNode_Some:
  assumes "findGraphNode g name = Some n" shows "n < length (gr_nodes g) \<and> nd_name (gr_nodes g ! n) = name"
  using assms by (auto simp: findGraphNode_def split: option.splits elim!: extract_SomeE)
    (auto simp: extract_Some_iff)

lemma take_errors_nodes: "n < length (gr_nodes g) \<Longrightarrow> length (gr_nodes (fst (take_errors n g))) = length (gr_nodes g)"
  by (simp add: take_errors_def set_node_def split: prod.split)

lemma resting_take_errors:
  assumes "resting g" "n < length (gr_nodes g)" shows "resting (fst (take_errors n g))"
proof -
  have "graph_ok (set_node n ((gr_nodes g ! n)\<lparr>nd_icmp_errors := []\<rparr>) g)"
    using assms graph_ok_node by (intro same_intfs_ok) (simp_all add: resting_def)
  then show ?thesis using assms(1) by (simp add: take_errors_def takeICMPErrors_def resting_def) (simp add: set_node_def)
qed

lemma run_on_resting:
  assumes "resting g" "n < length (gr_nodes g)" "\<And>env node. node_ok node \<Longrightarrow> ok_result env node (f env node)"
    "run_on n f g = Some g'"
  shows "resting g' \<and> length (gr_nodes g') = length (gr_nodes g)"
proof -
  have "good g (run_on n f g)" using assms by (intro good_run_on) (simp_all add: resting_def)
  with resting_op [OF assms(1) this quietD [OF quiet_run_on]] assms(1,4) show ?thesis
    by (simp add: resting_def good_def same_net_length)
qed

section \<open>Ping and traceroute\<close>

lemma ping_from_rests:
  assumes "resting g" "n < length (gr_nodes g)" shows "rests (ping_from n source dest ip g)"
proof -
  let ?g = "emitEvent (icmp_event source source dest ''ping_started'' [(''destinationIp'', ip)]) (fst (take_errors n g))"
  have g: "resting ?g" "n < length (gr_nodes ?g)"
    using resting_take_errors [OF assms] take_errors_nodes assms(2) by simp_all
  show ?thesis
  proof (cases "run_on n (\<lambda>env. Layer5PingFunc env ip) ?g")
    case (Some g3)
    from run_on_resting [OF g ok_pings(1) this] g(2) have "resting g3" "n < length (gr_nodes g3)" by simp_all
    from resting_take_errors [OF this] Some show ?thesis
      by (simp add: ping_from_def case_prod_beta Let_def)
  qed (simp add: ping_from_def Let_def)
qed

lemma pingLocked_rests: "resting g \<Longrightarrow> rests (pingLocked source dest g)"
  by (auto simp: pingLocked_def dest!: findGraphNode_Some intro: ping_from_rests split: option.split sum.split)

lemma captured_rests:
  assumes "resting g" "\<And>g. resting g \<Longrightarrow> rests (f g)" shows "rests (captured protocols f g)"
proof (cases "f (g\<lparr>gr_capture := beginCapture protocols (gr_capture g)\<rparr>)")
  case (Some r)
  with assms(2) [of "g\<lparr>gr_capture := beginCapture protocols (gr_capture g)\<rparr>"] assms(1)
  show ?thesis by (cases r) (simp add: captured_def case_prod_beta Let_def)
qed (simp add: captured_def)

lemma probe_once_rests:
  assumes "resting g" "n < length (gr_nodes g)" "probe_once n source dest ip ttl g = Some (g', hop)"
  shows "resting g' \<and> length (gr_nodes g') = length (gr_nodes g) \<and> th_TTL hop = ttl"
proof -
  let ?g = "emitEvent (icmp_event source source dest ''traceroute_probe_started''
                 [(''destinationIp'', ip), (''ttl'', dec ttl)]) (fst (take_errors n g))"
  have g: "resting ?g" "n < length (gr_nodes ?g)" "length (gr_nodes ?g) = length (gr_nodes g)"
    using resting_take_errors [OF assms(1,2)] take_errors_nodes assms(2) by simp_all
  obtain g3 where r: "run_on n (\<lambda>env. Layer5TracerouteProbeFunc env ip (word_of_nat ttl)) ?g = Some g3"
    using assms(3) by (auto simp: probe_once_def Let_def split: option.splits)
  from run_on_resting [OF g(1,2) ok_pings(2) r] g have g3: "resting g3" "length (gr_nodes g3) = length (gr_nodes g)"
    by simp_all
  with resting_take_errors [OF g3(1), of n] take_errors_nodes [of n g3] assms(2,3) r show ?thesis
    by (auto simp: probe_once_def Let_def hop_of_def case_prod_beta)
qed

lemma traceroute_loop_ok:
  "resting g \<Longrightarrow> n < length (gr_nodes g) \<Longrightarrow> traceroute_loop n source dest ip k ttl g = Some (g', hops) \<Longrightarrow>
     resting g' \<and> length hops \<le> k \<and> map th_TTL hops = [ttl..<ttl + length hops] \<and>
     (\<forall>hop\<in>set (butlast hops). \<not> th_Reached hop) \<and> (length hops < k \<longrightarrow> hops \<noteq> [] \<and> th_Reached (last hops))"
proof (induction k arbitrary: ttl g hops)
  case (Suc k)
  obtain g1 hop where p: "probe_once n source dest ip ttl g = Some (g1, hop)"
    using Suc.prems(3) by (auto split: option.splits)
  from probe_once_rests [OF Suc.prems(1,2) p] Suc.prems(2)
  have g1: "resting g1" "n < length (gr_nodes g1)" "th_TTL hop = ttl" by simp_all
  show ?case
  proof (cases "th_Reached hop")
    case True
    with Suc.prems(3) p g1 show ?thesis by auto
  next
    case False
    with Suc.prems(3) p obtain hops' where
      l: "traceroute_loop n source dest ip k (ttl + 1) g1 = Some (g', hops')" "hops = hop # hops'"
      by (auto split: option.splits)
    from Suc.IH [OF g1(1,2) l(1)] g1(3) False l(2) show ?thesis
      by (auto simp: upt_rec [of ttl] butlast.simps)
  qed
qed simp

lemma traceroute_from_rests:
  assumes "resting g" "n < length (gr_nodes g)" shows "rests (traceroute_from n source dest ip maxHops g)"
proof -
  let ?g = "fst (take_errors n (emitEvent (icmp_event source source dest ''traceroute_started''
                 [(''destinationIp'', ip), (''maxHops'', dec maxHops)]) g))"
  have g: "resting ?g" "n < length (gr_nodes ?g)"
    using resting_take_errors [of "emitEvent _ g" n] take_errors_nodes [of n "emitEvent _ g"] assms by simp_all
  show ?thesis
  proof (cases "traceroute_loop n source dest ip maxHops 1 ?g")
    case (Some r)
    then show ?thesis using traceroute_loop_ok [OF g] by (cases r) (simp add: traceroute_from_def Let_def)
  qed (simp add: traceroute_from_def Let_def)
qed

lemma tracerouteLocked_rests: "resting g \<Longrightarrow> rests (tracerouteLocked source dest maxHops g)"
  by (auto simp: tracerouteLocked_def dest!: findGraphNode_Some intro: traceroute_from_rests split: option.split sum.split)

text \<open>The shape of a finished traceroute.\<close>

lemma tracerouteLocked_hops:
  assumes "resting g" "tracerouteLocked source dest maxHops g = Some (g', Inr res)"
  shows "int (length (tr_Hops res)) \<le> maxHops \<and> map th_TTL (tr_Hops res) = [1..<Suc (length (tr_Hops res))] \<and>
    (tr_Reached res \<longleftrightarrow> tr_Hops res \<noteq> [] \<and> th_Reached (last (tr_Hops res))) \<and>
    (\<not> tr_Reached res \<longrightarrow> int (length (tr_Hops res)) = maxHops)"
proof -
  obtain n ip where n: "findGraphNode g source = Some n" and m: "1 \<le> maxHops"
    and t: "traceroute_from n source dest ip (nat maxHops) g = Some (g', Inr res)"
    using assms(2) by (auto simp: tracerouteLocked_def split: if_splits option.splits sum.splits)
  let ?g = "fst (take_errors n (emitEvent (icmp_event source source dest ''traceroute_started''
                 [(''destinationIp'', ip), (''maxHops'', dec (nat maxHops))]) g))"
  have len: "n < length (gr_nodes g)" using findGraphNode_Some [OF n] by simp
  have g: "resting ?g" "n < length (gr_nodes ?g)"
    using resting_take_errors [of "emitEvent _ g" n] take_errors_nodes [of n "emitEvent _ g"] assms(1) len by simp_all
  obtain g3 where l: "traceroute_loop n source dest ip (nat maxHops) 1 ?g = Some (g3, tr_Hops res)"
    and r: "tr_Reached res = list_ex th_Reached (tr_Hops res)"
    using t by (auto simp: traceroute_from_def Let_def split: option.splits)
  note ok = traceroute_loop_ok [OF g l]
  have "tr_Reached res \<longleftrightarrow> tr_Hops res \<noteq> [] \<and> th_Reached (last (tr_Hops res))"
  proof (cases "tr_Hops res" rule: rev_cases)
    case (snoc hs h)
    with ok r show ?thesis by (auto simp: list_ex_iff)
  qed (simp add: r)
  with ok m show ?thesis by auto
qed

section \<open>Changes\<close>

lemma yields_rests:
  assumes "resting g" "good g r" "ends r" shows "rests (yields r f)"
  using resting_op [OF assms] by (cases r) (simp_all add: yields_def)

lemma on_named_node_rests:
  assumes "resting g" "\<And>n. n < length (gr_nodes g) \<Longrightarrow> good g (f n g) \<and> ends (f n g)"
  shows "rests (on_named_node name f g)"
  using assms by (auto simp: on_named_node_def dest!: findGraphNode_Some intro: yields_rests split: option.split)

lemma settle_after:
  assumes "good g r" "ends r" shows "good g (and_then r ConvergeSpanningTree) \<and> ends (and_then r ConvergeSpanningTree)"
  using assms by (auto intro: good_and_then good_ConvergeSpanningTree ends_and_then quiet_ConvergeSpanningTree)

lemma lldp_round_rests:
  assumes "resting g" shows "rests (lldp_round g)"
proof -
  let ?f = "\<lambda>n. run_on n (\<lambda>env node. (node, SendAdvertisements env node))"
  have r: "good g (for_each ?f [0..<length (gr_nodes g)] g)" "ends (for_each ?f [0..<length (gr_nodes g)] g)"
    using assms by (auto simp: same_net_length restingD intro!: good_for_each good_run_on ok_lldp_ops quietD [OF quiet_for_each] quiet_run_on)
  show ?thesis
    using resting_op [OF assms r]
    by (cases "for_each ?f [0..<length (gr_nodes g)] g") (simp_all add: lldp_round_def Let_def)
qed

lemma with_graph_ok:
  assumes "sim_ok s" "\<And>g. resting g \<Longrightarrow> rests (f g)" "with_graph s f = Some (s', r)" shows "sim_ok s'"
proof (cases "sm_graph s")
  case (Some g)
  with assms(1) have "resting g" by (simp add: sim_ok_def)
  from assms(2) [OF this] assms(3) Some show ?thesis
    by (cases "f g") (auto simp: with_graph_def sim_ok_def)
qed (use assms in \<open>auto simp: with_graph_def\<close>)

lemma use_counter_ok: "sim_ok s \<Longrightarrow> sim_ok (use_counter c s)"
  by (cases "sm_graph s") (simp_all add: use_counter_def sim_ok_def resting_def)

lemma load_ok:
  assumes "sim_ok s" "clean_names parse" "loadTopologyLocked parse yaml s = Some (s', r)"
  shows "sim_ok s'"
proof (cases "parse yaml")
  case (Some config)
  show ?thesis
  proof (cases "load_topology config (counter_of s) (now_of s)")
    case l: (Some x)
    show ?thesis
    proof (cases x)
      case (Inl e)
      with assms Some l show ?thesis by (cases e) (auto simp: loadTopologyLocked_def use_counter_ok)
    next
      case (Inr g)
      with l have "load_topology config (counter_of s) (now_of s) = Some (Inr g)" by simp
      from load_topology_ok [OF this] assms(2) Some have g: "graph_ok g" "gr_queue g = []"
        by (auto simp: clean_names_def)
      have "resting g'" if "graph_Start (SetEventSink True g) = Inr g'" for g'
        using that g by (auto simp: graph_Start_def SetEventSink_def resting_def graph_ok_def queue_ok_def bus_idle_def
            SetSink_def split: if_splits)
      with assms(1,3) Some l Inr show ?thesis
        by (auto simp: loadTopologyLocked_def Let_def use_counter_ok split: sum.splits option.splits)
           (simp_all add: sim_ok_def resting_def graph_ok_def queue_ok_def)
    qed
  qed (use assms(3) Some in \<open>simp add: loadTopologyLocked_def\<close>)
qed (use assms in \<open>simp add: loadTopologyLocked_def\<close>)

datatype request =
    Load bytes
  | Restart
  | PingRequest string string
  | TracePingRequest string string
  | TracerouteRequest string string int
  | TraceTracerouteRequest string string int
  | LldpRound
  | Inspect string
  | SwitchLldp string bool
  | SwitchStp string bool
  | ChangePriority string u16
  | ChangeLink string string string string bool

definition after :: "'a sim_result \<Rightarrow> Simulator option" where
  "after r = map_option fst r"

definition serve :: "(bytes \<Rightarrow> TopologyConfig option) \<Rightarrow> request \<Rightarrow> Simulator \<Rightarrow> Simulator option" where
  "serve parse q s =
     (case q of
        Load yaml \<Rightarrow> after (loadTopologyLocked parse yaml s)
      | Restart \<Rightarrow> after (Reset parse s)
      | PingRequest a b \<Rightarrow> after (Ping a b s)
      | TracePingRequest a b \<Rightarrow> after (TracePing a b s)
      | TracerouteRequest a b k \<Rightarrow> after (Traceroute a b k s)
      | TraceTracerouteRequest a b k \<Rightarrow> after (TraceTraceroute a b k s)
      | LldpRound \<Rightarrow> after (TraceLLDP s)
      | Inspect a \<Rightarrow> after (GetNodeState a s)
      | SwitchLldp a b \<Rightarrow> after (SetLLDP a b s)
      | SwitchStp a b \<Rightarrow> after (SetSTP a b s)
      | ChangePriority a p \<Rightarrow> after (SetSTPPriority a p s)
      | ChangeLink a b c d u \<Rightarrow> after (SetLinkState a b c d u s))"

lemma after_Some: "after r = Some s \<longleftrightarrow> (\<exists>x. r = Some (s, x))"
  by (auto simp: after_def)

lemma serve_ok:
  assumes "sim_ok s" "clean_names parse" "serve parse q s = Some s'" shows "sim_ok s'"
proof (cases q)
  case (Load yaml)
  with assms load_ok show ?thesis by (auto simp: serve_def after_Some)
next
  case Restart
  with assms show ?thesis
    by (auto simp: serve_def after_Some Reset_def sim_ok_def split: if_splits option.splits)
       (auto simp: sim_ok_def dest!: load_ok [OF assms(1,2)])
next
  case (PingRequest a b)
  with assms show ?thesis by (auto simp: serve_def after_Some Ping_def intro: with_graph_ok pingLocked_rests)
next
  case (TracePingRequest a b)
  with assms show ?thesis
    by (auto simp: serve_def after_Some TracePing_def intro: with_graph_ok captured_rests pingLocked_rests)
next
  case (TracerouteRequest a b k)
  with assms show ?thesis by (auto simp: serve_def after_Some Traceroute_def intro: with_graph_ok tracerouteLocked_rests)
next
  case (TraceTracerouteRequest a b k)
  with assms show ?thesis
    by (auto simp: serve_def after_Some TraceTraceroute_def intro: with_graph_ok captured_rests tracerouteLocked_rests)
next
  case LldpRound
  have "rests (if lldp_nodes g = [] then Some (g, Inl ''LLDP is not enabled on any device'')
            else captured [''LLDP''] lldp_round (g\<lparr>gr_trace := True\<rparr>))" if "resting g" for g
    using that by (auto intro!: captured_rests lldp_round_rests)
  note round = this
  from LldpRound assms(3) show ?thesis
    by (simp add: serve_def after_Some TraceLLDP_def) (elim exE, rule with_graph_ok [OF assms(1) round])
next
  case (Inspect a)
  with assms show ?thesis
    by (auto simp: serve_def after_Some GetNodeState_def restingD intro!: with_graph_ok [OF assms(1)] on_named_node_rests)
next
  case (SwitchLldp a b)
  with assms show ?thesis
    by (auto simp: serve_def after_Some SetLLDP_def restingD intro!: with_graph_ok [OF assms(1)] on_named_node_rests
        good_run_on ok_lldp_ops quietD [OF quiet_run_on])
next
  case (SwitchStp a b)
  let ?op = "\<lambda>n g. if b then graph_start_stp n g else run_on n (\<lambda>_. node_stop_stp) g"
  have "good g (?op n g)" "ends (?op n g)" if "resting g" "n < length (gr_nodes g)" for g n
    using that by (auto simp: restingD intro!: good_run_on good_stp ok_stp_timers
        quietD [OF quiet_run_on] quietD [OF quiet_start_stp])
  from settle_after [OF this] SwitchStp assms show ?thesis
    by (auto simp: serve_def after_Some SetSTP_def intro!: with_graph_ok [OF assms(1)] on_named_node_rests)
next
  case (ChangePriority a p)
  have "rests (case findGraphNode g a of
          None \<Rightarrow> Some (g, Inl ''node was not found'')
        | Some n \<Rightarrow>
            (let (r, ok) = graph_set_priority n p g in
             if \<not> ok then Some (g, Inl ''bridge priority must be a multiple of 4096'')
             else yields (and_then r ConvergeSpanningTree) (\<lambda>g. snapshotNode g (gr_nodes g ! n))))"
    if "resting g" for g
    using that good_stp(3) [of g _ p] quietD [OF quiet_set_priority, of g _ p]
    by (auto simp: case_prod_beta Let_def restingD dest!: findGraphNode_Some split: option.split
        intro!: yields_rests settle_after [THEN conjunct1] settle_after [THEN conjunct2])
  note change = this
  from ChangePriority assms(3) show ?thesis
    by (simp add: serve_def after_Some SetSTPPriority_def) (elim exE, rule with_graph_ok [OF assms(1) change])
next
  case (ChangeLink a b c d u)
  have "rests (case findGraphLink g a b c d of
          None \<Rightarrow> Some (g, Inl ''link was not found'')
        | Some k \<Rightarrow> yields (change_link k u g) snapshotTopology)" if "resting g" for g
  proof (cases "findGraphLink g a b c d")
    case (Some k)
    have "resting h" if "change_link k u g = Some h" for h
      using change_link_ok [OF restingD(1) [OF \<open>resting g\<close>] that] quietD [OF quiet_change_link restingD(2) [OF \<open>resting g\<close>], of k u] that
      by (simp add: resting_def)
    with Some show ?thesis by (cases "change_link k u g") (simp_all add: yields_def)
  qed (simp add: that)
  note change = this
  from ChangeLink assms(3) show ?thesis
    by (simp add: serve_def after_Some SetLinkState_def) (elim exE, rule with_graph_ok [OF assms(1) change])
qed

inductive sim_step :: "Simulator \<Rightarrow> Simulator \<Rightarrow> bool" where
  request: "clean_names parse \<Longrightarrow> serve parse q s = Some s' \<Longrightarrow> sim_step s s'"

interpretation sim: machine "\<lambda>s. \<exists>sink now. s = NewSimulator sink now" sim_step sim_ok
proof
  show "sim_step s s' \<Longrightarrow> sim_ok s \<Longrightarrow> sim_ok s'" for s s'
    by (erule sim_step.cases) (blast intro: serve_ok)
qed (auto simp: NewSimulator_def sim_ok_def)

end
