(* ===== verification/Settle.thy ===== *)
theory Settle
  imports SimulatorProofs
begin

text \<open>
  Which operations come back.  A drain may run for ever (a broadcast storm does), but control traffic
  dies out: every BPDU costs a unit of the graph's budget, and an LLDP advertisement is answered only
  by a node that did not know its sender.  \<open>dying_traffic\<close> is what such a protocol owes the
  transport; its clients are the drain and the sends from outside it.
\<close>

section \<open>Traffic that dies out\<close>

locale dying_traffic =
  fixes calm :: "Graph \<Rightarrow> bool" and traffic :: "bytes \<Rightarrow> bool" and fuel :: "Graph \<Rightarrow> nat"
  assumes step: "calm g \<Longrightarrow> gr_queue g \<noteq> [] \<Longrightarrow> calm (deliver_one g) \<and> fuel (deliver_one g) < fuel g"
    and queued: "calm g \<Longrightarrow> traffic f \<Longrightarrow> transport_enqueue x f g = Inr g' \<Longrightarrow> calm g'"
    and event: "calm g \<Longrightarrow> calm (emitNodeEvent n p a r g)"
begin

lemma drain_within:
  assumes "calm g" shows "\<exists>k\<le>fuel g. drain g = Some ((deliver_one ^^ k) g) \<and> calm ((deliver_one ^^ k) g)"
  using assms
proof (induction "fuel g" arbitrary: g rule: less_induct)
  case less
  show ?case
  proof (cases "gr_queue g = []")
    case True
    then have "drain g = Some g" by (simp add: drain_def while_option_unfold)
    with less.prems show ?thesis by (intro exI [of _ 0]) simp
  next
    case False
    with step [OF less.prems] have s: "calm (deliver_one g)" "fuel (deliver_one g) < fuel g" by simp_all
    from less.hyps [OF s(2,1)] obtain k where k: "k \<le> fuel (deliver_one g)"
      "drain (deliver_one g) = Some ((deliver_one ^^ k) (deliver_one g))"
      "calm ((deliver_one ^^ k) (deliver_one g))" by blast
    have "drain g = drain (deliver_one g)" using False by (simp add: drain_def while_option_unfold)
    with k s(2) show ?thesis by (intro exI [of _ "Suc k"]) (simp add: funpow_swap1)
  qed
qed

lemma effect_returns:
  assumes "calm g" "\<forall>x\<in>set (sends [e]). traffic (snd x)"
  shows "\<exists>g'. perform_effect n e g = Some g' \<and> calm g'"
proof (cases e)
  case (Send i f)
  show ?thesis
  proof (cases "transport_enqueue (n, i) f g")
    case (Inr g')
    from drain_within [OF queued [OF assms(1) _ this]] assms(2) Send obtain h where "drain g' = Some h" "calm h" by auto
    with Send Inr show ?thesis by (simp add: perform_effect_def)
  qed (simp add: perform_effect_def Send transport_failed_def event assms(1))
qed (simp add: perform_effect_def event assms(1))

lemma perform_returns:
  assumes "calm g" "\<forall>x\<in>set (sends es). traffic (snd x)"
  shows "\<exists>g'. perform n es g = Some g' \<and> calm g'"
  using assms
proof (induction es arbitrary: g)
  case (Cons e es)
  have "\<forall>x\<in>set (sends [e]). traffic (snd x)" "\<forall>x\<in>set (sends es). traffic (snd x)"
    using Cons.prems(2) sends_simps(4) [of "[e]" es] by simp_all
  note fine = this
  from effect_returns [OF Cons.prems(1) fine(1)] obtain g1 where "perform_effect n e g = Some g1" "calm g1" by blast
  with Cons.IH [OF this(2) fine(2)] show ?case by simp
qed simp

lemma run_on_returns:
  assumes "f (env_of g n) (gr_nodes g ! n) = (node, es)" "calm (set_node n node g)"
    "\<forall>x\<in>set (sends es). traffic (snd x)"
  shows "\<exists>g'. run_on n f g = Some g' \<and> calm g'"
  using perform_returns [OF assms(2,3)] by (simp add: run_on_def assms(1))

end

text \<open>Operations that come back in a state of the same kind.\<close>

definition returns :: "(Graph \<Rightarrow> bool) \<Rightarrow> (Graph \<Rightarrow> Graph option) \<Rightarrow> bool" where
  "returns P f \<longleftrightarrow> (\<forall>g. P g \<longrightarrow> (\<exists>g'. f g = Some g' \<and> P g'))"

named_theorems returning "operations that come back"

lemma returnsI: "(\<And>g. P g \<Longrightarrow> \<exists>g'. f g = Some g' \<and> P g') \<Longrightarrow> returns P f"
  by (simp add: returns_def)

lemma returnsD: "returns P f \<Longrightarrow> P g \<Longrightarrow> \<exists>g'. f g = Some g' \<and> P g'"
  by (simp add: returns_def)

lemma returns_Some [returning]: "returns P Some"
  by (simp add: returns_def)

lemma returns_and_then [returning]: "returns P f \<Longrightarrow> returns P h \<Longrightarrow> returns P (\<lambda>g. and_then (f g) h)"
  by (fastforce simp: returns_def and_then_def)

lemma returns_for_each [returning]: "(\<And>x. x \<in> set xs \<Longrightarrow> returns P (f x)) \<Longrightarrow> returns P (for_each f xs)"
proof (induction xs)
  case (Cons x xs)
  then have "returns P (\<lambda>g. and_then (f x g) (for_each f xs))" by (intro returns_and_then) simp_all
  then show ?case by (simp add: returns_def)
qed (simp add: returns_def)

text \<open>Effects that put no frame on the wire.\<close>

lemma perform_events:
  assumes "sends es = []" shows "\<exists>g'. perform n es g = Some g' \<and> gr_nodes g' = gr_nodes g \<and> gr_queue g' = gr_queue g"
  using assms
proof (induction es arbitrary: g)
  case (Cons e es)
  obtain p a r where e: "e = Emit p a r" using Cons.prems by (cases e) simp_all
  with Cons.IH [of "emitNodeEvent n p a r g"] Cons.prems show ?case by (simp add: perform_effect_def)
qed simp

lemma run_on_events:
  assumes "\<And>env node. sends (snd (f env node)) = []"
  shows "\<exists>g'. run_on n f g = Some g' \<and> gr_queue g' = gr_queue g \<and>
    gr_nodes g' = (gr_nodes g)[n := fst (f (env_of g n) (gr_nodes g ! n))]"
proof -
  obtain node es where r: "f (env_of g n) (gr_nodes g ! n) = (node, es)" by fastforce
  with assms [of "env_of g n" "gr_nodes g ! n"] perform_events [of es n "set_node n node g"]
  show ?thesis by (auto simp: run_on_def set_node_def)
qed

section \<open>Spanning tree exchanges\<close>

text \<open>Frames for the bridge group address; every bridge hands them to its spanning tree.\<close>

definition bpdu_frame :: "bytes \<Rightarrow> bool" where
  "bpdu_frame f \<longleftrightarrow> length f \<ge> ETHERNET_HDR_SIZE \<and> mac_at f 0 = stpBridgeGroupMAC \<and> u16_at f 12 \<noteq> ETHERTYPE_LLDP"

definition bpdus_only :: "Graph \<Rightarrow> bool" where
  "bpdus_only g \<longleftrightarrow> (\<forall>q\<in>set (gr_queue g). bpdu_frame (snd q))"

definition bpdu_fuel :: "Graph \<Rightarrow> nat" where
  "bpdu_fuel g = length (gr_queue g) + nat (gr_budget g)"

lemma buildSTPFrame_bpdu: "bpdu_frame (buildSTPFrame src (serializeBPDU b))"
proof -
  have m: "mac_at (mac_bytes stpBridgeGroupMAC @ xs) 0 = stpBridgeGroupMAC" for xs
    using mac_at_append [of "[]" 0 stpBridgeGroupMAC xs] by simp
  have "u16_at ((mac_bytes stpBridgeGroupMAC @ mac_bytes src) @ put16 w @ xs) 12 = w" for w xs
    by (rule u16_at_put16) simp
  then have u: "u16_at (mac_bytes stpBridgeGroupMAC @ mac_bytes src @ put16 w @ xs) 12 = w" for w xs by simp
  show ?thesis
    unfolding bpdu_frame_def buildSTPFrame_def Let_def u m by (simp add: frame_lens ETHERTYPE_LLDP_def)
qed

text \<open>What a transmission costs: one unit of the budget for each frame.\<close>

definition paid :: "int \<Rightarrow> int \<Rightarrow> (nat \<times> bytes) list \<Rightarrow> bool" where
  "paid b b' fs \<longleftrightarrow> length fs + nat b' \<le> nat b \<and> (\<forall>x\<in>set fs. bpdu_frame (snd x))"

lemma paid_more: "paid (b - 1) b' fs \<Longrightarrow> paid b b' fs"
  by (auto simp: paid_def)

lemma paid_Cons: "paid (b - 1) b' fs \<Longrightarrow> b > 0 \<Longrightarrow> bpdu_frame f \<Longrightarrow> paid b b' ((i, f) # fs)"
  by (auto simp: paid_def)

lemma transmit_paid: "transmit intfs b pending = (b', fs) \<Longrightarrow> paid b b' fs"
proof (induction pending arbitrary: b b' fs)
  case (Cons p rest)
  obtain port bpdu where p: "p = (port, bpdu)" by fastforce
  obtain b1 fs1 where t: "transmit intfs (b - 1) rest = (b1, fs1)" by fastforce
  from Cons.IH [OF this] have "paid (b - 1) b1 fs1" .
  from paid_more [OF this] paid_Cons [OF this] Cons.prems t show ?case
    by (auto simp: p buildSTPFrame_bpdu paid_def [of b _ "[]"] split: if_splits option.splits)
qed (simp add: paid_def)

lemma sends_events [simp]: "sends (stp_change_events cs) = []" "sends (tcn_events p) = []"
  by (induction cs) (auto simp: stp_change_events_def tcn_events_def split: sum.split)

lemma sends_send_bpdus: "length (sends (send_bpdus env node fs)) \<le> length fs \<and> snd ` set (sends (send_bpdus env node fs)) \<subseteq> snd ` set fs"
proof (induction fs)
  case (Cons x fs)
  obtain i f where x: "x = (i, f)" by fastforce
  have "length (sends (snd (send_frame env node f i))) \<le> 1"
    by (simp add: send_frame_def split: option.split)
  with Cons sends_send_frame [of env node f i] show ?case by (auto simp: send_bpdus_def x)
qed (simp add: send_bpdus_def)

lemma paid_send_bpdus: "paid b b' fs \<Longrightarrow> paid b b' (sends (send_bpdus env node fs))"
  using sends_send_bpdus [of env node fs] unfolding paid_def by (metis (no_types, lifting) add_le_mono1 imageE image_eqI order_trans subsetD)

lemma apply_stp_paid: "apply_stp env out (node, b) = ((node', b'), es) \<Longrightarrow> paid b b' (sends es)"
  by (auto simp: apply_stp_def Let_def split: prod.splits intro!: paid_send_bpdus dest: transmit_paid)

lemma paid_nothing [simp]: "paid b b []"
  by (simp add: paid_def)

lemma recv_stp_paid: "layer2FrameRecvSTP env i h pkt (node, b) = ((node', b'), es) \<Longrightarrow> paid b b' (sends es)"
  unfolding layer2FrameRecvSTP_def
  by (auto simp: Let_def apply_stp_paid split: if_splits sum.splits prod.splits)

lemma deliver_bpdu_paid:
  assumes "deliverTransportFrame env i f (node, b) = ((node', b'), es)" "bpdu_frame f"
  shows "paid b b' (sends es)"
proof -
  have f: "f \<noteq> []" "\<not> length f < ETHERNET_HDR_SIZE" "dst_mac h = stpBridgeGroupMAC" "ethertype h \<noteq> ETHERTYPE_LLDP"
    if "deserialize_ethernet_header f = Inr h" for h
    using assms(2) that by (auto simp: bpdu_frame_def deserialize_ethernet_header_def ETHERNET_HDR_SIZE_def)
  have "\<not> isLLDPMulticastMAC stpBridgeGroupMAC"
    by (simp add: isLLDPMulticastMAC_def stpBridgeGroupMAC_def lldpMulticastMAC_def)
  with f have "layer_2_frame_recv env i f (node, b) = ((node1, b1), es1) \<Longrightarrow> paid b b1 (sends es1)" for node1 b1 es1
    using recv_stp_paid [of env i _ f node b node1 b1 es1]
    by (subst (asm) layer_2_frame_recv.simps)
       (auto simp: isSTPBridgeGroupMAC_def split: option.splits if_splits sum.splits)
  with assms(1) show ?thesis
    by (auto simp: deliverTransportFrame_def Let_def split: option.splits if_splits prod.splits)
qed

text \<open>What the effects of a handler add to the queue.\<close>

lemma enqueue_effect_bound:
  "length (gr_queue (enqueue_effect n e g)) \<le> length (gr_queue g) + length (sends [e]) \<and>
   snd ` set (gr_queue (enqueue_effect n e g)) \<subseteq> snd ` set (gr_queue g) \<union> snd ` set (sends [e]) \<and>
   gr_budget (enqueue_effect n e g) = gr_budget g"
proof (cases e)
  case (Send i f)
  then show ?thesis
    by (cases "transport_enqueue (n, i) f g")
       (auto simp: enqueue_effect_def transport_failed_def transport_enqueue_def udp_enqueue_def split: option.splits if_splits FrameTransport.splits)
qed (simp add: enqueue_effect_def)

lemma enqueue_effects_bound:
  "length (gr_queue (enqueue_effects n es g)) \<le> length (gr_queue g) + length (sends es) \<and>
   snd ` set (gr_queue (enqueue_effects n es g)) \<subseteq> snd ` set (gr_queue g) \<union> snd ` set (sends es) \<and>
   gr_budget (enqueue_effects n es g) = gr_budget g"
proof (induction es arbitrary: g)
  case (Cons e es)
  have s: "sends (e # es) = sends [e] @ sends es" using sends_simps(4) [of "[e]" es] by simp
  have f: "enqueue_effects n (e # es) g = enqueue_effects n es (enqueue_effect n e g)"
    by (simp add: enqueue_effects_def)
  note ih = Cons [of "enqueue_effect n e g"] and one = enqueue_effect_bound [of n e g]
  have "a \<le> b + m \<Longrightarrow> b \<le> c + k \<Longrightarrow> a \<le> c + (k + m)" for a b c k m :: nat by simp
  note this [OF ih [THEN conjunct1] one [THEN conjunct1]]
  moreover have "A \<subseteq> B \<union> M \<Longrightarrow> B \<subseteq> C \<union> K \<Longrightarrow> A \<subseteq> C \<union> (K \<union> M)" for A B C K M :: "bytes set" by blast
  note this [OF ih [THEN conjunct2, THEN conjunct1] one [THEN conjunct2, THEN conjunct1]]
  ultimately show ?case
    unfolding s f length_append set_append image_Un using ih one by (simp only: simp_thms)
qed (simp add: enqueue_effects_def)

interpretation stp_traffic: dying_traffic bpdus_only bpdu_frame bpdu_fuel
proof
  fix g :: Graph assume calm: "bpdus_only g" and "gr_queue g \<noteq> []"
  then obtain n i f qs where q: "gr_queue g = ((n, i), f) # qs" by (cases "gr_queue g") auto
  obtain node b es where d: "deliverTransportFrame (env_of g n) i f (gr_nodes g ! n, gr_budget g) = ((node, b), es)"
    by (metis surj_pair)
  from deliver_bpdu_paid [OF this] calm q have p: "paid (gr_budget g) b (sends es)" by (simp add: bpdus_only_def)
  let ?g = "set_node n node (g\<lparr>gr_queue := qs, gr_budget := b\<rparr>)"
  have e: "deliver_one g = enqueue_effects n es ?g" by (simp add: deliver_one_def q d)
  have "gr_queue ?g = qs" "gr_budget ?g = b" by (simp_all add: set_node_def)
  with enqueue_effects_bound [of n es ?g] p calm q show "bpdus_only (deliver_one g) \<and> bpdu_fuel (deliver_one g) < bpdu_fuel g"
    unfolding e bpdus_only_def bpdu_fuel_def paid_def by (auto 0 3)
qed (auto simp: bpdus_only_def transport_enqueue_def udp_enqueue_def split: option.splits if_splits FrameTransport.splits)

text \<open>Every operation of the spanning tree comes back, whatever the network.\<close>

definition idle :: "Graph \<Rightarrow> bool" where "idle g \<longleftrightarrow> gr_queue g = []"

lemma idle_bpdus: "idle g \<Longrightarrow> bpdus_only g"
  by (simp add: idle_def bpdus_only_def)

lemma idle_after: "quiet f \<Longrightarrow> idle g \<Longrightarrow> f g = Some g' \<Longrightarrow> idle g'"
  using quietD [of f g] by (simp add: idle_def)

lemma idle_run_on [returning]:
  assumes "\<And>env node. sends (snd (f env node)) = []" shows "returns idle (run_on n f)"
  using run_on_events [of f n, OF assms] by (fastforce simp: returns_def idle_def)

lemma idle_transmit [returning]: "returns idle (graph_transmit n pending)"
proof (induction pending)
  case (Cons p rest)
  obtain port bpdu where p: "p = (port, bpdu)" by fastforce
  show ?case
  proof (rule returnsI)
    fix g :: Graph assume g: "idle g"
    let ?g = "g\<lparr>gr_budget := gr_budget g - 1\<rparr>"
    have i: "idle ?g" using g by (simp add: idle_def)
    let ?f = "\<lambda>intf env. do_send env (buildSTPFrame (GetMac intf) (serializeBPDU bpdu)) (sp_intf port)"
    have "\<exists>g'. run_on n (?f intf) ?g = Some g'" for intf
    proof -
      let ?es = "snd (send_frame (env_of ?g n) (gr_nodes ?g ! n) (buildSTPFrame (GetMac intf) (serializeBPDU bpdu)) (sp_intf port))"
      have "\<forall>x\<in>set (sends ?es). bpdu_frame (snd x)"
        using sends_send_frame [of "env_of ?g n" "gr_nodes ?g ! n" _ "sp_intf port"] buildSTPFrame_bpdu by fastforce
      moreover have "bpdus_only (set_node n (gr_nodes ?g ! n) ?g)" using i by (simp add: idle_def bpdus_only_def set_node_def)
      ultimately show ?thesis
        using stp_traffic.run_on_returns [of "?f intf" ?g n "gr_nodes ?g ! n" ?es] by (auto simp: do_send_def)
    qed
    with idle_after [OF quiet_run_on i] have r: "\<exists>g'. run_on n (?f intf) ?g = Some g' \<and> idle g'" for intf by blast
    show "\<exists>g'. graph_transmit n (p # rest) g = Some g' \<and> idle g'"
    proof (cases "intf_of (gr_nodes g ! n) (sp_intf port)")
      case None
      with i returnsD [OF Cons i] show ?thesis by (simp add: p consumeSTPBudget_def Let_def)
    next
      case (Some intf)
      from r obtain h where h: "run_on n (?f intf) ?g = Some h" "idle h" by blast
      with i returnsD [OF Cons h(2)] Some show ?thesis by (simp add: p consumeSTPBudget_def Let_def and_then_def)
    qed
  qed
qed (simp add: returns_def)

lemma idle_apply_stp [returning]: "returns idle (graph_apply_stp n out)"
  unfolding graph_apply_stp_def by (intro returning) simp

lemma idle_in_cascade [returning]:
  assumes "returns idle f" shows "returns idle (in_cascade f)"
proof (rule returnsI)
  fix g :: Graph assume "idle g"
  then have "idle (beginSTPCascade g)" by (simp add: idle_def beginSTPCascade_def resetSTPBudget_def Let_def)
  from returnsD [OF assms this] show "\<exists>g'. in_cascade f g = Some g' \<and> idle g'"
    by (auto simp: in_cascade_def endSTPCascade_def idle_def)
qed

lemma idle_emit [simp]: "idle (emitNodeEvent n p a r g) \<longleftrightarrow> idle g"
  by (simp add: idle_def)

lemma idle_stp [returning]:
  "returns idle (graph_converge n)" "returns idle (graph_send_hello n)" "returns idle (graph_age_out n)"
  "returns idle (graph_start_stp n)" "returns idle (\<lambda>g. fst (graph_set_priority n p g))"
  by (auto simp: graph_converge_def graph_send_hello_def graph_age_out_def graph_start_stp_def graph_set_priority_def
      case_prod_beta Let_def intro!: returnsI returnsD [OF idle_in_cascade] returnsD [OF idle_apply_stp]
      idle_apply_stp idle_transmit)

lemma sends_map_Emit [simp]: "sends (map (\<lambda>x. Emit (p x) (a x) (r x)) xs) = []"
  by (induction xs) simp_all

lemma idle_stp_tick [returning]: "returns idle (graph_stp_tick n)"
  unfolding graph_stp_tick_def
  by (intro returning) (simp add: node_advance_port_states_def case_prod_beta)

lemma idle_round: "idle g \<Longrightarrow> \<exists>g' b. converge_round ns g = Some (g', b) \<and> idle g'"
proof (induction ns arbitrary: g)
  case (Cons n ns)
  from returnsD [OF idle_stp(1) Cons.prems, of n] obtain g1 where g1: "graph_converge n g = Some g1" "idle g1" by blast
  from Cons.IH [OF this(2)] Cons.IH [OF Cons.prems] g1(1) show ?case by fastforce
qed auto

lemma idle_rounds [returning]: "returns idle (converge_rounds k)"
proof (induction k)
  case (Suc k)
  show ?case
  proof (rule returnsI)
    fix g :: Graph assume "idle g"
    from idle_round [OF this, of "[0..<length (gr_nodes g)]"] returnsD [OF Suc]
    show "\<exists>g'. converge_rounds (Suc k) g = Some g' \<and> idle g'" by fastforce
  qed
qed (simp add: returns_def)

lemma idle_ConvergeSpanningTree [returning]: "returns idle ConvergeSpanningTree"
proof (rule returnsI)
  fix g :: Graph assume "idle g"
  then have "idle (resetSTPBudget g)" by (simp add: idle_def resetSTPBudget_def)
  moreover have "returns idle (for_each (\<lambda>n. run_on n (\<lambda>_. node_promote_forwarding_ports)) ns)" for ns
    by (intro returning) (simp add: node_promote_forwarding_ports_def case_prod_beta)
  ultimately show "\<exists>g'. ConvergeSpanningTree g = Some g' \<and> idle g'"
    unfolding ConvergeSpanningTree_def by (intro returnsD [OF returns_and_then] idle_rounds)
qed

lemma idle_change_link [returning]: "returns idle (change_link k b)"
  by (rule returnsI)
    (auto simp: change_link_def Let_def idle_def set_link_up_def
      intro!: returnsD [OF idle_ConvergeSpanningTree, unfolded idle_def])

section \<open>LLDP\<close>

text \<open>
  The names an advertisement can carry are the names of the nodes and of their interfaces.  Two kinds
  of traffic: advertisements with a lifetime, which may be answered once, and the shutdown
  advertisements of \<open>StopLLDP\<close>, which never are.
\<close>

definition chassis_names :: "Graph \<Rightarrow> string set" where
  "chassis_names g = (\<lambda>node. formatLLDPID LLDP_CHASSIS_ID_LOCAL (string_bytes (nd_name node))) ` set (gr_nodes g)"

definition intf_names :: "Graph \<Rightarrow> string set" where
  "intf_names g = (\<lambda>x. get_interface_name (the x)) ` (\<Union>intfs\<in>set (map nd_intf (gr_nodes g)). set intfs - {None})"

definition port_names :: "Graph \<Rightarrow> string set" where
  "port_names g = (\<lambda>nm. formatLLDPID LLDP_PORT_ID_INTERFACE_NAME (string_bytes nm)) ` intf_names g"

definition lldp_frame :: "string set \<Rightarrow> string set \<Rightarrow> bool \<Rightarrow> bytes \<Rightarrow> bool" where
  "lldp_frame C P alive f \<longleftrightarrow>
     (\<exists>hdr du. deserialize_ethernet_header f = Inr hdr \<and> dst_mac hdr = lldpMulticastMAC \<and>
        ethertype hdr = ETHERTYPE_LLDP \<and>
        deserializeLLDPDU (drop ETHERNET_HDR_SIZE f) = Inr du \<and> (du_TTL du \<noteq> 0 \<longleftrightarrow> alive) \<and>
        formatLLDPID (du_ChassisIDSubtype du) (du_ChassisID du) \<in> C \<and>
        formatLLDPID (du_PortIDSubtype du) (du_PortID du) \<in> P)"

lemma finite_names [simp]: "finite (chassis_names g)" "finite (intf_names g)" "finite (port_names g)"
  by (simp_all add: chassis_names_def intf_names_def port_names_def)

lemma same_net_names:
  assumes "same_net g g'" shows "chassis_names g' = chassis_names g" "intf_names g' = intf_names g" "port_names g' = port_names g"
proof -
  have m: "map nd_intf (gr_nodes g') = map nd_intf (gr_nodes g)" "map nd_name (gr_nodes g') = map nd_name (gr_nodes g)"
    using assms by (simp_all add: same_net_def)
  have "chassis_names h = (\<lambda>nm. formatLLDPID LLDP_CHASSIS_ID_LOCAL (string_bytes nm)) ` set (map nd_name (gr_nodes h))" for h
    by (simp add: chassis_names_def image_image)
  then show "chassis_names g' = chassis_names g" by (simp only: m)
  show i: "intf_names g' = intf_names g" by (simp only: intf_names_def m)
  show "port_names g' = port_names g" by (simp only: port_names_def i)
qed

text \<open>The names one node can advertise.\<close>

definition names_in :: "string set \<Rightarrow> string set \<Rightarrow> Node \<Rightarrow> bool" where
  "names_in C P node \<longleftrightarrow> formatLLDPID LLDP_CHASSIS_ID_LOCAL (string_bytes (nd_name node)) \<in> C \<and>
     (\<forall>i intf. intf_of node i = Some intf \<longrightarrow>
        formatLLDPID LLDP_PORT_ID_INTERFACE_NAME (string_bytes (get_interface_name intf)) \<in> P)"

lemma intf_names_in:
  assumes "n < length (gr_nodes g)" "intf_of (gr_nodes g ! n) i = Some intf" shows "get_interface_name intf \<in> intf_names g"
proof -
  have "Some intf \<in> set (nd_intf (gr_nodes g ! n)) - {None}"
    using assms(2) by (auto simp: intf_of_def intf_at_def split: if_splits) (metis nth_mem)
  with assms(1) show ?thesis unfolding intf_names_def
    by (metis UN_I imageI length_map list.set_map nth_mem option.sel)
qed

lemma names_of_node:
  assumes "n < length (gr_nodes g)" shows "names_in (chassis_names g) (port_names g) (gr_nodes g ! n)"
  using assms intf_names_in [OF assms] by (auto simp: names_in_def chassis_names_def port_names_def)

lemma advertisement_frames:
  assumes "names_in C P node"
  shows "length (sends (sendLLDPAdvertisement env node i ttl)) \<le> 1 \<and>
    (\<forall>x\<in>set (sends (sendLLDPAdvertisement env node i ttl)). lldp_frame C P (ttl \<noteq> 0) (snd x))"
proof (cases "intf_of node i")
  case (Some intf)
  let ?du = "buildLLDPDU node intf ttl"
  show ?thesis
  proof (cases "serializeLLDPDU ?du")
    case (Inr payload)
    have d: "deserializeLLDPDU (payload @ []) = Inr ?du" by (rule deserialize_serializeLLDPDU [OF Inr])
    have f: "lldp_frame C P (ttl \<noteq> 0) frame"
      if "ethernet_frame lldpMulticastMAC (GetMac intf) ETHERTYPE_LLDP payload = Some frame" for frame
    proof -
      have "frame = serialize_ethernet_header \<lparr>dst_mac = lldpMulticastMAC, src_mac = GetMac intf, ethertype = ETHERTYPE_LLDP\<rparr> @ payload"
        using that by (auto simp: ethernet_frame_def tag_packet_with_ethernet_hdr_def serialize_ethernet_frame_def split: if_splits)
      with d assms Some show ?thesis
        by (simp add: lldp_frame_def frame_lens) (simp add: buildLLDPDU_def Let_def names_in_def)
    qed
    have one: "length (sends (snd (send_frame env node frame i))) \<le> 1" for frame
      by (simp add: send_frame_def split: option.split)
    show ?thesis
    proof (cases "ethernet_frame lldpMulticastMAC (GetMac intf) ETHERTYPE_LLDP payload")
      case fr: (Some frame)
      have "\<forall>x\<in>set (sends (snd (send_frame env node frame i))). lldp_frame C P (ttl \<noteq> 0) (snd x)"
        using sends_send_frame [of env node frame i] f [OF fr] by auto
      with one [of frame] show ?thesis by (simp add: sendLLDPAdvertisement_def Some Inr fr)
    qed (simp add: sendLLDPAdvertisement_def Some Inr)
  qed (simp add: sendLLDPAdvertisement_def Some)
qed (simp add: sendLLDPAdvertisement_def)

text \<open>What a node does with an advertisement.\<close>

definition known_keys :: "Node \<Rightarrow> neighbor_key set" where
  "known_keys node = lldpNeighborKey ` set (lldp_neighbors (nd_lldp node))"

lemma known_put: "lldpNeighborKey ` set (lldp_put ns new) = insert (lldpNeighborKey new) (lldpNeighborKey ` set ns)"
proof -
  have "lldpNeighborKey ` set (lldp_put ns new) = set (map lldpNeighborKey (lldp_put ns new))" by simp
  then show ?thesis unfolding lldp_put_keys by (auto simp: lldp_lookup_None)
qed

text \<open>
  A shutdown advertisement is not answered; another one is answered at most once, by a node that
  then knows a sender it did not know.
\<close>

lemma recv_lldp:
  assumes f: "lldp_frame C P alive f" and intf: "intf_of node i = Some intf" and n: "names_in C P node"
    and r: "layer2FrameRecvLLDP env i hdr f node = (node', es)" "deserialize_ethernet_header f = Inr hdr"
  shows "(alive \<longrightarrow> known_keys node \<subseteq> known_keys node') \<and>
    (sends es = [] \<or> alive \<and> length (sends es) \<le> 1 \<and> (\<forall>x\<in>set (sends es). lldp_frame C P True (snd x)) \<and>
      (\<exists>c\<in>C. \<exists>p\<in>P. (get_interface_name intf, c, p) \<in> known_keys node' - known_keys node))"
proof -
  obtain du where du: "dst_mac hdr = lldpMulticastMAC" "ethertype hdr = ETHERTYPE_LLDP"
    "deserializeLLDPDU (drop ETHERNET_HDR_SIZE f) = Inr du" "(du_TTL du \<noteq> 0) = alive"
    "formatLLDPID (du_ChassisIDSubtype du) (du_ChassisID du) \<in> C"
    "formatLLDPID (du_PortIDSubtype du) (du_PortID du) \<in> P"
    using f r(2) by (auto simp: lldp_frame_def)
  have len: "\<not> length f < ETHERNET_HDR_SIZE" using r(2) by (auto simp: deserialize_ethernet_header_def)
  let ?out = "LLDP_ProcessFrame (nd_lldp node) (e_now env) (e_trace env) (intf_name_of node i) hdr (drop ETHERNET_HDR_SIZE f)"
  let ?node = "node\<lparr>nd_lldp := lo_state ?out\<rparr>"
  let ?key = "lldpNeighborKey (neighbor_of (e_now env) (intf_name_of node i) hdr du)"
  have key: "?key = (get_interface_name intf, formatLLDPID (du_ChassisIDSubtype du) (du_ChassisID du),
      formatLLDPID (du_PortIDSubtype du) (du_PortID du))"
    using intf by (simp add: lldpNeighborKey_def neighbor_of_def intf_name_of_def)
  have n': "names_in C P ?node" using n by (simp add: names_in_def intf_of_def)
  note adv = advertisement_frames [OF n', of env i LLDP_DEFAULT_TTL]
  show ?thesis
  proof (cases "lldp_enabled (nd_lldp node)")
    case False
    with r(1) len show ?thesis by (auto simp: layer2FrameRecvLLDP_def)
  next
    case True
    have e: "lo_error ?out = None" using True du by (simp add: LLDP_ProcessFrame_def Let_def isLLDPMulticastMAC_def)
    have node': "node' = ?node" and es: "sends es = (if lo_reply ?out then sends (sendLLDPAdvertisement env ?node i LLDP_DEFAULT_TTL) else [])"
      using r(1) len True e by (auto simp: layer2FrameRecvLLDP_def Let_def split: option.split)
    show ?thesis
    proof (cases alive)
      case False
      with True du have "\<not> lo_reply ?out" by (simp add: LLDP_ProcessFrame_def Let_def isLLDPMulticastMAC_def)
      with False es show ?thesis by simp
    next
      case alive: True
      with True du have o: "lo_reply ?out \<longrightarrow> ?key \<notin> known_keys node"
        "known_keys ?node = insert ?key (known_keys node)"
        by (simp_all add: LLDP_ProcessFrame_def Let_def isLLDPMulticastMAC_def lldp_lookup_None known_keys_def known_put)
      show ?thesis
      proof (cases "lo_reply ?out")
        case True
        with o have "?key \<in> known_keys node' - known_keys node" by (simp add: node')
        with du(5,6) key have "\<exists>c\<in>C. \<exists>p\<in>P. (get_interface_name intf, c, p) \<in> known_keys node' - known_keys node" by auto
        moreover have "LLDP_DEFAULT_TTL \<noteq> 0" by (simp add: LLDP_DEFAULT_TTL_def)
        ultimately show ?thesis using adv alive True es o(2) by (auto simp: node')
      qed (use es o alive in \<open>auto simp: node'\<close>)
    qed
  qed
qed

lemma deliver_lldp:
  assumes "lldp_frame C P alive f" "names_in C P node"
    "deliverTransportFrame env i f (node, b) = ((node', b'), es)"
  shows "(alive \<longrightarrow> known_keys node \<subseteq> known_keys node') \<and>
    (sends es = [] \<or> alive \<and> length (sends es) \<le> 1 \<and> (\<forall>x\<in>set (sends es). lldp_frame C P True (snd x)) \<and>
      (\<exists>intf. intf_of node i = Some intf \<and>
         (\<exists>c\<in>C. \<exists>p\<in>P. (get_interface_name intf, c, p) \<in> known_keys node' - known_keys node)))"
proof (cases "intf_of node i")
  case (Some intf)
  obtain hdr where h: "deserialize_ethernet_header f = Inr hdr" "dst_mac hdr = lldpMulticastMAC" "ethertype hdr = ETHERTYPE_LLDP"
    using assms(1) by (auto simp: lldp_frame_def)
  then have len: "\<not> length f < ETHERNET_HDR_SIZE" by (auto simp: deserialize_ethernet_header_def)
  then have ne: "f \<noteq> []" by (auto simp: ETHERNET_HDR_SIZE_def)
  obtain node1 es1 where r: "layer2FrameRecvLLDP env i hdr f node = (node1, es1)" by fastforce
  have l2: "layer_2_frame_recv env i f (node, b) = ((node1, b), es1)"
    by (subst layer_2_frame_recv.simps) (use ne len Some h r in \<open>simp add: on_node_def\<close>)
  from assms(3) have "(node' = node \<and> sends es = []) \<or> (node' = node1 \<and> sends es = sends es1)"
    by (auto simp: deliverTransportFrame_def Some Let_def l2 split: if_splits)
  with recv_lldp [OF assms(1) Some assms(2) r h(1)] Some show ?thesis by auto
qed (use assms(3) in \<open>simp add: deliverTransportFrame_def\<close>)

definition lldp_calm :: "string set \<Rightarrow> string set \<Rightarrow> Graph \<Rightarrow> bool" where
  "lldp_calm C P g \<longleftrightarrow> graph_ok g \<and> chassis_names g \<subseteq> C \<and> port_names g \<subseteq> P \<and> finite C \<and> finite P \<and>
     (\<forall>q\<in>set (gr_queue g). lldp_frame C P True (snd q))"

text \<open>What the nodes have still to learn: senders a node does not know on one of its interfaces.\<close>

definition unknown :: "string set \<Rightarrow> string set \<Rightarrow> Graph \<Rightarrow> (nat \<times> neighbor_key) set" where
  "unknown C P g = {(n, k). n < length (gr_nodes g) \<and> k \<in> intf_names g \<times> C \<times> P \<and> k \<notin> known_keys (gr_nodes g ! n)}"

definition lldp_fuel :: "string set \<Rightarrow> string set \<Rightarrow> Graph \<Rightarrow> nat" where
  "lldp_fuel C P g = length (gr_queue g) + card (unknown C P g)"

lemma finite_unknown: "finite C \<Longrightarrow> finite P \<Longrightarrow> finite (unknown C P g)"
  by (rule finite_subset [of _ "{..<length (gr_nodes g)} \<times> (intf_names g \<times> C \<times> P)"]) (auto simp: unknown_def)

declare enqueue_effects_nodes [simp]

lemma lldp_step:
  assumes calm: "lldp_calm C P g" and ne: "gr_queue g \<noteq> []"
  shows "lldp_calm C P (deliver_one g) \<and> lldp_fuel C P (deliver_one g) < lldp_fuel C P g"
proof -
  obtain n i f qs where q: "gr_queue g = ((n, i), f) # qs" using ne by (cases "gr_queue g") auto
  obtain node b es where d: "deliverTransportFrame (env_of g n) i f (gr_nodes g ! n, gr_budget g) = ((node, b), es)"
    by (metis surj_pair)
  have c: "graph_ok g" "chassis_names g \<subseteq> C" "port_names g \<subseteq> P" "finite C" "finite P"
    "lldp_frame C P True f" "\<forall>q\<in>set qs. lldp_frame C P True (snd q)"
    using calm q by (simp_all add: lldp_calm_def)
  have n: "n < length (gr_nodes g)" by (rule queue_target [OF c(1) q])
  have "names_in C P (gr_nodes g ! n)" using names_of_node [OF n] c(2,3) by (auto simp: names_in_def)
  note r = deliver_lldp [OF c(6) this d]
  note ok = ok_deliver_one [OF c(1)]
  note names = same_net_names [OF ok [THEN conjunct2]]
  let ?g = "set_node n node (g\<lparr>gr_queue := qs, gr_budget := b\<rparr>)"
  have e: "deliver_one g = enqueue_effects n es ?g" by (simp add: deliver_one_def q d)
  have fields: "gr_nodes (deliver_one g) = (gr_nodes g)[n := node]" "gr_queue ?g = qs"
    by (simp_all add: e) (simp_all add: set_node_def)
  note qb = enqueue_effects_bound [of n es ?g, folded e, unfolded fields]
  have calm': "lldp_calm C P (deliver_one g)"
  proof -
    have "\<forall>x\<in>set (sends es). lldp_frame C P True (snd x)" using r by auto
    with c(7) qb have "\<forall>q\<in>set (gr_queue (deliver_one g)). lldp_frame C P True (snd q)" by fastforce
    with c ok names show ?thesis by (simp add: lldp_calm_def)
  qed
  have mono: "unknown C P (deliver_one g) \<subseteq> unknown C P g"
    using r n by (auto simp: unknown_def names fields nth_list_update split: if_splits)
  note fin = finite_unknown [OF c(4,5)]
  have "lldp_fuel C P (deliver_one g) < lldp_fuel C P g"
  proof (cases "sends es = []")
    case True
    with qb q card_mono [OF fin mono] show ?thesis by (simp add: lldp_fuel_def)
  next
    case False
    then obtain intf c p where k: "intf_of (gr_nodes g ! n) i = Some intf" "c \<in> C" "p \<in> P"
      "(get_interface_name intf, c, p) \<in> known_keys node - known_keys (gr_nodes g ! n)" and one: "length (sends es) \<le> 1"
      using r by blast
    have "(n, get_interface_name intf, c, p) \<in> unknown C P g - unknown C P (deliver_one g)"
      using k n intf_names_in [OF n k(1)] by (simp add: unknown_def fields)
    with mono have "unknown C P (deliver_one g) \<subset> unknown C P g" by blast
    from psubset_card_mono [OF fin this] qb one q show ?thesis by (simp add: lldp_fuel_def)
  qed
  with calm' show ?thesis by simp
qed

interpretation lldp_traffic: dying_traffic "lldp_calm C P" "lldp_frame C P True" "lldp_fuel C P" for C P
proof
  show "lldp_calm C P g \<Longrightarrow> gr_queue g \<noteq> [] \<Longrightarrow>
      lldp_calm C P (deliver_one g) \<and> lldp_fuel C P (deliver_one g) < lldp_fuel C P g" for g
    by (rule lldp_step)
  show "lldp_calm C P (emitNodeEvent n p a r g)" if "lldp_calm C P g" for n p a r g
    using that ok_emit [of g n p a r] same_net_names [of g "emitNodeEvent n p a r g"]
    by (simp add: lldp_calm_def)
  show "lldp_calm C P g'" if "lldp_calm C P g" "lldp_frame C P True f" "transport_enqueue x f g = Inr g'" for g x f g'
    using that ok_enqueue [of g x f g'] same_net_names [of g g']
    by (auto simp: lldp_calm_def transport_enqueue_def udp_enqueue_def split: option.splits if_splits FrameTransport.splits)
qed

text \<open>Shutdown advertisements are never answered.\<close>

definition shutdown_only :: "Graph \<Rightarrow> bool" where
  "shutdown_only g \<longleftrightarrow> (\<forall>q\<in>set (gr_queue g). lldp_frame UNIV UNIV False (snd q))"

interpretation shutdown_traffic:
  dying_traffic shutdown_only "lldp_frame UNIV UNIV False" "\<lambda>g. length (gr_queue g)"
proof
  fix g :: Graph assume calm: "shutdown_only g" and "gr_queue g \<noteq> []"
  then obtain n i f qs where q: "gr_queue g = ((n, i), f) # qs" by (cases "gr_queue g") auto
  obtain node b es where d: "deliverTransportFrame (env_of g n) i f (gr_nodes g ! n, gr_budget g) = ((node, b), es)"
    by (metis surj_pair)
  have "lldp_frame UNIV UNIV False f" using calm q by (simp add: shutdown_only_def)
  from deliver_lldp [OF this _ d] have s: "sends es = []" by (simp add: names_in_def)
  let ?g = "set_node n node (g\<lparr>gr_queue := qs, gr_budget := b\<rparr>)"
  have e: "deliver_one g = enqueue_effects n es ?g" by (simp add: deliver_one_def q d)
  have "gr_queue ?g = qs" by (simp add: set_node_def)
  with enqueue_effects_bound [of n es ?g] s calm q
  show "shutdown_only (deliver_one g) \<and> length (gr_queue (deliver_one g)) < length (gr_queue g)"
    unfolding e shutdown_only_def by fastforce
qed (auto simp: shutdown_only_def transport_enqueue_def udp_enqueue_def split: option.splits if_splits FrameTransport.splits)

text \<open>So advertising, and ceasing to advertise, comes back.\<close>

lemma advertisements_frames:
  assumes "names_in C P node"
  shows "\<forall>x\<in>set (sends (sendAdvertisementsWithTTL env node ttl)). lldp_frame C P (ttl \<noteq> 0) (snd x)"
proof -
  have "sends (concat (map (\<lambda>i. sendLLDPAdvertisement env node i ttl) is)) =
      concat (map (\<lambda>i. sends (sendLLDPAdvertisement env node i ttl)) is)" for "is"
    by (induction "is") simp_all
  then show ?thesis using advertisement_frames [OF assms, of env _ ttl]
    by (auto simp: sendAdvertisementsWithTTL_def)
qed

lemma advertising_returns:
  assumes g: "graph_ok g" "idle g" "n < length (gr_nodes g)"
    and r: "\<And>env node. node_ok node \<Longrightarrow> ok_result env node (f env node)"
    and s: "\<And>env node C P x. names_in C P node \<Longrightarrow> x \<in> set (sends (snd (f env node))) \<Longrightarrow> lldp_frame C P True (snd x)"
  shows "\<exists>g'. run_on n f g = Some g'"
proof -
  let ?C = "chassis_names g" and ?P = "port_names g"
  obtain node es where f: "f (env_of g n) (gr_nodes g ! n) = (node, es)" by fastforce
  have "node_ok node \<and> same_config (gr_nodes g ! n) node"
    using r [OF graph_ok_node [OF g(1,3)], of "env_of g n"] f by (simp add: ok_result_def)
  with ok_set_node [OF g(1) _ _ g(3)] have ok: "graph_ok (set_node n node g)" "same_net g (set_node n node g)" by simp_all
  have "lldp_calm ?C ?P (set_node n node g)"
    using ok(1) same_net_names [OF ok(2)] g(2) by (simp add: lldp_calm_def idle_def) (simp add: set_node_def)
  from lldp_traffic.run_on_returns [of f g n node es, OF f this] s [OF names_of_node [OF g(3)], of _ "env_of g n"] f
  show ?thesis by (metis snd_conv)
qed

lemma start_lldp_returns:
  "graph_ok g \<Longrightarrow> idle g \<Longrightarrow> n < length (gr_nodes g) \<Longrightarrow> \<exists>g'. run_on n StartLLDP g = Some g'"
  "graph_ok g \<Longrightarrow> idle g \<Longrightarrow> n < length (gr_nodes g) \<Longrightarrow>
     \<exists>g'. run_on n (\<lambda>env node. (node, SendAdvertisements env node)) g = Some g'"
proof -
  have t: "LLDP_DEFAULT_TTL \<noteq> 0" by (simp add: LLDP_DEFAULT_TTL_def)
  have a: "x \<in> set (sends (SendAdvertisements env node)) \<Longrightarrow> names_in C P node \<Longrightarrow> lldp_frame C P True (snd x)" for env node C P x
    using advertisements_frames [of C P node env LLDP_DEFAULT_TTL] t by (auto simp: SendAdvertisements_def split: if_splits)
  assume g: "graph_ok g" "idle g" "n < length (gr_nodes g)"
  show "\<exists>g'. run_on n StartLLDP g = Some g'"
  proof (rule advertising_returns [OF g])
    fix env node C P x assume "names_in C P node" "x \<in> set (sends (snd (StartLLDP env node)))"
    then show "lldp_frame C P True (snd x)"
      by (auto simp: StartLLDP_def Let_def names_in_def intf_of_def split: if_splits intro!: a)
  qed (rule ok_lldp_ops)
  show "\<exists>g'. run_on n (\<lambda>env node. (node, SendAdvertisements env node)) g = Some g'"
    by (rule advertising_returns [OF g]) (simp_all add: ok_lldp_ops a)
qed

lemma idle_stop_lldp [returning]: "returns idle (run_on n StopLLDP)"
proof (rule returnsI)
  fix g :: Graph assume g: "idle g"
  obtain node es where f: "StopLLDP (env_of g n) (gr_nodes g ! n) = (node, es)" by fastforce
  have "shutdown_only (set_node n node g)" using g by (simp add: shutdown_only_def idle_def set_node_def)
  moreover have "\<forall>x\<in>set (sends es). lldp_frame UNIV UNIV False (snd x)"
    using f advertisements_frames [of UNIV UNIV "gr_nodes g ! n" "env_of g n" 0]
    by (auto simp: StopLLDP_def names_in_def split: if_splits)
  ultimately have "\<exists>g'. run_on n StopLLDP g = Some g'" using shutdown_traffic.run_on_returns [of StopLLDP g n node es, OF f] by blast
  with idle_after [OF quiet_run_on g] show "\<exists>g'. run_on n StopLLDP g = Some g' \<and> idle g'" by blast
qed

lemma idle_cleanup_node [returning]: "returns idle (cleanup_node n)"
  unfolding cleanup_node_def
  by (intro returning) (simp_all add: node_stop_rip_def node_stop_stp_def case_prod_beta)

lemma idle_cleanup [returning]: "returns idle cleanup_graph_resources"
proof (rule returnsI)
  fix g :: Graph assume "idle g"
  then have stop: "idle (graph_Stop g)" by (simp add: idle_def graph_Stop_def)
  have "returns idle (for_each cleanup_node [0..<length (gr_nodes g)])" by (intro returning)
  from returnsD [OF this stop] obtain h where "for_each cleanup_node [0..<length (gr_nodes g)] (graph_Stop g) = Some h" "idle h"
    by blast
  then show "\<exists>g'. cleanup_graph_resources g = Some g' \<and> idle g'"
    by (simp add: cleanup_graph_resources_def idle_def graph_Close_def transport_Close_def split: FrameTransport.split)
qed

end
