(* ===== verification/Answers.thy ===== *)
theory Answers
  imports Settle
begin

text \<open>
  Loading a topology always comes back, with a network or an error, and so does every request to the
  simulator but the echo requests, whose frames a storm may keep in flight for ever.
\<close>

definition answers :: "'a option \<Rightarrow> bool" where "answers r \<longleftrightarrow> r \<noteq> None"

named_theorems answering "steps that come back"

lemma answers_simps [simp]: "answers (Some x)" "\<not> answers None" "answers (map_option f r) \<longleftrightarrow> answers r"
  by (simp_all add: answers_def)

lemma answers_returns: "returns P f \<Longrightarrow> P g \<Longrightarrow> answers (f g)"
  by (auto simp: returns_def answers_def)

lemma answersI: "\<exists>x. r = Some x \<Longrightarrow> answers r"
  by (auto simp: answers_def)

section \<open>Loading a topology\<close>

lemma answers_then:
  assumes "answers r" "fine k r" "\<And>g. built k g \<Longrightarrow> answers (f g)" shows "answers (build_then r f)"
proof (cases r)
  case (Some x)
  then show ?thesis using assms(2,3) by (cases x) (auto simp: build_then_def)
qed (use assms(1) in simp)

lemma answers_each:
  assumes "built k g" "\<And>x g. x \<in> set xs \<Longrightarrow> built k g \<Longrightarrow> answers (f x g)" "\<And>x g. x \<in> set xs \<Longrightarrow> built k g \<Longrightarrow> fine k (f x g)"
  shows "answers (build_each f xs g)"
  using assms
proof (induction xs arbitrary: g)
  case (Cons x xs)
  then show ?case by (auto intro: answers_then [of _ k])
qed simp

lemma answers_parts [answering]:
  "answers (build_interface n i g)" "answers (build_vlan_interface n v g)" "answers (build_route n r g)"
  "answers (build_link config l g)" "answers (configure_interface n i g)"
  by (auto simp: build_interface_def build_vlan_interface_def build_route_def build_link_def configure_interface_def
      or_fail_def set_port_mode_def case_prod_beta Let_def split: sum.split option.split)

lemma answers_all:
  assumes "\<And>x g. answers (f x g)" shows "answers (build_each f xs g)"
proof (induction xs arbitrary: g)
  case (Cons x xs)
  show ?case
  proof (cases "f x g")
    case (Some r)
    with Cons show ?thesis by (cases r) (auto simp: build_then_def)
  qed (use assms [of x g] in simp)
qed simp

lemma answers_then_all: "answers r \<Longrightarrow> (\<And>g. answers (f g)) \<Longrightarrow> answers (build_then r f)"
  by (cases r) (auto simp: build_then_def split: sum.split)

lemma answers_node [answering]: "answers (build_node config g)" "answers (configure_node topology c g)"
  by (auto simp: build_node_def configure_node_def Let_def intro!: answers_then_all answers_all answering split: option.split)

lemma built_idle: "built k g \<Longrightarrow> idle g"
  by (simp add: built_def idle_def)

lemma answers_stp [answering]:
  assumes "built k g" "k = length (tc_Nodes config)" shows "answers (build_stp config c g)"
proof (cases "node_map config (nc_Name c)")
  case (Some n)
  with assms(2) have n: "n < k" by (simp add: node_map_less)
  have start: "answers (returned (graph_start_stp n h))" if "built k h" for h
    using answers_returns [OF idle_stp(4) built_idle [OF that]] by (simp add: returned_def)
  have "\<exists>g'. fst (graph_set_priority n p g) = Some g'" for p
    using returnsD [OF idle_stp(5) built_idle [OF assms(1)]] by blast
  then have "answers (build_priority n p g)" for p
    by (auto simp: build_priority_def or_fail_def split: option.split prod.split) (metis fst_conv option.distinct(1))
  with start show ?thesis
    by (auto simp: build_stp_def Some intro!: answers_then [of _ k] fine_priority assms(1) n)
qed (simp add: build_stp_def)

lemma answers_lldp [answering]:
  assumes "built k g" "k = length (tc_Nodes config)" shows "answers (build_lldp config c g)"
proof -
  have "answers (returned (run_on n StartLLDP g))" if "n < length (gr_nodes g)" for n
    using start_lldp_returns(1) [OF builtD(1) [OF assms(1)] built_idle [OF assms(1)] that]
    by (auto simp: returned_def intro: answersI)
  with assms show ?thesis
    by (auto simp: build_lldp_def built_def split: option.split dest!: node_map_less)
qed

lemma answers_settle: "idle g \<Longrightarrow> answers (returned (ConvergeSpanningTree g))"
  using answers_returns [OF idle_ConvergeSpanningTree] by (simp add: returned_def)

lemma answers_build:
  assumes "\<forall>c\<in>set (tc_Nodes config). \<forall>i\<in>set (nc_Interfaces c). valid_name (ic_Name i)"
  shows "answers (build_graph_from_config_with_transport config transport counter now)"
proof -
  let ?g = "empty_topology config transport counter now" and ?k = "length (tc_Nodes config)"
  have "built 0 ?g" by (simp add: built_def)
  from fine_nodes [OF this assms] have nodes: "fine ?k (build_each build_node (tc_Nodes config) ?g)" by simp
  have settle: "fine ?k (returned (ConvergeSpanningTree g))" if "built ?k g" for g
    by (intro fine_good [OF that] good_ConvergeSpanningTree quietD [OF quiet_ConvergeSpanningTree] builtD(1,2) [OF that])
  have a: "answers (build_each build_node (tc_Nodes config) ?g)" by (intro answers_all answering)
  show ?thesis
    unfolding build_graph_from_config_with_transport_def
    by (auto intro!: answers_then [OF a nodes] answers_then [of _ ?k] answers_each [of ?k] fine_each settle answers_settle
        fine_link fine_configure_node fine_stp fine_lldp answering built_idle)
qed

lemma load_topology_answers:
  assumes "\<forall>c\<in>set (tc_Nodes config). \<forall>i\<in>set (nc_Interfaces c). NUL \<notin> set (ic_Name i)"
  shows "answers (load_topology_with_transport config transport counter now)"
proof (cases "validate_topology_config config")
  case None
  have v: "\<forall>c\<in>set (tc_Nodes config). \<forall>i\<in>set (nc_Interfaces c). valid_name (ic_Name i)"
    using validated_names(1) [OF None] assms by (simp add: valid_name_def node_names_ok_def)
  have clean: "answers (cleanup_graph_resources h)" if "gr_queue h = []" for h
    using answers_returns [OF idle_cleanup] that by (simp add: idle_def)
  show ?thesis
  proof (cases "build_graph_from_config_with_transport config transport counter now")
    case (Some r)
    with fine_build [OF v, of transport counter now] clean None show ?thesis
      by (cases r) (auto simp: load_topology_with_transport_def fine_def answers_def split: option.split)
  qed (use answers_build [OF v, of transport counter now] in simp)
qed (simp add: load_topology_with_transport_def)

section \<open>Requests\<close>

lemma resting_idle: "resting g \<Longrightarrow> idle g"
  by (simp add: resting_def idle_def)

lemma answers_with_graph:
  assumes "sim_ok s" "\<And>g. resting g \<Longrightarrow> answers (f g)" shows "answers (with_graph s f)"
proof (cases "sm_graph s")
  case (Some g)
  with assms(1) have "resting g" by (simp add: sim_ok_def)
  from assms(2) [OF this] Some show ?thesis by (cases "f g") (auto simp: with_graph_def)
qed (simp add: with_graph_def)

lemma answers_yields [simp]: "answers (yields r f) \<longleftrightarrow> answers r"
  by (cases r) (simp_all add: yields_def)

lemma answers_after [simp]: "answers (after r) \<longleftrightarrow> answers r"
  by (simp add: after_def)

lemma answers_named:
  assumes "\<And>n. n < length (gr_nodes g) \<Longrightarrow> answers (f n g)" shows "answers (on_named_node name f g)"
  using assms by (auto simp: on_named_node_def dest!: findGraphNode_Some split: option.split)

lemma answers_captured:
  assumes "\<And>h. resting h \<Longrightarrow> answers (f h)" "resting g" shows "answers (captured protocols f g)"
  using assms(1) [of "g\<lparr>gr_capture := beginCapture protocols (gr_capture g)\<rparr>"] assms(2)
  by (auto simp: captured_def case_prod_beta Let_def answers_def split: option.split)

lemma answers_lldp_round: "resting g \<Longrightarrow> answers (lldp_round g)"
proof -
  let ?f = "\<lambda>n. run_on n (\<lambda>env node. (node, SendAdvertisements env node))"
  assume g: "resting g"
  have "returns (built k) (?f n)" if "n < k" for n k
  proof (rule returnsI)
    fix h assume h: "built k h"
    then have len: "n < length (gr_nodes h)" using that by (simp add: built_def)
    from start_lldp_returns(2) [OF builtD(1) [OF h] built_idle [OF h] len] obtain h' where h': "?f n h = Some h'" by blast
    have "good h (?f n h)" "ends (?f n h)"
      using h len by (auto simp: built_def intro!: good_run_on ok_lldp_ops quietD [OF quiet_run_on])
    with h h' show "\<exists>g'. ?f n h = Some g' \<and> built k g'" by (auto simp: built_def dest: same_net_length)
  qed
  then have "returns (built (length (gr_nodes g))) (for_each ?f [0..<length (gr_nodes g)])"
    by (intro returns_for_each) simp
  from answers_returns [OF this, of g] g have "answers (for_each ?f [0..<length (gr_nodes g)] g)"
    by (simp add: built_def resting_def)
  then show ?thesis by (auto simp: lldp_round_def answers_def)
qed

lemma answers_change:
  assumes "resting g" shows "answers (and_then (graph_start_stp n g) ConvergeSpanningTree)"
    "answers (and_then (run_on n (\<lambda>_. node_stop_stp) g) ConvergeSpanningTree)"
    "answers (and_then (fst (graph_set_priority n p g)) ConvergeSpanningTree)" "answers (change_link k u g)"
proof -
  note i = resting_idle [OF assms]
  have stop: "returns idle (run_on n (\<lambda>_. node_stop_stp))"
    by (intro returning) (simp add: node_stop_stp_def)
  show "answers (and_then (graph_start_stp n g) ConvergeSpanningTree)"
    "answers (and_then (run_on n (\<lambda>_. node_stop_stp) g) ConvergeSpanningTree)"
    "answers (and_then (fst (graph_set_priority n p g)) ConvergeSpanningTree)" "answers (change_link k u g)"
    using answers_returns [OF returns_and_then [OF idle_stp(4) idle_ConvergeSpanningTree] i]
      answers_returns [OF returns_and_then [OF stop idle_ConvergeSpanningTree] i]
      answers_returns [OF returns_and_then [OF idle_stp(5) idle_ConvergeSpanningTree] i]
      answers_returns [OF idle_change_link i] by simp_all
qed

definition echo_request :: "request \<Rightarrow> bool" where
  "echo_request q \<longleftrightarrow>
     (case q of PingRequest _ _ \<Rightarrow> True | TracePingRequest _ _ \<Rightarrow> True | TracerouteRequest _ _ _ \<Rightarrow> True
      | TraceTracerouteRequest _ _ _ \<Rightarrow> True | _ \<Rightarrow> False)"

lemma answers_retire: "sim_ok s \<Longrightarrow> answers (retire_graph s)"
  using answers_returns [OF idle_cleanup] by (auto simp: retire_graph_def sim_ok_def resting_idle split: option.split)

lemma answers_load:
  assumes "sim_ok s" "clean_names parse" shows "answers (loadTopologyLocked parse yaml s)"
proof (cases "parse yaml")
  case (Some config)
  note clean = spec [OF spec [OF assms(2) [unfolded clean_names_def]], of yaml config, rule_format, OF Some]
  have "answers (load_topology config (counter_of s) (now_of s))"
    using clean by (intro load_topology_answers) blast
  moreover have "answers (cleanup_graph_resources (SetEventSink True g))"
    if "load_topology config (counter_of s) (now_of s) = Some (Inr g)" for g
    using load_topology_ok [OF that] clean answers_returns [OF idle_cleanup, of "SetEventSink True g"]
    by (auto simp: idle_def SetEventSink_def)
  ultimately show ?thesis using answers_retire [OF assms(1)] Some
    by (auto simp: loadTopologyLocked_def Let_def answers_def split: option.split sum.split)
qed (simp add: loadTopologyLocked_def)

lemma serve_answers:
  assumes "sim_ok s" "clean_names parse" "\<not> echo_request q" shows "answers (serve parse q s)"
proof (cases q)
  case (Load yaml)
  with answers_load [OF assms(1,2)] show ?thesis by (simp add: serve_def)
next
  case Restart
  with answers_load [OF assms(1,2)] answers_retire [OF assms(1)] show ?thesis
    by (auto simp: serve_def Reset_def split: option.split)
next
  case LldpRound
  then show ?thesis
    by (auto simp: serve_def TraceLLDP_def intro!: answers_with_graph [OF assms(1)] answers_captured answers_lldp_round)
next
  case (Inspect a)
  then show ?thesis
    by (auto simp: serve_def GetNodeState_def intro!: answers_with_graph [OF assms(1)] answers_named)
next
  case (SwitchLldp a b)
  have "answers (on_named_node a (\<lambda>n. run_on n (if b then StartLLDP else StopLLDP)) g)" if g: "resting g" for g
  proof (rule answers_named)
    fix n assume "n < length (gr_nodes g)"
    with start_lldp_returns(1) [OF restingD(1) [OF g] resting_idle [OF g]] answers_returns [OF idle_stop_lldp resting_idle [OF g]]
    show "answers (run_on n (if b then StartLLDP else StopLLDP) g)" by (auto simp: answers_def)
  qed
  from answers_with_graph [OF assms(1) this] SwitchLldp show ?thesis
    by (simp only: serve_def request.case SetLLDP_def answers_after)
next
  case (SwitchStp a b)
  have "answers (on_named_node a (\<lambda>n g. and_then (if b then graph_start_stp n g else run_on n (\<lambda>_. node_stop_stp) g)
      ConvergeSpanningTree) g)" if "resting g" for g
    using answers_change(1,2) [OF that] by (intro answers_named) simp
  from answers_with_graph [OF assms(1) this] SwitchStp show ?thesis
    by (simp only: serve_def request.case SetSTP_def answers_after)
next
  case (ChangePriority a p)
  then show ?thesis
    using answers_change(3)
    by (auto simp: serve_def SetSTPPriority_def case_prod_beta Let_def intro!: answers_with_graph [OF assms(1)] split: option.split)
next
  case (ChangeLink a b c d u)
  then show ?thesis
    using answers_change(4)
    by (auto simp: serve_def SetLinkState_def intro!: answers_with_graph [OF assms(1)] split: option.split)
qed (use assms(3) in \<open>simp_all add: echo_request_def\<close>)

end
