(* ===== verification/Udp.thy ===== *)
theory Udp
  imports GraphRun
begin

text \<open>
  The receiving side of \<open>UDPTransport\<close> (\<open>src/src/socket.go\<close>).  One monitor per node reads the node's
  socket and hands each frame to its interface, while commands and the monitors of other nodes go on:
  datagrams are read in any order, may be lost, and may come from another process.  A handler runs as
  one step, because the tables it changes are guarded by locks.
\<close>

section \<open>The monitor\<close>

definition ETHERNET_MAX_PAYLOAD :: nat where "ETHERNET_MAX_PAYLOAD = 1500"

definition UDP_BUFFER_SIZE :: nat where
  "UDP_BUFFER_SIZE = IF_NAME_SIZE + VLAN_HEADER_SIZE + ETHERNET_MAX_PAYLOAD"

text \<open>A frame for the interface \<open>x\<close>, handled by its node.\<close>

definition receive_frame :: "intf_id \<Rightarrow> bytes \<Rightarrow> Graph \<Rightarrow> Graph" where
  "receive_frame x frame g =
     (let ((node, budget), es) =
            deliverTransportFrame (env_of g (fst x)) (snd x) frame (gr_nodes g ! fst x, gr_budget g)
      in enqueue_effects (fst x) es (set_node (fst x) node (g\<lparr>gr_budget := budget\<rparr>)))"

text \<open>One turn of the loop of \<open>monitor\<close>: a read longer than the buffer is cut by the system.\<close>

definition monitor_read :: "nat \<Rightarrow> bytes \<Rightarrow> Graph \<Rightarrow> Graph" where
  "monitor_read n datagram g =
     (let buffer = take UDP_BUFFER_SIZE datagram;
          intfName = byteArrayString (bytes_string (take IF_NAME_SIZE buffer))
      in if length buffer \<le> IF_NAME_SIZE then g
         else case node_get_matching_intf_by_name (nd_intf (gr_nodes g ! n)) intfName of
           None \<Rightarrow> g
         | Some i \<Rightarrow> receive_frame (n, i) (drop IF_NAME_SIZE buffer) g)"

inductive udp_step :: "Graph \<Rightarrow> Graph \<Rightarrow> bool" where
  command: "command_ok c \<Longrightarrow> exec c g = Some g' \<Longrightarrow> udp_step g g'"
| start: "graph_Start g = Inr g' \<Longrightarrow> udp_step g g'"
| stop: "udp_step g (graph_Stop g)"
| receive: "gr_started g \<Longrightarrow> n < length (gr_nodes g) \<Longrightarrow> gr_datagrams g = before_it @ (n, datagram) # after_it \<Longrightarrow>
    udp_step g (monitor_read n datagram (g\<lparr>gr_datagrams := before_it @ after_it\<rparr>))"
| lost: "gr_datagrams g = before_it @ d # after_it \<Longrightarrow> udp_step g (g\<lparr>gr_datagrams := before_it @ after_it\<rparr>)"
| foreign: "udp_step g (g\<lparr>gr_datagrams := gr_datagrams g @ [(n, datagram)]\<rparr>)"

inductive_cases udp_stepE: "udp_step g g'"

section \<open>What every interleaving keeps\<close>

lemma env_of_queue [simp]: "env_of (g\<lparr>gr_queue := q\<rparr>) n = env_of g n"
  by (simp add: env_of_def remote_of_def cong: option.case_cong)

lemma deliver_one_receive:
  "gr_queue g = (x, frame) # rest \<Longrightarrow> deliver_one g = receive_frame x frame (g\<lparr>gr_queue := rest\<rparr>)"
  by (cases x) (simp add: deliver_one_def receive_frame_def)

lemma ok_receive_frame:
  assumes "graph_ok g" "fst x < length (gr_nodes g)"
  shows "graph_ok (receive_frame x frame g) \<and> same_net g (receive_frame x frame g)"
proof -
  obtain n i where x: "x = (n, i)" by fastforce
  obtain node b es where d: "deliverTransportFrame (env_of g n) i frame (gr_nodes g ! n, gr_budget g) = ((node, b), es)"
    by (metis surj_pair)
  have r: "node_ok node" "same_config (gr_nodes g ! n) node"
    using ok_deliver [of "(gr_nodes g ! n, gr_budget g)" "env_of g n" i frame] graph_ok_node [OF assms(1)] assms(2) d x
    by (simp_all add: ok_stp_def ok_result_def)
  let ?g = "g\<lparr>gr_budget := b\<rparr>"
  from ok_set_node [of ?g node n] r assms x have s: "graph_ok (set_node n node ?g)" "same_net ?g (set_node n node ?g)"
    by simp_all
  from ok_enqueue_effects [OF s(1), of n es] same_net_trans [OF s(2)] show ?thesis
    by (simp add: receive_frame_def x d same_net_def)
qed

lemma ok_monitor_read:
  "graph_ok g \<Longrightarrow> n < length (gr_nodes g) \<Longrightarrow> graph_ok (monitor_read n datagram g)"
  using ok_receive_frame [of g "(n, _)"] by (auto simp: monitor_read_def Let_def split: option.split)

lemma udp_step_ok:
  assumes "udp_step g g'" "graph_ok g" shows "graph_ok g'"
  using assms
proof (cases rule: udp_step.cases)
  case (receive n before_it datagram after_it)
  with ok_monitor_read [of "g\<lparr>gr_datagrams := before_it @ after_it\<rparr>" n datagram] assms(2) show ?thesis by simp
qed (auto simp: exec_ok graph_Start_def graph_Stop_def split: if_splits)

interpretation udp: machine "\<lambda>g. \<exists>nm c t. g = create_new_graph_with_transport nm UDPTransport c t" udp_step graph_ok
  by unfold_locales (auto intro: udp_step_ok)

section \<open>A datagram finds its interface\<close>

lemma if_by_name_loop_unique:
  assumes "j < length intfs" "intfs ! j = Some b" "get_interface_name b = nm"
    "\<And>k a. k < length intfs \<Longrightarrow> intfs ! k = Some a \<Longrightarrow> get_interface_name a = nm \<Longrightarrow> k = j"
  shows "if_by_name_loop i intfs nm = Some (i + j)"
proof -
  obtain k where k: "if_by_name_loop i intfs nm = Some k"
    using assms(1-3) if_by_name_loop_None [of i intfs nm] by (metis nth_mem not_Some_eq)
  from if_by_name_loop_Some [OF k] obtain a where
    "i \<le> k" "k < i + length intfs" "intfs ! (k - i) = Some a" "get_interface_name a = nm" by blast
  with assms(4) [of "k - i" a] have "k = i + j" by auto
  with k show ?thesis by simp
qed

lemma get_node_if_by_name_unique:
  assumes "node_ok node" "intf_of node i = Some intf"
  shows "node_get_matching_intf_by_name (nd_intf node) (get_interface_name intf) = Some i"
proof -
  have i: "i < length (nd_intf node)" "nd_intf node ! i = Some intf"
    using assms(2) by (auto simp: intf_of_def intf_at_def split: if_splits)
  have u: "names_unique (nd_intf node)" using assms(1) by (simp add: node_ok_def intf_names_ok_def)
  have "k = i" if "k < length (nd_intf node)" "nd_intf node ! k = Some a"
    "get_interface_name a = get_interface_name intf" for k a
    using u that i unfolding names_unique_def intf_at_def by (metis (mono_tags))
  from if_by_name_loop_unique [OF i refl this]
  have "if_by_name_loop 0 (nd_intf node) (get_interface_name intf) = Some i" by simp
  moreover have "get_interface_name intf \<noteq> []"
    using intf_of_name_ok [OF assms] by (simp add: valid_name_def)
  ultimately show ?thesis by (simp add: node_get_matching_intf_by_name_def get_node_if_by_name_def)
qed

text \<open>
  What the monitor does with a datagram for one of its interfaces: the frame arrives there, cut to
  what the buffer holds.
\<close>

lemma monitor_read_payload:
  assumes "node_ok (gr_nodes g ! n)" "intf_of (gr_nodes g ! n) i = Some intf" "frame \<noteq> []"
  shows "monitor_read n (udp_payload intf frame) g = receive_frame (n, i) (take (VLAN_HEADER_SIZE + ETHERNET_MAX_PAYLOAD) frame) g"
proof -
  let ?nm = "get_interface_name intf"
  have v: "valid_name ?nm" by (rule intf_of_name_ok [OF assms(1,2)])
  let ?array = "string_bytes (name_array IF_NAME_SIZE ?nm)"
  have l: "length ?array = IF_NAME_SIZE" by (simp add: name_array_def)
  have t: "take UDP_BUFFER_SIZE (udp_payload intf frame) = ?array @ take (VLAN_HEADER_SIZE + ETHERNET_MAX_PAYLOAD) frame"
    using l by (simp add: udp_payload_def UDP_BUFFER_SIZE_def)
  have "byteArrayString (bytes_string (take IF_NAME_SIZE (?array @ ys))) = ?nm" for ys
    using l v by (simp add: valid_name_def)
  with get_node_if_by_name_unique [OF assms(1,2)] l assms(3) show ?thesis
    unfolding monitor_read_def t Let_def by (simp add: VLAN_HEADER_SIZE_def min_def)
qed

lemma udp_send_receive:
  assumes ok: "graph_ok g" and udp: "gr_transport g = UDPTransport" "\<not> gr_transport_closed g"
    and send: "intf_in (gr_nodes g) x = Some intf" "IsUp (gr_links g) (link intf)" "remote_of g x = Some y"
    and frame: "frame \<noteq> []" "length frame + IF_NAME_SIZE \<le> UDP_MAX_PAYLOAD"
  shows "\<exists>d. transport_enqueue x frame g = Inr (g\<lparr>gr_datagrams := gr_datagrams g @ [(fst y, d)]\<rparr>) \<and>
    (\<forall>h. same_net g h \<longrightarrow> graph_ok h \<longrightarrow>
       monitor_read (fst y) d h = receive_frame y (take (VLAN_HEADER_SIZE + ETHERNET_MAX_PAYLOAD) frame) h)"
proof -
  have "linked (gr_nodes g) y \<noteq> None" using remote_of_Some [OF _ send(3)] ok by (simp add: graph_ok_def)
  then obtain remote where remote: "intf_in (gr_nodes g) y = Some remote" by (auto simp: linked_def split: option.splits)
  have "length (udp_payload remote frame) \<le> UDP_MAX_PAYLOAD"
    using frame(2) by (simp add: udp_payload_def name_array_def)
  then have e: "transport_enqueue x frame g = Inr (g\<lparr>gr_datagrams := gr_datagrams g @ [(fst y, udp_payload remote frame)]\<rparr>)"
    using udp send remote by (simp add: transport_enqueue_def udp_enqueue_def)
  have "monitor_read (fst y) (udp_payload remote frame) h = receive_frame y (take (VLAN_HEADER_SIZE + ETHERNET_MAX_PAYLOAD) frame) h"
    if "same_net g h" "graph_ok h" for h
  proof -
    have "intf_in (gr_nodes h) y = Some remote" using remote same_net_intf [OF that(1)] by simp
    then have "fst y < length (gr_nodes h)" "intf_of (gr_nodes h ! fst y) (snd y) = Some remote"
      by (auto simp: intf_in_def split: if_splits)
    with monitor_read_payload [OF graph_ok_node [OF that(2)] _ frame(1)] show ?thesis by (metis prod.collapse)
  qed
  with e show ?thesis by blast
qed

section \<open>Operations over UDP\<close>

text \<open>A send hands over a datagram and returns: no operation on a node waits for the network.\<close>

definition over_udp :: "Graph \<Rightarrow> bool" where
  "over_udp g \<longleftrightarrow> gr_transport g = UDPTransport \<and> gr_queue g = []"

lemma over_udp_simps [simp]:
  "over_udp (emitNodeEvent n p a r g) \<longleftrightarrow> over_udp g" "over_udp (set_node n node g) \<longleftrightarrow> over_udp g"
  "over_udp (g\<lparr>gr_datagrams := ds\<rparr>) \<longleftrightarrow> over_udp g" "over_udp (g\<lparr>gr_budget := b\<rparr>) \<longleftrightarrow> over_udp g"
  by (simp_all add: over_udp_def set_node_def)

lemma udp_enqueue_over: "udp_enqueue y f g = Inr g' \<Longrightarrow> over_udp g \<Longrightarrow> over_udp g'"
  by (auto simp: udp_enqueue_def split: option.splits if_splits)

lemma transport_enqueue_over: "transport_enqueue x f g = Inr g' \<Longrightarrow> over_udp g \<Longrightarrow> over_udp g'"
  using udp_enqueue_over by (auto simp: transport_enqueue_def over_udp_def split: option.splits if_splits FrameTransport.splits)

lemma perform_over_udp: "over_udp g \<Longrightarrow> \<exists>g'. perform n es g = Some g' \<and> over_udp g'"
proof (induction es arbitrary: g)
  case (Cons e es)
  have "\<exists>g1. perform_effect n e g = Some g1 \<and> over_udp g1"
  proof (cases e)
    case (Send i f)
    show ?thesis
    proof (cases "transport_enqueue (n, i) f g")
      case (Inr h)
      from transport_enqueue_over [OF this Cons.prems] have "over_udp h" .
      then show ?thesis by (simp add: Send Inr perform_effect_def drain_def while_option_unfold over_udp_def)
    qed (simp add: Send perform_effect_def transport_failed_def Cons.prems)
  qed (simp add: perform_effect_def Cons.prems)
  with Cons.IH show ?case by fastforce
qed simp

lemma run_on_over_udp: "over_udp g \<Longrightarrow> \<exists>g'. run_on n f g = Some g' \<and> over_udp g'"
  using perform_over_udp [of "set_node n (fst (f (env_of g n) (gr_nodes g ! n))) g" n] by (simp add: run_on_def case_prod_beta)

text \<open>A network never changes its transport.\<close>

lemma good_transport: "good g r \<Longrightarrow> r = Some g' \<Longrightarrow> gr_transport g' = gr_transport g"
  by (simp add: good_def same_net_def)

lemma change_link_transport:
  assumes "graph_ok g" "change_link k b g = Some g'" shows "gr_transport g' = gr_transport g"
proof (cases "up (gr_links g ! k) = b")
  case False
  let ?g = "(set_link_up k b g)\<lparr>gr_nodes := map (reset_bridge (gr_links (set_link_up k b g))) (gr_nodes g)\<rparr>"
  have l: "linked (map (reset_bridge lks) (gr_nodes g)) = linked (gr_nodes g)" for lks
    by (simp add: linked_map reset_bridge_def)
  have "wired (gr_nodes g) (gr_links ?g)"
    using assms(1) by (simp add: graph_ok_def set_link_up_def wired_set_up)
  then have "wired (gr_nodes ?g) (gr_links ?g)" by (simp add: wired_def l)
  then have "graph_ok ?g"
    using assms(1) by (intro graph_okI [OF _ _ assms(1)])
      (auto simp: l graph_ok_def node_ok_reset_bridge, simp_all add: set_link_up_def)
  have "ConvergeSpanningTree ?g = Some g'" using assms(2) False by (simp add: change_link_def Let_def set_link_up_def)
  from good_transport [OF good_ConvergeSpanningTree [OF \<open>graph_ok ?g\<close>] this] show ?thesis by (simp add: set_link_up_def)
qed (use assms in \<open>simp add: change_link_def\<close>)

lemma cleanup_transport:
  assumes "graph_ok g" "cleanup_graph_resources g = Some g'" shows "gr_transport g' = gr_transport g"
proof -
  have "good (graph_Stop g) (for_each cleanup_node [0..<length (gr_nodes g)] (graph_Stop g))"
    using assms(1) by (intro good_for_each good_cleanup_node) (auto simp: same_net_length graph_Stop_def)
  from good_transport [OF this] assms(2) show ?thesis
    by (auto simp: cleanup_graph_resources_def graph_Close_def transport_Close_def graph_Stop_def split: FrameTransport.split)
qed

definition configures :: "command \<Rightarrow> bool" where
  "configures c \<longleftrightarrow>
     (case c of CreateNode _ \<Rightarrow> True | CreateInterface _ _ \<Rightarrow> True | InsertLink _ _ _ _ _ \<Rightarrow> True | SetLoopback _ _ \<Rightarrow> True
      | SetAddress _ _ _ _ \<Rightarrow> True | SetAccess _ _ _ \<Rightarrow> True | SetTrunk _ _ _ _ \<Rightarrow> True | AddVlan _ _ _ _ \<Rightarrow> True
      | AddStaticRoute _ _ _ _ _ \<Rightarrow> True | Wait _ \<Rightarrow> True | LinkChange _ _ \<Rightarrow> True | Cleanup \<Rightarrow> True | _ \<Rightarrow> False)"

lemma configures_transport:
  assumes "configures c" "graph_ok g" "run_command c g = Some g'" shows "gr_transport g' = gr_transport g"
  using assms
  by (cases c) (auto simp: configures_def run_command_def configure_def only_if_def set_node_def create_graph_node_def
      or_same_def graph_create_interface_def graph_insert_link_def change_link_transport cleanup_transport
      split: sum.splits if_splits)

lemma protocol_good:
  assumes "\<not> configures c" "graph_ok g" "\<forall>n\<in>set (node_of_command c). n < length (gr_nodes g)"
  shows "good g (run_command c g)"
  using assms
  by (cases c) (auto simp: configures_def run_command_def node_of_command_def
      intro!: good_run_on good_send_updates good_triggered good_stp good_stp_tick good_ConvergeSpanningTree
        ok_pings ok_maintain ok_cleanups ok_lldp_ops ok_rip_ops ok_stp_timers)

lemma exec_transport:
  assumes "graph_ok g" "exec c g = Some g'" shows "gr_transport g' = gr_transport g"
proof (cases "\<forall>n\<in>set (node_of_command c). n < length (gr_nodes g)")
  case True
  then have run: "run_command c g = Some g'" using assms(2) by (simp add: exec_def only_if_def)
  show ?thesis
    using configures_transport [OF _ assms(1) run] good_transport [OF protocol_good [OF _ assms(1) True] run] by blast
next
  case False
  then show ?thesis using assms(2) by (auto simp: exec_def only_if_def split: if_splits)
qed

lemma over_udp_exec: "over_udp g \<Longrightarrow> graph_ok g \<Longrightarrow> exec c g = Some g' \<Longrightarrow> over_udp g'"
  using exec_transport [of g c g'] quietD [OF exec_quiet, of g c] by (simp add: over_udp_def)

lemma over_udp_receive: "over_udp g \<Longrightarrow> over_udp (receive_frame x frame g)"
proof -
  have "over_udp (enqueue_effect n e h)" if "over_udp h" for n e h
    using that transport_enqueue_over [of "(n, _)" _ h]
    by (auto simp: enqueue_effect_def transport_failed_def split: eff.split sum.split)
  then have "over_udp (enqueue_effects n es h)" if "over_udp h" for n es h
    using that unfolding enqueue_effects_def by (induction es arbitrary: h) auto
  then show "over_udp g \<Longrightarrow> over_udp (receive_frame x frame g)" by (simp add: receive_frame_def case_prod_beta Let_def)
qed

lemma over_udp_step:
  assumes "udp_step g g'" "graph_ok g" "over_udp g" shows "over_udp g'"
  using assms
proof (cases rule: udp_step.cases)
  case (receive n before_it datagram after_it)
  with over_udp_receive [of "g\<lparr>gr_datagrams := before_it @ after_it\<rparr>"] assms(3)
  show ?thesis by (auto simp: monitor_read_def Let_def split: option.split)
next
  case (command c)
  with over_udp_exec [OF assms(3,2)] show ?thesis by blast
qed (use assms in \<open>auto simp: graph_Start_def graph_Stop_def over_udp_def split: if_splits\<close>)

end
