(* ===== verification/Shell.thy ===== *)
theory Shell
  imports Udp Answers
begin

text \<open>
  The command line of \<open>src/src/main.go\<close>, over the UDP transport it uses.  What a command prints is part
  of its result, a dump being the table it prints.  Splitting a line into words
  and finding the command they name is \<open>cobra\<close>'s, reading a file the system's and decoding YAML the
  decoder's: all three are parameters.  A line is ASCII text.
\<close>

section \<open>Words and numbers\<close>

definition is_space :: "char \<Rightarrow> bool" where
  "is_space c \<longleftrightarrow> (let n = of_char c :: nat in n = 32 \<or> (9 \<le> n \<and> n \<le> 13))"

text \<open>\<open>strings.Fields\<close>: the maximal runs of characters that are not space.\<close>

fun words_of :: "string \<Rightarrow> string \<Rightarrow> string list" where
  "words_of word [] = (if word = [] then [] else [word])"
| "words_of word (c # cs) =
     (if is_space c then (if word = [] then [] else [word]) @ words_of [] cs else words_of (word @ [c]) cs)"

definition strings_Fields :: "string \<Rightarrow> string list" where
  "strings_Fields s = words_of [] s"

definition strings_TrimSpace :: "string \<Rightarrow> string" where
  "strings_TrimSpace s = rev (dropWhile is_space (rev (dropWhile is_space s)))"

definition decimal_value :: "string \<Rightarrow> nat" where
  "decimal_value s = foldl (\<lambda>n c. 10 * n + digit_val c) 0 s"

text \<open>
  \<open>fmt.Sscanf(s, "%d", \&v)\<close> for an unsigned \<open>v\<close> of \<open>w\<close> bits: leading space is skipped, the digits are
  read, what follows them is ignored, and a value that does not fit is an error.
\<close>

definition sscanf_uint :: "nat \<Rightarrow> string \<Rightarrow> nat option" where
  "sscanf_uint w s =
     (let digits = takeWhile is_digit (dropWhile (\<lambda>c. is_space c \<and> c \<noteq> CHR 0x0A) s)
      in if digits = [] then None
         else if decimal_value digits < 2 ^ w then Some (decimal_value digits) else None)"

text \<open>The destination argument of \<open>add-route\<close>.\<close>

definition cidr_argument :: "string \<Rightarrow> string + (string \<times> byte)" where
  "cidr_argument destCIDR =
     (case split_on CHR ''/'' destCIDR of
        [destIP, maskStr] \<Rightarrow>
          (case sscanf_uint 8 maskStr of
             None \<Rightarrow> Inl (''Error: Invalid mask: '' @ maskStr @ '' (must be 0-32)'')
           | Some m \<Rightarrow>
               if m > 32 then Inl (''Error: Invalid mask: '' @ maskStr @ '' (must be 0-32)'')
               else Inr (destIP, word_of_nat m))
      | _ \<Rightarrow> Inl ''Error: Invalid CIDR format. Use: dest-ip/mask (e.g., 192.168.1.0/24)'')"

section \<open>The shell\<close>

record Shell =
  sh_currentTopology :: "Graph option"
  sh_mac_counter :: "64 word"
  sh_now :: int

text \<open>A dump prints what it is given.\<close>

datatype shell_output =
    Printed string
  | DumpedMac string mac_table
  | DumpedRoutes string RoutingTable
  | DumpedArp string "arp_cb arp_table"
  | DumpedRIP string RIPState
  | DumpedLLDP string LLDPState
  | DumpedGraph Graph
  | ShownHelp

type_synonym shell_result = "(Shell \<times> shell_output list) option"

definition quoted :: "string \<Rightarrow> string" where "quoted s = CHR 0x27 # s @ [CHR 0x27]"
definition check_mark :: string where "check_mark = [CHR 0xE2, CHR 0x9C, CHR 0x93]"
definition cross_mark :: string where "cross_mark = [CHR 0xE2, CHR 0x9C, CHR 0x97]"

definition shell_counter :: "Shell \<Rightarrow> 64 word" where
  "shell_counter s = (case sh_currentTopology s of None \<Rightarrow> sh_mac_counter s | Some g \<Rightarrow> gr_mac_counter g)"

definition shell_now :: "Shell \<Rightarrow> int" where
  "shell_now s = (case sh_currentTopology s of None \<Rightarrow> sh_now s | Some g \<Rightarrow> gr_now g)"

text \<open>The shell without a topology; the MAC address counter and the clock go on.\<close>

definition dropped :: "Graph \<Rightarrow> Shell" where
  "dropped g = \<lparr>sh_currentTopology = None, sh_mac_counter = gr_mac_counter g, sh_now = gr_now g\<rparr>"

definition transport_Name :: "FrameTransport \<Rightarrow> string" where
  "transport_Name t = (case t of MemoryTransport \<Rightarrow> ''memory'' | UDPTransport \<Rightarrow> ''udp'')"

definition findCurrentTopologyNode :: "string \<Rightarrow> Shell \<Rightarrow> nat option" where
  "findCurrentTopologyNode nodeName s =
     (case sh_currentTopology s of None \<Rightarrow> None | Some g \<Rightarrow> findGraphNode g nodeName)"

text \<open>The prologue shared by the commands on a node; the older ones print longer messages.\<close>

definition on_shell_node ::
  "bool \<Rightarrow> string \<Rightarrow> (nat \<Rightarrow> Graph \<Rightarrow> (Graph \<times> shell_output list) option) \<Rightarrow> Shell \<Rightarrow> shell_result" where
  "on_shell_node long nodeName f s =
     (case sh_currentTopology s of
        None \<Rightarrow>
          Some (s, [Printed (''Error: No topology loaded.'' @
            (if long then '' Use '' @ quoted ''load topology [filename]'' @ '' first.'' else []))])
      | Some g \<Rightarrow>
          (case findCurrentTopologyNode nodeName s of
             None \<Rightarrow>
               Some (s, [Printed (''Error: Node '' @ quoted nodeName @ '' not found'' @ (if long then '' in topology'' else []))])
           | Some n \<Rightarrow>
               (case f n g of
                  None \<Rightarrow> None
                | Some (g', out) \<Rightarrow> Some (s\<lparr>sh_currentTopology := Some g'\<rparr>, out))))"

definition shows_node :: "bool \<Rightarrow> (Node \<Rightarrow> shell_output) \<Rightarrow> string list \<Rightarrow> Shell \<Rightarrow> shell_result" where
  "shows_node long dump args = on_shell_node long (args ! 0) (\<lambda>n g. Some (g, [dump (gr_nodes g ! n)]))"

text \<open>A node operation followed by its messages.\<close>

definition operates :: "bool \<Rightarrow> string \<Rightarrow> (env \<Rightarrow> Node \<Rightarrow> result) \<Rightarrow> shell_output list \<Rightarrow> Shell \<Rightarrow> shell_result" where
  "operates long nodeName f out =
     on_shell_node long nodeName (\<lambda>n g. map_option (\<lambda>g'. (g', out)) (run_on n f g))"

section \<open>Commands\<close>

definition showNodeMacCmd :: "string list \<Rightarrow> Shell \<Rightarrow> shell_result" where
  "showNodeMacCmd args = shows_node True (\<lambda>node. DumpedMac (args ! 0) (nd_mac node)) args"

definition showNodeRouteCmd :: "string list \<Rightarrow> Shell \<Rightarrow> shell_result" where
  "showNodeRouteCmd args = shows_node True (\<lambda>node. DumpedRoutes (args ! 0) (nd_rt node)) args"

definition showNodeArpCmd :: "string list \<Rightarrow> Shell \<Rightarrow> shell_result" where
  "showNodeArpCmd args = shows_node True (\<lambda>node. DumpedArp (args ! 0) (nd_arp node)) args"

definition showNodeRIPCmd :: "string list \<Rightarrow> Shell \<Rightarrow> shell_result" where
  "showNodeRIPCmd args = shows_node False (\<lambda>node. DumpedRIP (args ! 0) (nd_rip node)) args"

definition showNodeLLDPCmd :: "string list \<Rightarrow> Shell \<Rightarrow> shell_result" where
  "showNodeLLDPCmd args = shows_node False (\<lambda>node. DumpedLLDP (args ! 0) (nd_lldp node)) args"

definition resolveArpCmd :: "string list \<Rightarrow> Shell \<Rightarrow> shell_result" where
  "resolveArpCmd args =
     on_shell_node True (args ! 0) (\<lambda>n g.
       let ip = args ! 1;
           sent = fst (send_arp_broadcast_request (env_of g n) (gr_nodes g ! n) None ip)
       in map_option
            (\<lambda>g'. (g', if sent \<noteq> 0 then [Printed (''Error: Failed to send ARP request for IP '' @ ip)] else []))
            (run_on n (\<lambda>env node. (node, snd (send_arp_broadcast_request env node None ip))) g))"

definition addRouteCmd :: "string list \<Rightarrow> Shell \<Rightarrow> shell_result" where
  "addRouteCmd args =
     on_shell_node True (args ! 0) (\<lambda>n g.
       let nodeName = args ! 0; gatewayIP = args ! 2; oif = args ! 3; node = gr_nodes g ! n in
       if get_node_if_by_name (nd_intf node) oif = None
       then Some (g, [Printed (''Error: Interface '' @ quoted oif @ '' not found on node '' @ nodeName)])
       else case cidr_argument (args ! 1) of
         Inl e \<Rightarrow> Some (g, [Printed e])
       | Inr (destIP, m) \<Rightarrow>
           (let (rt, err) = AddRoute (nd_rt node) destIP m gatewayIP oif;
                g' = set_node n (node\<lparr>nd_rt := rt\<rparr>) g
            in case err of
                 Some e \<Rightarrow> Some (g', [Printed (''Error: Failed to add route: '' @ e)])
               | None \<Rightarrow>
                   Some (g', [Printed (''Successfully added route on node '' @ nodeName @ '': '' @ args ! 1 @
                                       '' via '' @ gatewayIP @ '' ('' @ oif @ '')'')])))"

definition addVlanInterfaceCmd :: "string list \<Rightarrow> Shell \<Rightarrow> shell_result" where
  "addVlanInterfaceCmd args =
     on_shell_node True (args ! 0) (\<lambda>n g.
       let nodeName = args ! 0; vlanIDStr = args ! 1; ipAddr = args ! 2; maskStr = args ! 3;
           bad_vlan = Some (g, [Printed (''Error: Invalid VLAN ID: '' @ vlanIDStr @ '' (must be 1-4094)'')]);
           bad_mask = Some (g, [Printed (''Error: Invalid mask: '' @ maskStr @ '' (must be 0-32)'')])
       in case sscanf_uint 16 vlanIDStr of
            None \<Rightarrow> bad_vlan
          | Some v \<Rightarrow>
              if (word_of_nat v :: u16) < VLAN_MIN \<or> (word_of_nat v :: u16) > VLAN_MAX then bad_vlan
              else case sscanf_uint 8 maskStr of
                None \<Rightarrow> bad_mask
              | Some m \<Rightarrow>
                  if m > 32 then bad_mask
                  else
                    (let (node, success) = AddVlanInterface (gr_nodes g ! n) (word_of_nat v) ipAddr (word_of_nat m);
                         g' = set_node n node g
                     in if \<not> success
                        then Some (g', [Printed (''Error: Failed to add VLAN '' @ dec v @ '' interface to node '' @ nodeName)])
                        else Some (g', [Printed (check_mark @ '' Successfully configured VLAN '' @ dec v @
                                           '' interface on node '' @ nodeName @ '' with IP '' @ ipAddr @ ''/'' @ dec m),
                                        Printed (''  Node '' @ nodeName @ '' can now route between VLANs'')])))"

definition pingCmd :: "string list \<Rightarrow> Shell \<Rightarrow> shell_result" where
  "pingCmd args = operates True (args ! 0) (\<lambda>env. Layer5PingFunc env (args ! 1)) []"

definition eroPingCmd :: "string list \<Rightarrow> Shell \<Rightarrow> shell_result" where
  "eroPingCmd args = operates True (args ! 0) (\<lambda>env. Layer3EroPingFunc env (args ! 1) (args ! 2)) []"

definition enableRIPCmd :: "string list \<Rightarrow> Shell \<Rightarrow> shell_result" where
  "enableRIPCmd args =
     operates False (args ! 0) (\<lambda>_. node_start_rip) [Printed (check_mark @ '' RIP enabled on '' @ args ! 0)]"

definition disableRIPCmd :: "string list \<Rightarrow> Shell \<Rightarrow> shell_result" where
  "disableRIPCmd args =
     operates False (args ! 0) (\<lambda>_. node_stop_rip) [Printed (''RIP disabled on node '' @ args ! 0)]"

definition enableLLDPCmd :: "string list \<Rightarrow> Shell \<Rightarrow> shell_result" where
  "enableLLDPCmd args =
     operates False (args ! 0) StartLLDP [Printed (check_mark @ '' LLDP enabled on '' @ args ! 0)]"

definition disableLLDPCmd :: "string list \<Rightarrow> Shell \<Rightarrow> shell_result" where
  "disableLLDPCmd args =
     operates False (args ! 0) StopLLDP [Printed (''LLDP disabled on node '' @ args ! 0)]"

definition showTopologyCmd :: "Shell \<Rightarrow> shell_result" where
  "showTopologyCmd s =
     (case sh_currentTopology s of
        None \<Rightarrow>
          Some (s, [Printed (''No topology loaded. Use '' @ quoted ''load topology [filename]'' @ '' to load a topology first.'')])
      | Some g \<Rightarrow> Some (s, [Printed (''Displaying topology: '' @ gr_name g), DumpedGraph g]))"

text \<open>\<open>cleanup\<close>: what is loaded is closed and dropped.\<close>

definition cleanup :: "Shell \<Rightarrow> Shell option" where
  "cleanup s =
     (case sh_currentTopology s of
        None \<Rightarrow> Some s | Some g \<Rightarrow> map_option dropped (cleanup_graph_resources g))"

text \<open>A failed load leaves the topology alone, but it has used up MAC addresses.\<close>

definition shell_use_counter :: "64 word \<Rightarrow> Shell \<Rightarrow> Shell" where
  "shell_use_counter c s =
     s\<lparr>sh_mac_counter := c, sh_currentTopology := map_option (\<lambda>g. g\<lparr>gr_mac_counter := c\<rparr>) (sh_currentTopology s)\<rparr>"

definition newDefaultTransport :: FrameTransport where "newDefaultTransport = UDPTransport"

text \<open>\<open>load_topology_from_yaml\<close>, with the counter of MAC addresses a failed load leaves.\<close>

definition load_topology_from_yaml ::
  "(string \<Rightarrow> bytes option) \<Rightarrow> (bytes \<Rightarrow> TopologyConfig option) \<Rightarrow> string \<Rightarrow> 64 word \<Rightarrow> int \<Rightarrow>
    ((string \<times> 64 word) + Graph) option" where
  "load_topology_from_yaml read_file parse filename counter now =
     (case read_file filename of
        None \<Rightarrow> Some (Inl (''failed to read topology file '' @ filename, counter))
      | Some data \<Rightarrow>
          (case parse data of
             None \<Rightarrow> Some (Inl (''failed to parse YAML topology'', counter))
           | Some config \<Rightarrow>
               map_option (map_sum (map_prod id gr_mac_counter) id)
                 (load_topology_with_transport config newDefaultTransport counter now)))"

definition loadTopologyCmd ::
  "(string \<Rightarrow> bytes option) \<Rightarrow> (bytes \<Rightarrow> TopologyConfig option) \<Rightarrow> string list \<Rightarrow> Shell \<Rightarrow> shell_result" where
  "loadTopologyCmd read_file parse args s =
     (let filename = (case args of [] \<Rightarrow> ''topologies/triangle.yaml'' | f # _ \<Rightarrow> f);
          loading = Printed (''Loading topology: '' @ filename @ ''...'')
      in case load_topology_from_yaml read_file parse filename (shell_counter s) (shell_now s) of
           None \<Rightarrow> None
         | Some (Inl (e, c)) \<Rightarrow>
             Some (shell_use_counter c s, [loading, Printed (cross_mark @ '' Error loading topology: '' @ e)])
         | Some (Inr g) \<Rightarrow>
             (case cleanup s of
                None \<Rightarrow> None
              | Some s' \<Rightarrow>
                  (case graph_Start g of
                     Inl e \<Rightarrow>
                       (case cleanup_graph_resources g of
                          None \<Rightarrow> None
                        | Some g' \<Rightarrow>
                            Some (dropped g',
                              [loading, Printed (cross_mark @ '' Error starting topology transport: '' @ e)]))
                   | Inr g1 \<Rightarrow>
                       Some (s'\<lparr>sh_currentTopology := Some g1\<rparr>,
                         [loading, Printed (''Successfully loaded topology: '' @ gr_name g1),
                          Printed (transport_Name (gr_transport g1) @ '' transport started for all nodes'')]))))"

section \<open>The command tree\<close>

datatype cli_command =
    ShowTopology | ShowNodeMac | ShowNodeRoute | ShowNodeArp | ShowNodeRIP | ShowNodeLLDP | LoadTopology
  | ResolveArp | RunAddRoute | RunAddVlanInterface | RunPing | RunEroPing | EnableRIP | DisableRIP
  | EnableLLDP | DisableLLDP | Help

text \<open>The words of each command, from \<open>init\<close> and the \<open>Use\<close> fields.\<close>

definition command_words :: "cli_command \<Rightarrow> string list" where
  "command_words c =
     (case c of
        ShowTopology \<Rightarrow> [''show'', ''topology''] | ShowNodeMac \<Rightarrow> [''show'', ''node'', ''mac'']
      | ShowNodeRoute \<Rightarrow> [''show'', ''node'', ''route''] | ShowNodeArp \<Rightarrow> [''show'', ''node'', ''arp'']
      | ShowNodeRIP \<Rightarrow> [''show'', ''node'', ''rip''] | ShowNodeLLDP \<Rightarrow> [''show'', ''node'', ''lldp'']
      | LoadTopology \<Rightarrow> [''load'', ''topology''] | ResolveArp \<Rightarrow> [''run'', ''node'', ''resolve-arp'']
      | RunAddRoute \<Rightarrow> [''run'', ''node'', ''add-route'']
      | RunAddVlanInterface \<Rightarrow> [''run'', ''node'', ''add-vlan-interface'']
      | RunPing \<Rightarrow> [''run'', ''node'', ''ping''] | RunEroPing \<Rightarrow> [''run'', ''node'', ''ero-ping'']
      | EnableRIP \<Rightarrow> [''run'', ''node'', ''enable-rip''] | DisableRIP \<Rightarrow> [''run'', ''node'', ''disable-rip'']
      | EnableLLDP \<Rightarrow> [''run'', ''node'', ''enable-lldp''] | DisableLLDP \<Rightarrow> [''run'', ''node'', ''disable-lldp'']
      | Help \<Rightarrow> [''help''])"

text \<open>The \<open>Args\<close> fields; \<open>cobra\<close> checks them before it calls \<open>Run\<close>.\<close>

datatype positional_args = ExactArgs nat | MaximumNArgs nat | ArbitraryArgs

definition command_args :: "cli_command \<Rightarrow> positional_args" where
  "command_args c =
     (case c of
        ShowTopology \<Rightarrow> ArbitraryArgs | ShowNodeMac \<Rightarrow> ExactArgs 1 | ShowNodeRoute \<Rightarrow> ExactArgs 1
      | ShowNodeArp \<Rightarrow> ExactArgs 1 | ShowNodeRIP \<Rightarrow> ExactArgs 1 | ShowNodeLLDP \<Rightarrow> ExactArgs 1
      | LoadTopology \<Rightarrow> MaximumNArgs 1 | ResolveArp \<Rightarrow> ExactArgs 2 | RunAddRoute \<Rightarrow> ExactArgs 4
      | RunAddVlanInterface \<Rightarrow> ExactArgs 4 | RunPing \<Rightarrow> ExactArgs 2 | RunEroPing \<Rightarrow> ExactArgs 3
      | EnableRIP \<Rightarrow> ExactArgs 1 | DisableRIP \<Rightarrow> ExactArgs 1 | EnableLLDP \<Rightarrow> ExactArgs 1
      | DisableLLDP \<Rightarrow> ExactArgs 1 | Help \<Rightarrow> ArbitraryArgs)"

definition args_error :: "positional_args \<Rightarrow> nat \<Rightarrow> string option" where
  "args_error a k =
     (case a of
        ExactArgs n \<Rightarrow>
          if k = n then None else Some (''accepts '' @ dec n @ '' arg(s), received '' @ dec k)
      | MaximumNArgs n \<Rightarrow>
          if k \<le> n then None else Some (''accepts at most '' @ dec n @ '' arg(s), received '' @ dec k)
      | ArbitraryArgs \<Rightarrow> None)"

definition run_cli ::
  "(string \<Rightarrow> bytes option) \<Rightarrow> (bytes \<Rightarrow> TopologyConfig option) \<Rightarrow> cli_command \<Rightarrow> string list \<Rightarrow> Shell \<Rightarrow> shell_result" where
  "run_cli read_file parse c args s =
     (case c of
        ShowTopology \<Rightarrow> showTopologyCmd s
      | ShowNodeMac \<Rightarrow> showNodeMacCmd args s
      | ShowNodeRoute \<Rightarrow> showNodeRouteCmd args s
      | ShowNodeArp \<Rightarrow> showNodeArpCmd args s
      | ShowNodeRIP \<Rightarrow> showNodeRIPCmd args s
      | ShowNodeLLDP \<Rightarrow> showNodeLLDPCmd args s
      | LoadTopology \<Rightarrow> loadTopologyCmd read_file parse args s
      | ResolveArp \<Rightarrow> resolveArpCmd args s
      | RunAddRoute \<Rightarrow> addRouteCmd args s
      | RunAddVlanInterface \<Rightarrow> addVlanInterfaceCmd args s
      | RunPing \<Rightarrow> pingCmd args s
      | RunEroPing \<Rightarrow> eroPingCmd args s
      | EnableRIP \<Rightarrow> enableRIPCmd args s
      | DisableRIP \<Rightarrow> disableRIPCmd args s
      | EnableLLDP \<Rightarrow> enableLLDPCmd args s
      | DisableLLDP \<Rightarrow> disableLLDPCmd args s
      | Help \<Rightarrow> Some (s, [ShownHelp]))"

text \<open>
  \<open>executeCommand\<close>.  \<open>cobra\<close> maps the words to a command of the tree and its arguments, or to an error.
\<close>

type_synonym cobra = "string list \<Rightarrow> string + (cli_command \<times> string list)"

definition executeCommand ::
  "cobra \<Rightarrow> (string \<Rightarrow> bytes option) \<Rightarrow> (bytes \<Rightarrow> TopologyConfig option) \<Rightarrow> string \<Rightarrow> Shell \<Rightarrow> shell_result" where
  "executeCommand cobra read_file parse input s =
     (let args = strings_Fields input in
      if args = [] then Some (s, [])
      else case cobra args of
        Inl e \<Rightarrow> Some (s, [Printed (''Error: '' @ e)])
      | Inr (c, rest) \<Rightarrow>
          (case args_error (command_args c) (length rest) of
             Some e \<Rightarrow> Some (s, [Printed (''Error: '' @ e)])
           | None \<Rightarrow> run_cli read_file parse c rest s))"

text \<open>The prompt: what the line editor hands over, and what it does to the shell; None ends the loop.\<close>

datatype prompt = Line string | Aborted | EndOfInput

definition interactive_turn ::
  "cobra \<Rightarrow> (string \<Rightarrow> bytes option) \<Rightarrow> (bytes \<Rightarrow> TopologyConfig option) \<Rightarrow> prompt \<Rightarrow> Shell \<Rightarrow>
    (Shell \<times> shell_output list \<times> bool) option" where
  "interactive_turn cobra read_file parse p s =
     (case p of
        EndOfInput \<Rightarrow> Some (s, [], False)
      | Aborted \<Rightarrow> Some (s, [Printed [], Printed (''Use '' @ quoted ''exit'' @ '' to quit'')], True)
      | Line text \<Rightarrow>
          (let input = strings_TrimSpace text in
           if input = [] then Some (s, [], True)
           else if input = ''exit'' \<or> input = ''quit'' then Some (s, [Printed ''Goodbye!''], False)
           else map_option (\<lambda>(s', out). (s', out, True)) (executeCommand cobra read_file parse input s)))"

end
