(* ===== verification/ShellProofs.thy ===== *)
theory ShellProofs
  imports Shell
begin

text \<open>
  The command line: the numbers it reads, the topology it keeps well formed whatever is typed and
  whatever the network does, and that every line gets an answer, because no command over UDP waits for
  the network.
\<close>

section \<open>Numbers\<close>

lemma decimal_value_snoc [simp]: "decimal_value (s @ [c]) = 10 * decimal_value s + digit_val c"
  by (simp add: decimal_value_def)

lemma decimal_value_dec [simp]: "decimal_value (dec n) = n"
proof (induction n rule: dec.induct)
  case (1 n)
  have "digit_val (digit (n mod 10)) = n mod 10" by (simp add: digit_val_def of_char_digit)
  moreover have "digit_val (digit n) = n" if "n < 10" using that by (simp add: digit_val_def of_char_digit)
  ultimately show ?case using 1 by (subst dec.simps) (auto simp: decimal_value_def)
qed

lemma sscanf_dec:
  assumes "m < 2 ^ w" "rest = [] \<or> \<not> is_digit (hd rest)"
  shows "sscanf_uint w (dec m @ rest) = Some m"
proof -
  have "dropWhile (\<lambda>c. is_space c \<and> c \<noteq> CHR 0x0A) (dec m @ rest) = dec m @ rest"
    using dec_digits [of m] by (cases "dec m") (auto simp: is_space_def is_digit_def Let_def dec_nonempty [of m, simplified])
  moreover have "takeWhile is_digit (dec m @ rest) = dec m"
    using assms(2) dec_digits [of m] by (cases rest) (simp_all add: takeWhile_append2 takeWhile_append)
  ultimately show ?thesis using assms(1) by (simp add: sscanf_uint_def Let_def)
qed

lemma no_slash: "CHR ''/'' \<notin> set (dec m)" "CHR ''/'' \<notin> set (ip_string a)"
proof -
  show d: "CHR ''/'' \<notin> set (dec m)" for m using dec_digits [of m] by (auto simp: is_digit_def)
  show "CHR ''/'' \<notin> set (ip_string a)" by (cases a) (auto simp: d)
qed

lemma cidr_argument_dec:
  assumes "m \<le> 32" "CHR ''/'' \<notin> set rest" "rest = [] \<or> \<not> is_digit (hd rest)"
  shows "cidr_argument (ip_string a @ ''/'' @ dec m @ rest) = Inr (ip_string a, word_of_nat m)"
  using assms sscanf_dec [of m 8 rest]
  by (simp add: cidr_argument_def split_on_append split_on_no_sep no_slash)

text \<open>The command line adds exactly the static route that \<open>AddStaticRoute\<close> adds.\<close>

lemma add_route_command_adds:
  assumes "sh_currentTopology s = Some g" "findGraphNode g nm = Some n"
    "get_node_if_by_name (nd_intf (gr_nodes g ! n)) oif \<noteq> None" "m \<le> 32"
  shows "\<exists>g' out. exec (AddStaticRoute n (ip_string a) (word_of_nat m) gw oif) g = Some g' \<and>
    addRouteCmd [nm, ip_string a @ ''/'' @ dec m, gw, oif] s = Some (s\<lparr>sh_currentTopology := Some g'\<rparr>, out)"
proof -
  have n: "n < length (gr_nodes g)" using findGraphNode_Some [OF assms(2)] by simp
  let ?r = "AddRoute (nd_rt (gr_nodes g ! n)) (ip_string a) (word_of_nat m) gw oif"
  have "exec (AddStaticRoute n (ip_string a) (word_of_nat m) gw oif) g =
      Some (set_node n ((gr_nodes g ! n)\<lparr>nd_rt := fst ?r\<rparr>) g)"
    using n by (simp add: exec_def only_if_def node_of_command_def run_command_def configure_def)
  moreover have "cidr_argument (ip_string a @ ''/'' @ dec m) = Inr (ip_string a, word_of_nat m)"
    using cidr_argument_dec [OF assms(4), of "[]" a] by simp
  ultimately show ?thesis
    using assms(1-3)
    by (cases "snd ?r") (auto simp: addRouteCmd_def on_shell_node_def findCurrentTopologyNode_def case_prod_beta Let_def)
qed

section \<open>Loading keeps the transport\<close>

definition over :: "FrameTransport \<Rightarrow> Graph build \<Rightarrow> bool" where
  "over t r \<longleftrightarrow>
     (case r of None \<Rightarrow> True | Some (Inl (e, g)) \<Rightarrow> gr_transport g = t | Some (Inr g) \<Rightarrow> gr_transport g = t)"

named_theorems over_build "steps of the construction that keep the transport"

lemma over_simps [simp]:
  "over t None" "over t (Some (Inr g)) \<longleftrightarrow> gr_transport g = t" "over t (Some (Inl (e, g))) \<longleftrightarrow> gr_transport g = t"
  "over t (or_fail e g ok) \<longleftrightarrow> gr_transport g = t"
  by (simp_all add: over_def or_fail_def)

lemma over_then:
  assumes "fine k r" "over t r" "\<And>g. built k g \<Longrightarrow> gr_transport g = t \<Longrightarrow> over t (f g)"
  shows "over t (build_then r f)"
proof (cases r)
  case (Some x)
  then show ?thesis using assms by (cases x) (auto simp: build_then_def)
qed (simp add: build_then_def)

lemma over_each:
  assumes "built k g" "gr_transport g = t"
    "\<And>x g. x \<in> set xs \<Longrightarrow> built k g \<Longrightarrow> gr_transport g = t \<Longrightarrow> over t (f x g)"
    "\<And>x g. x \<in> set xs \<Longrightarrow> built k g \<Longrightarrow> fine k (f x g)"
  shows "over t (build_each f xs g)"
  using assms
proof (induction xs arbitrary: g)
  case (Cons x xs)
  then show ?case by (auto intro: over_then [of k])
qed simp

lemma over_then_all:
  assumes "over t r" "\<And>g. gr_transport g = t \<Longrightarrow> over t (f g)" shows "over t (build_then r f)"
proof (cases r)
  case (Some x)
  then show ?thesis using assms by (cases x) (auto simp: build_then_def)
qed (simp add: build_then_def)

lemma over_each_all:
  assumes "gr_transport g = t" "\<And>x g. gr_transport g = t \<Longrightarrow> over t (f x g)" shows "over t (build_each f xs g)"
  using assms(1)
proof (induction xs arbitrary: g)
  case (Cons x xs)
  from over_then_all [OF assms(2) [OF Cons.prems] Cons.IH] show ?case by simp
qed simp

lemma over_parts [over_build]:
  assumes "gr_transport g = t"
  shows "over t (build_interface n i g)" "over t (build_vlan_interface n v g)" "over t (build_route n r g)"
    "over t (build_link config l g)" "over t (configure_interface n c g)"
  using assms
  by (auto simp: build_interface_def build_vlan_interface_def build_route_def build_link_def configure_interface_def
      set_port_mode_def graph_create_interface_def graph_insert_link_def set_node_def case_prod_beta Let_def
      split: sum.splits option.split)

lemma over_node [over_build]:
  "gr_transport g = t \<Longrightarrow> over t (build_node config g)" "gr_transport g = t \<Longrightarrow> over t (configure_node topology c g)"
  by (auto simp: build_node_def configure_node_def Let_def create_graph_node_def set_node_def
      intro!: over_then_all over_each_all over_build split: option.split)

lemma over_returned: "good g r \<Longrightarrow> gr_transport g = t \<Longrightarrow> over t (returned r)"
  using good_transport [of g r] by (cases r) (simp_all add: returned_def)

lemma over_stp [over_build]:
  assumes "built k g" "gr_transport g = t" "k = length (tc_Nodes config)" shows "over t (build_stp config c g)"
proof (cases "node_map config (nc_Name c)")
  case (Some n)
  with assms(3) have n: "n < k" by (simp add: node_map_less)
  have start: "over t (returned (graph_start_stp n h))" if "built k h" "gr_transport h = t" for h
    using that n by (intro over_returned [OF good_stp(2)]) (simp_all add: built_def)
  have "gr_transport g' = t" if "graph_set_priority n p g = (Some g', ok)" for p g' ok
    using good_transport [OF good_stp(3), of g n p g'] assms(1,2) n that by (simp add: built_def)
  then have "over t (build_priority n p g)" for p
    using assms(2) by (auto simp: build_priority_def split: option.split prod.split)
  with start show ?thesis
    by (auto simp: build_stp_def Some intro!: over_then [of k] fine_priority assms(1) n)
qed (simp add: build_stp_def assms(2))

lemma over_lldp [over_build]:
  assumes "built k g" "gr_transport g = t" "k = length (tc_Nodes config)" shows "over t (build_lldp config c g)"
proof (cases "node_map config (nc_Name c)")
  case (Some n)
  then have "n < length (gr_nodes g)" using assms by (simp add: node_map_less built_def)
  from over_returned [OF good_run_on [OF builtD(1) [OF assms(1)] this ok_lldp_ops(1)] assms(2)]
  show ?thesis by (simp add: build_lldp_def Some assms(2))
qed (simp add: build_lldp_def assms(2))

lemma over_build_graph:
  assumes "\<forall>c\<in>set (tc_Nodes config). \<forall>i\<in>set (nc_Interfaces c). valid_name (ic_Name i)"
  shows "over t (build_graph_from_config_with_transport config t counter now)"
proof -
  let ?g = "empty_topology config t counter now" and ?k = "length (tc_Nodes config)"
  have "built 0 ?g" by (simp add: built_def)
  from fine_nodes [OF this assms] have nodes: "fine ?k (build_each build_node (tc_Nodes config) ?g)" by simp
  have settle: "fine ?k (returned (ConvergeSpanningTree g))" if "built ?k g" for g
    by (intro fine_good [OF that] good_ConvergeSpanningTree quietD [OF quiet_ConvergeSpanningTree] builtD(1,2) [OF that])
  have settle_over: "over u (returned (ConvergeSpanningTree g))" if "built ?k g" "gr_transport g = u" for g u
    by (intro over_returned [OF good_ConvergeSpanningTree] builtD(1) [OF that(1)] that(2))
  have a: "over t (build_each build_node (tc_Nodes config) ?g)"
    by (intro over_each_all over_build) (simp add: create_new_graph_with_transport_def)
  show ?thesis
    unfolding build_graph_from_config_with_transport_def
    by (auto intro!: over_then [OF nodes a] over_then [of ?k] over_each [of ?k] fine_each settle settle_over
        fine_link fine_configure_node fine_stp fine_lldp over_build)
qed

section \<open>The loaded topology stays well formed\<close>

definition shell_ok :: "Shell \<Rightarrow> bool" where
  "shell_ok s \<longleftrightarrow> (case sh_currentTopology s of None \<Rightarrow> True | Some g \<Rightarrow> graph_ok g \<and> over_udp g)"

text \<open>A command that comes back and leaves the shell well formed.\<close>

definition proper :: "shell_result \<Rightarrow> bool" where
  "proper r \<longleftrightarrow> (\<exists>s out. r = Some (s, out) \<and> shell_ok s)"

lemma properI [simp]: "proper (Some (s, out)) \<longleftrightarrow> shell_ok s"
  by (simp add: proper_def)

named_theorems proper_intros "commands that come back and leave the shell well formed"

lemma proper_on_node:
  assumes "shell_ok s"
    "\<And>n g. n < length (gr_nodes g) \<Longrightarrow> graph_ok g \<Longrightarrow> over_udp g \<Longrightarrow>
       \<exists>g' out. f n g = Some (g', out) \<and> graph_ok g' \<and> over_udp g'"
  shows "proper (on_shell_node long nm f s)"
proof (cases "sh_currentTopology s")
  case (Some g)
  with assms(1) have g: "graph_ok g" "over_udp g" by (simp_all add: shell_ok_def)
  show ?thesis
  proof (cases "findGraphNode g nm")
    case n: (Some n)
    from assms(2) [OF findGraphNode_Some [OF n, THEN conjunct1] g] obtain g' out where
      "f n g = Some (g', out)" "graph_ok g'" "over_udp g'" by blast
    with Some n show ?thesis by (simp add: on_shell_node_def findCurrentTopologyNode_def shell_ok_def)
  qed (use assms(1) Some in \<open>simp add: on_shell_node_def findCurrentTopologyNode_def\<close>)
qed (use assms(1) in \<open>simp add: on_shell_node_def\<close>)

lemma proper_shows: "shell_ok s \<Longrightarrow> proper (shows_node long dump args s)"
  unfolding shows_node_def by (intro proper_on_node) simp_all

lemma proper_show_commands [proper_intros]:
  assumes "shell_ok s"
  shows "proper (showNodeMacCmd args s)" "proper (showNodeRouteCmd args s)" "proper (showNodeArpCmd args s)"
    "proper (showNodeRIPCmd args s)" "proper (showNodeLLDPCmd args s)"
  using assms
  by (simp_all add: showNodeMacCmd_def showNodeRouteCmd_def showNodeArpCmd_def showNodeRIPCmd_def showNodeLLDPCmd_def proper_shows)

lemma run_on_proper:
  assumes "graph_ok g" "over_udp g" "n < length (gr_nodes g)" "\<And>env node. node_ok node \<Longrightarrow> ok_result env node (f env node)"
  shows "\<exists>g'. run_on n f g = Some g' \<and> graph_ok g' \<and> over_udp g'"
  using run_on_over_udp [OF assms(2), of n f] good_run_on [OF assms(1,3,4)] by (auto simp: good_def)

lemma proper_operates:
  assumes "shell_ok s" "\<And>env node. node_ok node \<Longrightarrow> ok_result env node (f env node)"
  shows "proper (operates long nm f out s)"
  unfolding operates_def
proof (intro proper_on_node [OF assms(1)])
  fix n and g :: Graph assume "n < length (gr_nodes g)" "graph_ok g" "over_udp g"
  from run_on_proper [OF this(2,3,1) assms(2)]
  show "\<exists>g' out'. map_option (\<lambda>g'. (g', out)) (run_on n f g) = Some (g', out') \<and> graph_ok g' \<and> over_udp g'" by auto
qed

lemma proper_operations [proper_intros]:
  assumes "shell_ok s"
  shows "proper (pingCmd args s)" "proper (eroPingCmd args s)" "proper (enableRIPCmd args s)" "proper (disableRIPCmd args s)"
    "proper (enableLLDPCmd args s)" "proper (disableLLDPCmd args s)"
  unfolding pingCmd_def eroPingCmd_def enableRIPCmd_def disableRIPCmd_def enableLLDPCmd_def disableLLDPCmd_def
  by (intro proper_operates assms ok_pings ok_rip_ops ok_lldp_ops, assumption)+

lemma proper_resolve [proper_intros]: "shell_ok s \<Longrightarrow> proper (resolveArpCmd args s)"
  unfolding resolveArpCmd_def Let_def
proof (intro proper_on_node)
  fix n and g :: Graph assume "n < length (gr_nodes g)" "graph_ok g" "over_udp g"
  from run_on_proper [OF this(2,3,1), of "\<lambda>env node. (node, snd (send_arp_broadcast_request env node None (args ! 1)))"]
  show "\<exists>g' out. map_option (\<lambda>g'. (g', if fst (send_arp_broadcast_request (env_of g n) (gr_nodes g ! n) None (args ! 1)) \<noteq> 0
        then [Printed (''Error: Failed to send ARP request for IP '' @ args ! 1)] else []))
      (run_on n (\<lambda>env node. (node, snd (send_arp_broadcast_request env node None (args ! 1)))) g) = Some (g', out) \<and>
    graph_ok g' \<and> over_udp g'"
    by (auto simp: ok_result_effects sends_up_request)
qed

lemma proper_set_node:
  "graph_ok g \<Longrightarrow> over_udp g \<Longrightarrow> n < length (gr_nodes g) \<Longrightarrow> node_ok node \<Longrightarrow> nd_intf node = nd_intf (gr_nodes g ! n) \<Longrightarrow>
     graph_ok (set_node n node g) \<and> over_udp (set_node n node g)"
  by (simp add: same_intfs_ok)

lemma proper_add_route [proper_intros]: "shell_ok s \<Longrightarrow> proper (addRouteCmd args s)"
  unfolding addRouteCmd_def Let_def
  by (intro proper_on_node)
     (auto simp: case_prod_beta proper_set_node add_route_ok graph_ok_node split: sum.split option.split)

lemma proper_add_vlan [proper_intros]: "shell_ok s \<Longrightarrow> proper (addVlanInterfaceCmd args s)"
  unfolding addVlanInterfaceCmd_def Let_def
  by (intro proper_on_node)
     (auto simp: case_prod_beta proper_set_node add_vlan_ok add_vlan_intfs graph_ok_node split: option.split)

section \<open>Every line is answered\<close>

lemma cleanup_returns:
  assumes "shell_ok s"
  shows "\<exists>s'. cleanup s = Some s' \<and> sh_currentTopology s' = None"
proof (cases "sh_currentTopology s")
  case (Some g)
  with assms have "idle g" by (simp add: shell_ok_def over_udp_def idle_def)
  from returnsD [OF idle_cleanup this] obtain g' where "cleanup_graph_resources g = Some g'" by blast
  with Some show ?thesis by (simp add: cleanup_def dropped_def)
qed (simp add: cleanup_def)

lemma use_counter_shell_ok: "shell_ok s \<Longrightarrow> shell_ok (shell_use_counter c s)"
  by (cases "sh_currentTopology s")
     (simp_all add: shell_use_counter_def shell_ok_def graph_ok_def queue_ok_def over_udp_def)

lemma dropped_ok [simp]: "shell_ok (dropped g)"
  by (simp add: shell_ok_def dropped_def)

lemma started_ok:
  assumes "graph_Start g = Inr g'" "graph_ok g" "over_udp g" shows "graph_ok g' \<and> over_udp g'"
  using assms by (auto simp: graph_Start_def over_udp_def graph_ok_def queue_ok_def split: if_splits)

lemma loaded_over_udp:
  assumes "load_topology_with_transport config UDPTransport c t = Some (Inr g)"
    "\<forall>c\<in>set (tc_Nodes config). \<forall>i\<in>set (nc_Interfaces c). NUL \<notin> set (ic_Name i)"
  shows "graph_ok g \<and> over_udp g"
proof -
  have v: "validate_topology_config config = None"
    and b: "build_graph_from_config_with_transport config UDPTransport c t = Some (Inr g)"
    using assms(1) by (auto simp: load_topology_with_transport_def split: option.splits sum.splits)
  have "\<forall>c\<in>set (tc_Nodes config). \<forall>i\<in>set (nc_Interfaces c). valid_name (ic_Name i)"
    using validated_names(1) [OF v] assms(2) by (simp add: valid_name_def node_names_ok_def)
  from over_build_graph [OF this, of UDPTransport c t] b load_topology_ok [OF assms]
  show ?thesis by (simp add: over_udp_def)
qed

lemma yaml_answers:
  assumes "clean_names parse"
  shows "\<exists>r. load_topology_from_yaml read_file parse filename c t = Some r \<and> (\<forall>g. r = Inr g \<longrightarrow> graph_ok g \<and> over_udp g)"
proof (cases "read_file filename")
  case data: (Some data)
  show ?thesis
  proof (cases "parse data")
    case config: (Some config)
    then have clean: "\<forall>c\<in>set (tc_Nodes config). \<forall>i\<in>set (nc_Interfaces c). NUL \<notin> set (ic_Name i)"
      using assms unfolding clean_names_def by blast
    from load_topology_answers [OF clean, of UDPTransport c t] obtain r where
      r: "load_topology_with_transport config UDPTransport c t = Some r" by (auto simp: answers_def)
    with loaded_over_udp [OF _ clean, of c t] data config show ?thesis
      by (cases r) (auto simp: load_topology_from_yaml_def newDefaultTransport_def)
  qed (use data in \<open>simp add: load_topology_from_yaml_def\<close>)
qed (simp add: load_topology_from_yaml_def)

lemma proper_load:
  assumes "shell_ok s" "clean_names parse" shows "proper (loadTopologyCmd read_file parse args s)"
proof -
  define filename where "filename = (case args of [] \<Rightarrow> ''topologies/triangle.yaml'' | f # _ \<Rightarrow> f)"
  note f = filename_def [symmetric]
  from yaml_answers [OF assms(2)] obtain r where
    r: "load_topology_from_yaml read_file parse filename (shell_counter s) (shell_now s) = Some r"
    and ok: "\<And>g. r = Inr g \<Longrightarrow> graph_ok g \<and> over_udp g" by blast
  show ?thesis
  proof (cases r)
    case (Inl e)
    with assms(1) r show ?thesis by (cases e) (simp add: loadTopologyCmd_def f use_counter_shell_ok)
  next
    case (Inr g)
    with ok have g: "graph_ok g" "over_udp g" by simp_all
    obtain s' where s': "cleanup s = Some s'" using cleanup_returns [OF assms(1)] by blast
    have "idle g" using g by (simp add: over_udp_def idle_def)
    from returnsD [OF idle_cleanup this] obtain g' where "cleanup_graph_resources g = Some g'" by blast
    with r Inr s' started_ok [OF _ g] show ?thesis
      by (cases "graph_Start g") (simp_all add: loadTopologyCmd_def f Let_def, simp add: shell_ok_def)
  qed
qed

lemma proper_run_cli: "shell_ok s \<Longrightarrow> clean_names parse \<Longrightarrow> proper (run_cli read_file parse c args s)"
  by (cases c) (auto simp: run_cli_def showTopologyCmd_def intro!: proper_intros proper_load split: option.split)

lemma proper_execute:
  assumes "shell_ok s" "clean_names parse" shows "proper (executeCommand cobra read_file parse input s)"
  using assms proper_run_cli [OF assms]
  by (auto simp: executeCommand_def Let_def split: sum.split option.split)

lemma turn_answers:
  assumes "shell_ok s" "clean_names parse"
  shows "\<exists>s' out go. interactive_turn cobra read_file parse p s = Some (s', out, go) \<and> shell_ok s'"
proof (cases p)
  case (Line l)
  from proper_execute [OF assms, of cobra read_file "strings_TrimSpace l"] assms(1) Line
  show ?thesis by (auto simp: interactive_turn_def Let_def proper_def)
qed (use assms(1) in \<open>auto simp: interactive_turn_def\<close>)

section \<open>A session\<close>

text \<open>
  The process: turns of the prompt, moves of the loaded network (its timers and its monitors) between
  them, and the interrupt that cleans up.
\<close>

inductive shell_step :: "cobra \<Rightarrow> (string \<Rightarrow> bytes option) \<Rightarrow> (bytes \<Rightarrow> TopologyConfig option) \<Rightarrow> Shell \<Rightarrow> Shell \<Rightarrow> bool"
  for cobra read_file parse where
  turn: "interactive_turn cobra read_file parse p s = Some (s', out, go) \<Longrightarrow> shell_step cobra read_file parse s s'"
| network: "sh_currentTopology s = Some g \<Longrightarrow> udp_step g g' \<Longrightarrow>
    shell_step cobra read_file parse s (s\<lparr>sh_currentTopology := Some g'\<rparr>)"
| interrupt: "cleanup s = Some s' \<Longrightarrow> shell_step cobra read_file parse s s'"

definition first_shell :: "int \<Rightarrow> Shell" where
  "first_shell now = \<lparr>sh_currentTopology = None, sh_mac_counter = 0, sh_now = now\<rparr>"

lemma shell_step_ok:
  assumes "shell_step cobra read_file parse s s'" "clean_names parse" "shell_ok s" shows "shell_ok s'"
  using assms(1)
proof cases
  case (turn p out go)
  with turn_answers [OF assms(3,2), of cobra read_file p] show ?thesis by simp
next
  case (network g g')
  with assms(3) udp_step_ok over_udp_step show ?thesis by (simp add: shell_ok_def)
next
  case interrupt
  with cleanup_returns [OF assms(3)] show ?thesis by (auto simp: shell_ok_def)
qed

interpretation session: machine "\<lambda>s. \<exists>now. s = first_shell now"
    "\<lambda>s s'. clean_names parse \<and> shell_step cobra read_file parse s s'" shell_ok
  for cobra read_file parse
  by unfold_locales (auto intro: shell_step_ok, simp add: first_shell_def shell_ok_def)

lemma session_ok:
  assumes "(shell_step cobra read_file parse)\<^sup>*\<^sup>* (first_shell now) s" "clean_names parse" shows "shell_ok s"
proof -
  have "(\<lambda>s s'. clean_names parse \<and> shell_step cobra read_file parse s s') = shell_step cobra read_file parse"
    using assms(2) by (intro ext) simp
  with assms(1) session.reachable_inv [of "first_shell now" parse cobra read_file s] show ?thesis by auto
qed

end
