(* ===== verification/Samples.thy ===== *)
theory Samples
  imports SimulatorProofs
begin

text \<open>
  Small concrete inputs, on which the properties of the development are evaluated: two topology
  configurations, a switch with three access ports, and the frames and messages they exchange.
\<close>

section \<open>Topologies\<close>

definition sample_info :: "string \<Rightarrow> TopologyInfo" where
  "sample_info name =
     \<lparr>ti_Name = name, ti_Description = [], ti_Summary = [], ti_DefaultSource = [],
      ti_DefaultDestination = [], ti_Canvas = None\<rparr>"

definition sample_interface :: "string \<Rightarrow> string \<Rightarrow> int \<Rightarrow> InterfaceConfig" where
  "sample_interface name ip m =
     \<lparr>ic_Name = name, ic_IP = ip, ic_Mask = m, ic_Mode = [], ic_VLAN = 0, ic_NativeVLAN = 0,
      ic_AllowedVLANs = []\<rparr>"

definition sample_node :: "string \<Rightarrow> bool \<Rightarrow> InterfaceConfig list \<Rightarrow> NodeConfig" where
  "sample_node name lldp interfaces =
     \<lparr>nc_Name = name, nc_Type = [], nc_LLDP = lldp, nc_STP = None, nc_STPPriority = None,
      nc_Position = None, nc_Loopback = [], nc_Interfaces = interfaces, nc_VLANInterfaces = [],
      nc_Routes = []\<rparr>"

text \<open>A host with one routed interface; two of them, joined by a link.\<close>

definition lone_host :: TopologyConfig where
  "lone_host =
     \<lparr>tc_Topology = sample_info ''lone'',
      tc_Nodes = [sample_node ''h1'' False [sample_interface ''eth0'' ''10.0.0.1'' 24]], tc_Links = []\<rparr>"

definition two_hosts :: TopologyConfig where
  "two_hosts =
     \<lparr>tc_Topology = sample_info ''pair'',
      tc_Nodes = [sample_node ''h1'' False [sample_interface ''eth0'' ''10.0.0.1'' 24],
                  sample_node ''h2'' False [sample_interface ''eth0'' ''10.0.0.2'' 24]],
      tc_Links = [\<lparr>lc_FromNode = ''h1'', lc_FromInterface = ''eth0'', lc_ToNode = ''h2'',
                   lc_ToInterface = ''eth0'', lc_Cost = 1\<rparr>]\<rparr>"

text \<open>Two bridges that advertise themselves.\<close>

definition two_bridges :: TopologyConfig where
  "two_bridges =
     two_hosts\<lparr>tc_Nodes := map (\<lambda>c. c\<lparr>nc_LLDP := True, nc_STP := Some True,
       nc_Interfaces := [sample_interface ''eth0'' [] 0]\<rparr>) (tc_Nodes two_hosts)\<rparr>"

section \<open>A switch\<close>

definition sample_port :: "string \<Rightarrow> nat \<Rightarrow> byte \<Rightarrow> Interface" where
  "sample_port name k b =
     \<lparr>if_name = name_array IF_NAME_SIZE name, link = Some k,
      intf_nw_props = init_intf_nw_props\<lparr>mac_addr := mac_of [2, 0, 0, 0, 0, b]\<rparr>\<rparr>"

definition sample_switch :: Node where
  "sample_switch =
     (new_node ''s1'')\<lparr>nd_intf :=
        map Some [sample_port ''p1'' 0 1, sample_port ''p2'' 1 2, sample_port ''p3'' 2 3] @
        replicate (MAX_INTF_PER_NODE - 3) None\<rparr>"

definition sample_env :: env where
  "sample_env =
     \<lparr>e_links = map (\<lambda>k. \<lparr>intf1 = (0, k), intf2 = (k + 1, 0), cost = 1, up = True\<rparr>) [0..<3],
      e_self = 0, e_now = 0, e_peer = (\<lambda>_. None), e_trace = False\<rparr>"

definition sample_frame :: bytes where
  "sample_frame = mac_bytes (mac_of [2, 0, 0, 0, 1, 1]) @ mac_bytes (mac_of [2, 0, 0, 0, 1, 2]) @ put16 0x0800 @ [1, 2, 3, 4]"

section \<open>Facts about the samples\<close>

text \<open>Existence statements that evaluation decides.\<close>

lemma ex_Some_case: "(\<exists>s. x = Some s \<and> P s) \<longleftrightarrow> (case x of None \<Rightarrow> False | Some s \<Rightarrow> P s)"
  by (cases x) simp_all

lemma ex_loaded: "(\<exists>g. x = Some (Inr g) \<and> P g) \<longleftrightarrow> (case x of Some (Inr g) \<Rightarrow> P g | _ \<Rightarrow> False)"
  by (auto split: option.split sum.split)

lemma sample_switch_ok: "node_ok sample_switch"
proof -
  have "rip_inv (rip_routes (nd_rip sample_switch)) (nd_rt sample_switch)"
    using node_ok_new [of "''s1''"] by (simp add: sample_switch_def node_ok_def)
  moreover have v: "valid_name ''p1''" "valid_name ''p2''" "valid_name ''p3''" by code_simp+
  have "names_unique (nd_intf sample_switch)"
    unfolding names_unique_def
  proof (intro allI impI)
    fix i j a b assume ab: "intf_at (nd_intf sample_switch) i = Some a" "intf_at (nd_intf sample_switch) j = Some b"
      "get_interface_name a = get_interface_name b"
    have only: "k < 3 \<and> get_interface_name c = [''p1'', ''p2'', ''p3''] ! k"
      if "intf_at (nd_intf sample_switch) k = Some c" for k c
      using that by (auto simp: sample_switch_def intf_at_def nth_append nth_Cons' sample_port_def get_interface_name_def
          byteArrayString_padded v split: if_splits)
    from only [OF ab(1)] only [OF ab(2)] ab(3) show "i = j" by (auto simp: less_Suc_eq numeral_3_eq_3)
  qed
  then have "intf_names_ok (nd_intf sample_switch)"
    by (auto simp: sample_switch_def intf_names_ok_def sample_port_def get_interface_name_def
        byteArrayString_padded v)
  moreover have "wf_node_intfs sample_switch"
    by (auto simp: sample_switch_def wf_node_intfs_def sample_port_def wf_init_intf)
  ultimately show ?thesis
    using node_ok_new [of "''s1''"] by (simp add: node_ok_def sample_switch_def)
qed

lemma sample_frame_plain: "plain_frame sample_frame" "\<not> is_frame_vlan_tagged sample_frame" "14 \<le> length sample_frame"
  by (unfold plain_frame_def) code_simp+

lemma sample_flood: "sends (l2_switch_flood_frame_vlan sample_env sample_switch 0 sample_frame 1) = [(1, sample_frame), (2, sample_frame)]"
  by code_simp

text \<open>The switch after it learned the destination of the frame on its third port.\<close>

definition sample_taught :: Node where
  "sample_taught =
     sample_switch\<lparr>nd_mac := fst (mac_table_add_or_update_vlan [] 0 (mac_of [2, 0, 0, 0, 1, 1]) 1 ''p3'')\<rparr>"

lemma sample_unicast:
  "sends (l2_switch_forward_frame_vlan sample_env sample_taught 0 sample_frame 1 False) = [(2, sample_frame)]"
  by code_simp

lemma sample_taught_fdb: "fdb_on_switch_ports sample_taught"
proof -
  have "map (\<lambda>e. get_node_if_by_name (nd_intf sample_taught) (me_name e)) (nd_mac sample_taught) = [Some 2]"
    "map_option IS_INTF_L3_MODE (intf_of sample_taught 2) = Some False"
    by code_simp+
  then show ?thesis by (auto simp: fdb_on_switch_ports_def)
qed

text \<open>A network built by commands; a command that does not come back would leave it as it was.\<close>

definition run_commands :: "command list \<Rightarrow> Graph \<Rightarrow> Graph" where
  "run_commands cs g = foldl (\<lambda>g c. case exec c g of None \<Rightarrow> g | Some g' \<Rightarrow> g') g cs"

lemma graph_ok_run_commands:
  "graph_ok g \<Longrightarrow> \<forall>c\<in>set cs. command_ok c \<Longrightarrow> graph_ok (run_commands cs g)"
  by (induction cs arbitrary: g) (auto simp: run_commands_def intro: exec_ok split: option.split)

definition sample_net :: Graph where
  "sample_net =
     run_commands [CreateNode ''a'', CreateNode ''b'', CreateInterface 0 ''e'', CreateInterface 1 ''e'',
       InsertLink 0 ''e'' 1 ''e'' 1] (create_new_graph ''lab'' 0 0)"

lemma sample_net_ok: "graph_ok sample_net"
proof -
  have "valid_name ''e''" by code_simp
  then show ?thesis
    unfolding sample_net_def
    by (intro graph_ok_run_commands) (auto simp: command_ok_def intro: net.reachable_inv)
qed

lemma sample_net_rest: "gr_queue sample_net = []"
  by code_simp

lemma sample_net_linked: "remote_of sample_net (0, 0) = Some (1, 0)"
  by code_simp

text \<open>The same network with a frame in flight.\<close>

definition sample_flight :: Graph where
  "sample_flight = (case transport_enqueue (1, 0) sample_frame sample_net of Inl _ \<Rightarrow> sample_net | Inr g \<Rightarrow> g)"

lemma sample_flight_ok: "graph_ok sample_flight"
  using sample_net_ok ok_enqueue [OF sample_net_ok] by (auto simp: sample_flight_def split: sum.split)

lemma sample_flight_queue: "gr_queue sample_flight = [((0, 0), sample_frame)]" "memory_open sample_flight"
  by (unfold memory_open_def) code_simp+

text \<open>A node without routes: its probes go nowhere.\<close>

definition sample_lone :: Graph where
  "sample_lone = create_graph_node ''a'' (create_new_graph ''lab'' 0 0)"

lemma sample_lone_rest: "resting sample_lone"
proof -
  have "graph_ok (create_new_graph ''lab'' 0 0)" by (rule net.reachable_inv) auto
  then show ?thesis by (simp add: sample_lone_def resting_def graph_ok_create_node)
    (simp add: create_graph_node_def create_new_graph_with_transport_def)
qed

lemma probe_without_route:
  "nd_rt node = [] \<Longrightarrow> IPStringToUint32 ip = Inr d \<Longrightarrow>
     Layer5TracerouteProbeFunc env ip ttl node = (node, [Emit ''ICMP'' ''packet_dropped'' ''no_route''])"
  by (simp add: Layer5TracerouteProbeFunc_def demotePacketToLayer3WithTTL_def
      demotePacketToLayer3WithOptions_def LookupLPM_def frame_lens ipProtocolName_def PROTO_ICMP_def)

lemma sample_trace:
  "\<exists>g res. tracerouteLocked ''a'' ''10.9.9.9'' 1 sample_lone = Some (g, Inr res) \<and> \<not> tr_Reached res"
proof -
  have f: "findGraphNode sample_lone ''a'' = Some 0" "resolveDestination sample_lone ''10.9.9.9'' = Inr ''10.9.9.9''"
    "length (gr_nodes sample_lone) = 1" "nd_rt (gr_nodes sample_lone ! 0) = []"
    by code_simp+
  obtain d where d: "IPStringToUint32 ''10.9.9.9'' = Inr d"
    by (cases "IPStringToUint32 ''10.9.9.9''") (simp_all, code_simp)
  show ?thesis
    using f by (simp add: tracerouteLocked_def traceroute_from_def probe_once_def Let_def take_errors_def
        takeICMPErrors_def run_on_def probe_without_route [OF _ d] perform_effect_def set_node_def hop_of_def)
qed

end
