(* ===== verification/ShellSamples.thy ===== *)
theory ShellSamples
  imports ShellProofs Samples
begin

text \<open>A short session on which the properties of the command line are evaluated.\<close>

definition sample_cobra :: cobra where
  "sample_cobra args = (if hd args = ''load'' then Inr (LoadTopology, []) else Inr (RunPing, drop 3 args))"

definition sample_turn :: "prompt \<Rightarrow> Shell \<Rightarrow> (Shell \<times> shell_output list \<times> bool) option" where
  "sample_turn = interactive_turn sample_cobra (\<lambda>_. Some [1]) (\<lambda>_. Some lone_host)"

definition sample_shell :: "Graph \<Rightarrow> Shell" where
  "sample_shell g = \<lparr>sh_currentTopology = Some g, sh_mac_counter = 0, sh_now = 0\<rparr>"

lemma loads_lone_host:
  "\<exists>s out. sample_turn (Line ''load topology'') (first_shell 0) = Some (s, out, True) \<and> sh_currentTopology s \<noteq> None"
proof -
  have "\<exists>g. load_topology_with_transport lone_host UDPTransport 0 0 = Some (Inr g) \<and> \<not> gr_closed g \<and> \<not> gr_started g"
    unfolding ex_loaded by code_simp
  then obtain g where g: "load_topology_with_transport lone_host UDPTransport 0 0 = Some (Inr g)" "\<not> gr_closed g" "\<not> gr_started g"
    by blast
  have line: "strings_TrimSpace ''load topology'' = ''load topology''" "strings_Fields ''load topology'' = [''load'', ''topology'']"
    by code_simp+
  have "loadTopologyCmd (\<lambda>_. Some [1]) (\<lambda>_. Some lone_host) [] (first_shell 0) =
      Some ((first_shell 0)\<lparr>sh_currentTopology := Some (g\<lparr>gr_started := True\<rparr>)\<rparr>,
        [Printed (''Loading topology: '' @ ''topologies/triangle.yaml'' @ ''...''),
         Printed (''Successfully loaded topology: '' @ gr_name g),
         Printed (transport_Name (gr_transport g) @ '' transport started for all nodes'')])"
    using g by (simp add: loadTopologyCmd_def load_topology_from_yaml_def newDefaultTransport_def shell_counter_def shell_now_def
        first_shell_def cleanup_def graph_Start_def Let_def)
  then show ?thesis
    by (simp add: sample_turn_def interactive_turn_def line executeCommand_def Let_def sample_cobra_def args_error_def
        command_args_def run_cli_def)
qed

end
