(* ===== verification/InOrder.thy ===== *)
theory InOrder
  imports Udp
begin

text \<open>
  The two transports agree while nothing is lost, cut or overtaken: a monitor that reads the oldest
  datagram does to the network over UDP what the in-memory transport does with the head of its queue.
\<close>

text \<open>The network whose frames wait in the sockets instead of the queue.\<close>

definition datagram_of :: "Node list \<Rightarrow> intf_id \<times> bytes \<Rightarrow> nat \<times> bytes" where
  "datagram_of nodes q = (fst (fst q), udp_payload (the (intf_in nodes (fst q))) (snd q))"

definition as_udp :: "Graph \<Rightarrow> Graph" where
  "as_udp g =
     g\<lparr>gr_transport := UDPTransport, gr_queue := [], gr_datagrams := map (datagram_of (gr_nodes g)) (gr_queue g)\<rparr>"

definition sendable :: "intf_id \<times> bytes \<Rightarrow> bool" where
  "sendable q \<longleftrightarrow> IF_NAME_SIZE + length (snd q) \<le> UDP_MAX_PAYLOAD"

lemma as_udp_fields [simp]:
  "gr_nodes (as_udp g) = gr_nodes g" "gr_links (as_udp g) = gr_links g" "gr_transport (as_udp g) = UDPTransport"
  "gr_transport_closed (as_udp g) = gr_transport_closed g" "gr_budget (as_udp g) = gr_budget g"
  "remote_of (as_udp g) x = remote_of g x" "env_of (as_udp g) n = env_of g n" "gr_bus (as_udp g) = gr_bus g"
  "gr_capture (as_udp g) = gr_capture g"
  by (simp_all add: as_udp_def remote_of_def env_of_def cong: option.case_cong)

lemma as_udp_emit: "emitNodeEvent n p a r (as_udp g) = as_udp (emitNodeEvent n p a r g)"
  by (simp add: emitNodeEvent_def emitEvent_def node_name_of_def case_prod_beta Let_def) (simp add: as_udp_def)

lemma as_udp_set_node:
  assumes "nd_intf node = nd_intf (gr_nodes g ! n)" shows "set_node n node (as_udp g) = as_udp (set_node n node g)"
proof -
  have "intf_in ((gr_nodes g)[n := node]) = intf_in (gr_nodes g)"
    using assms by (cases "n < length (gr_nodes g)") (auto simp: intf_in_def intf_of_def nth_list_update intro!: ext)
  then show ?thesis by (simp add: set_node_def as_udp_def datagram_of_def)
qed

lemma as_udp_enqueue:
  assumes "graph_ok g" "memory_open g" "remote_of g x = Some y" "sendable (y, frame)"
  shows "transport_enqueue x frame (as_udp g) = map_sum id as_udp (transport_enqueue x frame g)"
proof -
  have "linked (gr_nodes g) y \<noteq> None" using remote_of_Some [OF _ assms(3)] assms(1) by (simp add: graph_ok_def)
  then obtain remote where "intf_in (gr_nodes g) y = Some remote" by (auto simp: linked_def split: option.splits)
  moreover have "length (udp_payload remote frame) \<le> UDP_MAX_PAYLOAD"
    using assms(4) by (simp add: udp_payload_def name_array_def sendable_def)
  ultimately show ?thesis
    using assms(2,3) by (simp add: transport_enqueue_def udp_enqueue_def memory_open_def) (simp add: as_udp_def datagram_of_def)
qed

lemma queue_grows: "set (gr_queue g) \<subseteq> set (gr_queue (enqueue_effects n es g))"
proof (induction es arbitrary: g)
  case (Cons e es)
  have "set (gr_queue g) \<subseteq> set (gr_queue (enqueue_effect n e g))"
    by (auto simp: enqueue_effect_def transport_enqueue_def transport_failed_def udp_enqueue_def
        split: eff.split option.split FrameTransport.split)
  also have "\<dots> \<subseteq> set (gr_queue (enqueue_effects n es (enqueue_effect n e g)))" by (rule Cons.IH)
  finally show ?case by (simp add: enqueue_effects_def)
qed (simp add: enqueue_effects_def)

lemma as_udp_effect:
  assumes "graph_ok g" "memory_open g" "\<forall>q\<in>set (gr_queue (enqueue_effect n e g)). sendable q"
  shows "enqueue_effect n e (as_udp g) = as_udp (enqueue_effect n e g)"
proof (cases e)
  case (Send i frame)
  show ?thesis
  proof (cases "remote_of g (n, i)")
    case (Some y)
    show ?thesis
    proof (cases "transport_enqueue (n, i) frame g")
      case (Inl err)
      then have "transport_enqueue (n, i) frame (as_udp g) = Inl err"
        using Some assms(2) by (auto simp: transport_enqueue_def memory_open_def split: if_splits)
      then show ?thesis by (simp add: enqueue_effect_def Send Inl transport_failed_def as_udp_emit)
    next
      case (Inr g')
      then have "(y, frame) \<in> set (gr_queue g')"
        using Some assms(2) by (auto simp: transport_enqueue_def memory_open_def split: if_splits)
      then have "sendable (y, frame)" using assms(3) by (simp add: enqueue_effect_def Send Inr)
      from as_udp_enqueue [OF assms(1,2) Some this] show ?thesis by (simp add: enqueue_effect_def Send Inr)
    qed
  qed (simp add: enqueue_effect_def Send transport_enqueue_def transport_failed_def as_udp_emit)
qed (simp add: enqueue_effect_def as_udp_emit)

lemma as_udp_effects:
  assumes "graph_ok g" "memory_open g" "\<forall>q\<in>set (gr_queue (enqueue_effects n es g)). sendable q"
  shows "enqueue_effects n es (as_udp g) = as_udp (enqueue_effects n es g)"
  using assms
proof (induction es arbitrary: g)
  case (Cons e es)
  let ?h = "enqueue_effect n e g"
  have h: "graph_ok ?h" "memory_open ?h"
    using ok_enqueue_effect [OF Cons.prems(1)] Cons.prems(2) same_net_memory_open by blast+
  have "\<forall>q\<in>set (gr_queue ?h). sendable q"
    using queue_grows [of ?h n es] Cons.prems(3) by (auto simp: enqueue_effects_def)
  with as_udp_effect [OF Cons.prems(1,2)] Cons.IH [OF h] Cons.prems(3) show ?case by (simp add: enqueue_effects_def)
qed (simp add: enqueue_effects_def)

lemma oldest_datagram_is_head:
  assumes "graph_ok g" "memory_open g" "gr_queue g = (x, frame) # rest"
    "frame \<noteq> []" "length frame \<le> VLAN_HEADER_SIZE + ETHERNET_MAX_PAYLOAD"
    "\<forall>q\<in>set (gr_queue (deliver_one g)). sendable q"
  shows "\<exists>d later. gr_datagrams (as_udp g) = (fst x, d) # later \<and>
    monitor_read (fst x) d ((as_udp g)\<lparr>gr_datagrams := later\<rparr>) = as_udp (deliver_one g)"
proof -
  obtain n i where x: "x = (n, i)" by fastforce
  let ?g = "g\<lparr>gr_queue := rest\<rparr>"
  have ok: "graph_ok ?g" "same_net g ?g" using ok_pop [OF assms(1,3)] by simp_all
  have "linked (gr_nodes g) x \<noteq> None" using assms(1,3) by (simp add: graph_ok_def queue_ok_def)
  then obtain intf where intf: "intf_in (gr_nodes g) x = Some intf" by (auto simp: linked_def split: option.splits)
  then have n: "n < length (gr_nodes g)" "intf_of (gr_nodes g ! n) i = Some intf"
    by (auto simp: intf_in_def x split: if_splits)
  have queue: "gr_datagrams (as_udp g) = (n, udp_payload intf frame) # gr_datagrams (as_udp ?g)"
    "(as_udp g)\<lparr>gr_datagrams := gr_datagrams (as_udp ?g)\<rparr> = as_udp ?g"
    using intf by (simp_all add: as_udp_def assms(3) datagram_of_def x)
  obtain node b es where d: "deliverTransportFrame (env_of g n) i frame (gr_nodes g ! n, gr_budget g) = ((node, b), es)"
    by (metis surj_pair)
  have r: "node_ok node" "same_config (gr_nodes g ! n) node"
    using ok_deliver [of "(gr_nodes g ! n, gr_budget g)" "env_of g n" i frame] graph_ok_node [OF assms(1) n(1)] d
    by (simp_all add: ok_stp_def ok_result_def)
  let ?h = "set_node n node (?g\<lparr>gr_budget := b\<rparr>)"
  have h: "graph_ok ?h" "same_net g ?h"
    using ok_set_node [of "?g\<lparr>gr_budget := b\<rparr>" node n] ok r n(1) same_net_trans [OF ok(2)] by (simp_all add: same_net_def)
  have dl: "deliver_one g = enqueue_effects n es ?h"
    by (simp add: deliver_one_def assms(3) x d)
  have "receive_frame x frame (as_udp ?g) = enqueue_effects n es (set_node n node ((as_udp ?g)\<lparr>gr_budget := b\<rparr>))"
    by (simp add: receive_frame_def x d)
  also have "(as_udp ?g)\<lparr>gr_budget := b\<rparr> = as_udp (?g\<lparr>gr_budget := b\<rparr>)" by (simp add: as_udp_def)
  also have "set_node n node (as_udp (?g\<lparr>gr_budget := b\<rparr>)) = as_udp ?h"
    using r(2) by (intro as_udp_set_node) (simp add: same_config_def)
  also have "enqueue_effects n es (as_udp ?h) = as_udp (deliver_one g)"
    using as_udp_effects [OF h(1), of n es] same_net_memory_open [OF h(2)] assms(2,6) dl by simp
  finally have "receive_frame x frame (as_udp ?g) = as_udp (deliver_one g)" .
  moreover have "monitor_read n (udp_payload intf frame) (as_udp ?g) = receive_frame x frame (as_udp ?g)"
    using monitor_read_payload [of "as_udp ?g" n i intf frame] graph_ok_node [OF assms(1) n(1)] n assms(4,5) x by simp
  ultimately show ?thesis using queue by (simp add: x)
qed

section \<open>Whole exchanges\<close>

text \<open>A frame that a monitor reads as it was sent.\<close>

definition fits :: "intf_id \<times> bytes \<Rightarrow> bool" where
  "fits q \<longleftrightarrow> snd q \<noteq> [] \<and> length (snd q) \<le> VLAN_HEADER_SIZE + ETHERNET_MAX_PAYLOAD"

lemma fits_sendable: "fits q \<Longrightarrow> sendable q"
  by (simp add: fits_def sendable_def IF_NAME_SIZE_def UDP_MAX_PAYLOAD_def VLAN_HEADER_SIZE_def ETHERNET_MAX_PAYLOAD_def)

lemma enqueue_effects_started: "gr_started (enqueue_effects n es g) = gr_started g"
proof (induction es arbitrary: g)
  case (Cons e es)
  have "gr_started (enqueue_effect n e g) = gr_started g"
    by (auto simp: enqueue_effect_def transport_enqueue_def transport_failed_def udp_enqueue_def
        split: eff.split option.split FrameTransport.split)
  with Cons.IH show ?case by (simp add: enqueue_effects_def)
qed (simp add: enqueue_effects_def)

lemma deliver_one_started: "gr_started (deliver_one g) = gr_started g"
  by (auto simp: deliver_one_def enqueue_effects_started set_node_def case_prod_beta Let_def split: list.split prod.split)

lemma in_order_step:
  assumes "graph_ok g" "memory_open g" "gr_started g" "\<forall>q\<in>set (gr_queue g). fits q"
    "\<forall>q\<in>set (gr_queue (deliver_one g)). fits q"
  shows "udp_step\<^sup>*\<^sup>* (as_udp g) (as_udp (deliver_one g))"
proof (cases "gr_queue g")
  case (Cons q rest)
  obtain x frame where q: "q = (x, frame)" by fastforce
  have n: "fst x < length (gr_nodes (as_udp g))"
    using queue_target [OF assms(1), of "fst x" "snd x"] Cons q by simp
  have "fits (x, frame)" "\<forall>q\<in>set (gr_queue (deliver_one g)). sendable q"
    using assms(4,5) Cons q by (auto intro: fits_sendable)
  with oldest_datagram_is_head [OF assms(1,2), of x frame rest] Cons q
  have "\<exists>d later. gr_datagrams (as_udp g) = [] @ (fst x, d) # later \<and>
      monitor_read (fst x) d ((as_udp g)\<lparr>gr_datagrams := [] @ later\<rparr>) = as_udp (deliver_one g)"
    by (simp add: fits_def)
  then obtain d later where d: "gr_datagrams (as_udp g) = [] @ (fst x, d) # later"
    "monitor_read (fst x) d ((as_udp g)\<lparr>gr_datagrams := [] @ later\<rparr>) = as_udp (deliver_one g)" by blast
  have "gr_started (as_udp g)" using assms(3) by (simp add: as_udp_def)
  from udp_step.receive [OF this n d(1)] show ?thesis by (simp only: d(2) r_into_rtranclp)
qed (simp add: deliver_one_def)

lemma in_order_deliveries:
  assumes "graph_ok g" "memory_open g" "gr_started g" "\<forall>j\<le>k. \<forall>q\<in>set (gr_queue ((deliver_one ^^ j) g)). fits q"
  shows "udp_step\<^sup>*\<^sup>* (as_udp g) (as_udp ((deliver_one ^^ k) g))"
  using assms
proof (induction k arbitrary: g)
  case (Suc k)
  let ?h = "deliver_one g"
  have h: "graph_ok ?h" "memory_open ?h" "gr_started ?h"
    using ok_deliver_one [OF Suc.prems(1)] Suc.prems(2,3) same_net_memory_open deliver_one_started by auto
  have "\<forall>q\<in>set (gr_queue g). fits q" "\<forall>q\<in>set (gr_queue ?h). fits q"
    using spec [OF Suc.prems(4), of 0] spec [OF Suc.prems(4), of 1] by simp_all
  note first = in_order_step [OF Suc.prems(1-3) this]
  have "\<forall>q\<in>set (gr_queue ((deliver_one ^^ j) ?h)). fits q" if "j \<le> k" for j
    using spec [OF Suc.prems(4), of "Suc j"] that by (simp add: funpow_swap1)
  then have "\<forall>j\<le>k. \<forall>q\<in>set (gr_queue ((deliver_one ^^ j) ?h)). fits q" by blast
  from rtranclp_trans [OF first Suc.IH [OF h this]] show ?case by (simp add: funpow_swap1)
qed simp

end
