(* ===== verification/Sockets.thy ===== *)
theory Sockets
  imports InOrder "HOL-Library.AList"
begin

text \<open>
  The life of \<open>UDPTransport\<close> (\<open>src/src/socket.go\<close>): the sockets of the nodes, the monitors that read
  them, and the stop channel that ends them.  \<open>Start\<close>, \<open>Stop\<close>, \<open>Close\<close> and \<open>Register\<close> take the lock one
  after the other in any order; the \<open>go\<close> statements of \<open>Start\<close> run after it has given the lock back.
  Sockets and stop channels are numbered in the order they are made.  Whether the system grants a
  socket and whether closing one reports an error are inputs.
\<close>

record monitor_thread = mo_node :: nat mo_conn :: nat mo_stop :: nat

record Endpoints =
  ut_sockets :: "(nat \<times> nat) list"
  ut_started :: bool
  ut_closed :: bool
  ut_stopCh :: "nat option"
  ut_stops :: nat
  ut_stopped :: "nat list"
  ut_starting :: "monitor_thread list"
  ut_monitors :: "monitor_thread list"
  ut_conns :: nat
  ut_open :: "nat list"

definition NewUDPTransport :: Endpoints where
  "NewUDPTransport =
     \<lparr>ut_sockets = [], ut_started = False, ut_closed = False, ut_stopCh = None, ut_stops = 0, ut_stopped = [],
      ut_starting = [], ut_monitors = [], ut_conns = 0, ut_open = []\<rparr>"

definition UDP_Register :: "nat option \<Rightarrow> bool \<Rightarrow> Endpoints \<Rightarrow> Endpoints \<times> string option" where
  "UDP_Register node granted s =
     (case node of
        None \<Rightarrow> (s, Some ''node cannot be nil'')
      | Some n \<Rightarrow>
          if \<not> granted then (s, Some ''failed to bind node UDP socket'')
          else if ut_closed s then (s\<lparr>ut_conns := ut_conns s + 1\<rparr>, Some ''UDP transport is closed'')
          else (s\<lparr>ut_sockets := AList.update n (ut_conns s) (ut_sockets s), ut_open := ut_conns s # ut_open s,
                  ut_conns := ut_conns s + 1\<rparr>, None))"

definition UDP_Start :: "Endpoints \<Rightarrow> Endpoints \<times> string option" where
  "UDP_Start s =
     (if ut_closed s then (s, Some ''UDP transport is closed'')
      else if ut_started s then (s, None)
      else (s\<lparr>ut_stopCh := Some (ut_stops s), ut_stops := ut_stops s + 1, ut_started := True,
              ut_starting := ut_starting s @
                map (\<lambda>(node, conn). \<lparr>mo_node = node, mo_conn = conn, mo_stop = ut_stops s\<rparr>) (ut_sockets s)\<rparr>, None))"

text \<open>
  The locked part of \<open>Stop\<close>; None is the panic of closing no channel or a closed one.  \<open>Stop\<close> returns
  when no monitor is left.
\<close>

definition UDP_Stop :: "Endpoints \<Rightarrow> Endpoints option" where
  "UDP_Stop s =
     (if \<not> ut_started s then Some s
      else case ut_stopCh s of
        None \<Rightarrow> None
      | Some c \<Rightarrow>
          if c \<in> set (ut_stopped s) then None
          else Some (s\<lparr>ut_stopped := c # ut_stopped s, ut_started := False, ut_stopCh := None\<rparr>))"

definition Stop_returns :: "Endpoints \<Rightarrow> bool" where
  "Stop_returns s \<longleftrightarrow> ut_monitors s = []"

text \<open>\<open>Close\<close> after its \<open>Stop\<close> has returned.\<close>

definition UDP_Close :: "(nat \<Rightarrow> bool) \<Rightarrow> Endpoints \<Rightarrow> Endpoints \<times> string option" where
  "UDP_Close fails s =
     (if ut_closed s then (s, None)
      else (s\<lparr>ut_closed := True, ut_open := filter (\<lambda>c. c \<notin> snd ` set (ut_sockets s)) (ut_open s), ut_sockets := []\<rparr>,
            if \<exists>c\<in>snd ` set (ut_sockets s). fails c then Some ''failed to close node UDP socket'' else None))"

text \<open>
  One turn of a monitor: what setting the deadline and reading the socket gave, whether its stop
  channel is closed, and the network it works on.  None: the monitor returns.
\<close>

datatype read = DeadlineRefused | TimedOut | ReadFailed | Datagram bytes

definition monitor_turn :: "nat \<Rightarrow> bool \<Rightarrow> read \<Rightarrow> Graph \<Rightarrow> Graph option" where
  "monitor_turn node stopped r g =
     (case r of
        DeadlineRefused \<Rightarrow> None
      | TimedOut \<Rightarrow> if stopped then None else Some g
      | ReadFailed \<Rightarrow> if stopped then None else Some g
      | Datagram datagram \<Rightarrow> Some (monitor_read node datagram g))"

text \<open>What the system answers: no deadline can be set on a closed socket.\<close>

definition possible_read :: "Endpoints \<Rightarrow> monitor_thread \<Rightarrow> read \<Rightarrow> bool" where
  "possible_read s m r \<longleftrightarrow> (r = DeadlineRefused \<longleftrightarrow> mo_conn m \<notin> set (ut_open s))"

definition returns_on :: "Endpoints \<Rightarrow> monitor_thread \<Rightarrow> read \<Rightarrow> bool" where
  "returns_on s m r \<longleftrightarrow> (\<forall>g. monitor_turn (mo_node m) (mo_stop m \<in> set (ut_stopped s)) r g = None)"

section \<open>Every interleaving\<close>

text \<open>A node is registered once, when it is made.\<close>

inductive monitors_move :: "Endpoints \<Rightarrow> Endpoints \<Rightarrow> bool" where
  go: "ut_starting s = earlier @ m # later \<Longrightarrow>
    monitors_move s (s\<lparr>ut_starting := earlier @ later, ut_monitors := ut_monitors s @ [m]\<rparr>)"
| quit: "ut_monitors s = earlier @ m # later \<Longrightarrow> possible_read s m r \<Longrightarrow> returns_on s m r \<Longrightarrow>
    monitors_move s (s\<lparr>ut_monitors := earlier @ later\<rparr>)"

inductive udp_life :: "Endpoints \<Rightarrow> Endpoints \<Rightarrow> bool" where
  register: "\<forall>n. node = Some n \<longrightarrow> n \<notin> fst ` set (ut_sockets s) \<Longrightarrow> udp_life s (fst (UDP_Register node granted s))"
| start: "udp_life s (fst (UDP_Start s))"
| stop: "UDP_Stop s = Some s' \<Longrightarrow> udp_life s s'"
| close: "udp_life s (fst (UDP_Close fails s))"
| monitors: "monitors_move s s' \<Longrightarrow> udp_life s s'"

inductive_cases udp_lifeE: "udp_life s s'"

definition threads :: "Endpoints \<Rightarrow> monitor_thread set" where
  "threads s = set (ut_starting s) \<union> set (ut_monitors s)"

definition channels_ok :: "Endpoints \<Rightarrow> bool" where
  "channels_ok s \<longleftrightarrow>
     (ut_started s \<longleftrightarrow> ut_stopCh s \<noteq> None) \<and>
     (\<forall>c. ut_stopCh s = Some c \<longrightarrow> c < ut_stops s \<and> c \<notin> set (ut_stopped s)) \<and>
     (\<forall>c\<in>set (ut_stopped s). c < ut_stops s) \<and>
     (\<forall>m\<in>threads s. ut_stopCh s = Some (mo_stop m) \<or> mo_stop m \<in> set (ut_stopped s))"

definition sockets_ok :: "Endpoints \<Rightarrow> bool" where
  "sockets_ok s \<longleftrightarrow>
     distinct (map fst (ut_sockets s)) \<and> set (ut_open s) = snd ` set (ut_sockets s) \<and>
     (\<forall>c\<in>set (ut_open s). c < ut_conns s) \<and> (ut_closed s \<longrightarrow> ut_sockets s = []) \<and>
     (\<forall>m\<in>threads s. mo_conn m < ut_conns s \<and>
        (mo_conn m \<in> set (ut_open s) \<longrightarrow> (mo_node m, mo_conn m) \<in> set (ut_sockets s)))"

definition endpoints_ok :: "Endpoints \<Rightarrow> bool" where
  "endpoints_ok s \<longleftrightarrow> channels_ok s \<and> sockets_ok s"

lemma update_new: "n \<notin> fst ` set xs \<Longrightarrow> AList.update n c xs = xs @ [(n, c)]"
  by (induction xs) auto

lemma ok_new_transport: "endpoints_ok NewUDPTransport"
  by (simp add: endpoints_ok_def channels_ok_def sockets_ok_def NewUDPTransport_def threads_def)

lemma ok_register:
  assumes "endpoints_ok s" "\<forall>n. node = Some n \<longrightarrow> n \<notin> fst ` set (ut_sockets s)"
  shows "endpoints_ok (fst (UDP_Register node granted s))"
proof -
  have c: "channels_ok (fst (UDP_Register node granted s))"
    using assms(1) by (simp add: endpoints_ok_def channels_ok_def UDP_Register_def threads_def split: option.split)
  have "sockets_ok (fst (UDP_Register node granted s))"
  proof (cases "node \<noteq> None \<and> granted \<and> \<not> ut_closed s")
    case True
    then obtain n where n: "node = Some n" "n \<notin> fst ` set (ut_sockets s)" using assms(2) by blast
    with True have "fst (UDP_Register node granted s) =
        s\<lparr>ut_sockets := ut_sockets s @ [(n, ut_conns s)], ut_open := ut_conns s # ut_open s, ut_conns := ut_conns s + 1\<rparr>"
      by (simp add: UDP_Register_def update_new)
    moreover have "mo_conn m \<noteq> ut_conns s" if "m \<in> threads s" for m
      using assms(1) that by (fastforce simp: endpoints_ok_def sockets_ok_def)
    ultimately show ?thesis
      using assms(1) n(2) True by (simp add: endpoints_ok_def sockets_ok_def threads_def less_Suc_eq ball_Un)
  next
    case False
    then show ?thesis
      using assms(1)
      by (auto simp: endpoints_ok_def sockets_ok_def UDP_Register_def threads_def less_Suc_eq ball_Un split: option.split)
  qed
  with c show ?thesis by (simp add: endpoints_ok_def)
qed

lemma ok_start:
  assumes "endpoints_ok s" shows "endpoints_ok (fst (UDP_Start s))"
proof (cases "ut_closed s \<or> ut_started s")
  case False
  let ?s = "fst (UDP_Start s)"
  have t: "threads ?s = threads s \<union> (\<lambda>(node, conn). \<lparr>mo_node = node, mo_conn = conn, mo_stop = ut_stops s\<rparr>) ` set (ut_sockets s)"
    using False by (auto simp: UDP_Start_def threads_def)
  have "channels_ok ?s"
    unfolding channels_ok_def t
    using assms False by (auto simp: endpoints_ok_def channels_ok_def UDP_Start_def)
  moreover have "b < ut_conns s" if "(a, b) \<in> set (ut_sockets s)" for a b
    using assms that by (force simp: endpoints_ok_def sockets_ok_def)
  then have "sockets_ok ?s"
    unfolding sockets_ok_def t
    using assms False by (auto simp: endpoints_ok_def sockets_ok_def UDP_Start_def)
  ultimately show ?thesis by (simp add: endpoints_ok_def)
qed (use assms in \<open>auto simp: UDP_Start_def\<close>)

lemma ok_stop:
  assumes "endpoints_ok s" "UDP_Stop s = Some s'" shows "endpoints_ok s'"
proof (cases "ut_started s")
  case True
  then obtain c where c: "ut_stopCh s = Some c" "s' = s\<lparr>ut_stopped := c # ut_stopped s, ut_started := False, ut_stopCh := None\<rparr>"
    using assms(2) by (auto simp: UDP_Stop_def split: option.splits if_splits)
  with assms(1) show ?thesis by (auto simp: endpoints_ok_def channels_ok_def sockets_ok_def threads_def)
qed (use assms in \<open>simp add: UDP_Stop_def\<close>)

lemma ok_close: "endpoints_ok s \<Longrightarrow> endpoints_ok (fst (UDP_Close fails s))"
  by (auto simp: endpoints_ok_def channels_ok_def sockets_ok_def UDP_Close_def threads_def)

lemma ok_monitors_move: "monitors_move s s' \<Longrightarrow> endpoints_ok s \<Longrightarrow> endpoints_ok s'"
  by (induction rule: monitors_move.induct)
    (auto simp: endpoints_ok_def channels_ok_def sockets_ok_def threads_def ball_Un)

lemma udp_life_ok: "udp_life s s' \<Longrightarrow> endpoints_ok s \<Longrightarrow> endpoints_ok s'"
  by (erule udp_lifeE) (auto intro: ok_register ok_start ok_stop ok_close ok_monitors_move)

interpretation endpoints: machine "\<lambda>s. s = NewUDPTransport" udp_life endpoints_ok
  by unfold_locales (auto intro: ok_new_transport udp_life_ok)

section \<open>Stopping\<close>

text \<open>Two events are left to a monitor that starts, one to a monitor that runs.\<close>

definition moves_left :: "Endpoints \<Rightarrow> nat" where
  "moves_left s = 2 * length (ut_starting s) + length (ut_monitors s)"

lemma monitors_move_counts: "monitors_move s s' \<Longrightarrow> moves_left s' < moves_left s"
  by (induction rule: monitors_move.induct) (simp_all add: moves_left_def)

lemma Stop_never_panics: "endpoints_ok s \<Longrightarrow> UDP_Stop s \<noteq> None"
  by (auto simp: endpoints_ok_def channels_ok_def UDP_Stop_def)

lemma Stop_stops: "UDP_Stop s = Some s' \<Longrightarrow> \<not> ut_started s'"
  by (auto simp: UDP_Stop_def split: if_splits option.splits)

text \<open>A monitor that has been told to stop goes on only while datagrams keep coming.\<close>

lemma told_returns:
  assumes "endpoints_ok s" "\<not> ut_started s" "m \<in> threads s" "\<forall>d. r \<noteq> Datagram d"
  shows "returns_on s m r"
  using assms by (cases r) (auto simp: endpoints_ok_def channels_ok_def returns_on_def monitor_turn_def)

lemma monitors_leave:
  assumes "endpoints_ok s" "\<not> ut_started s" "moves_left s \<noteq> 0"
  shows "\<exists>s'. monitors_move s s' \<and> \<not> ut_started s'"
proof (cases "ut_starting s")
  case (Cons m ms)
  from monitors_move.go [of s "[]" m ms] Cons assms(2) show ?thesis by fastforce
next
  case Nil
  then obtain m ms where m: "ut_monitors s = m # ms" using assms(3) by (cases "ut_monitors s") (auto simp: moves_left_def)
  let ?r = "if mo_conn m \<in> set (ut_open s) then TimedOut else DeadlineRefused"
  have "possible_read s m ?r" by (simp add: possible_read_def)
  moreover have "returns_on s m ?r" using told_returns [OF assms(1,2), of m ?r] m by (auto simp: threads_def)
  ultimately show ?thesis using monitors_move.quit [of s "[]" m ms ?r] m assms(2) by fastforce
qed

lemma all_monitors_leave:
  assumes "endpoints_ok s" "\<not> ut_started s"
  shows "\<exists>s'. monitors_move\<^sup>*\<^sup>* s s' \<and> threads s' = {} \<and> \<not> ut_started s'"
  using assms
proof (induction "moves_left s" arbitrary: s rule: less_induct)
  case less
  show ?case
  proof (cases "moves_left s = 0")
    case True
    with less.prems show ?thesis by (auto simp: moves_left_def threads_def)
  next
    case False
    with monitors_leave [OF less.prems] obtain s1 where s1: "monitors_move s s1" "\<not> ut_started s1" by blast
    from less.hyps [OF monitors_move_counts [OF s1(1)] ok_monitors_move [OF s1(1) less.prems(1)] s1(2)] s1(1)
    show ?thesis by (meson converse_rtranclp_into_rtranclp)
  qed
qed

text \<open>A closed transport has no socket, and its monitors return at their next turn.\<close>

lemma closed_returns:
  assumes "endpoints_ok s" "ut_closed s" "m \<in> threads s" "possible_read s m r"
  shows "ut_open s = [] \<and> returns_on s m r"
  using assms by (auto simp: endpoints_ok_def sockets_ok_def possible_read_def returns_on_def monitor_turn_def)

section \<open>Sending\<close>

text \<open>\<open>Send\<close> with the sockets of the transport; an address is the number of a socket.\<close>

definition UDP_Send :: "Endpoints \<Rightarrow> intf_id \<Rightarrow> bytes \<Rightarrow> Graph \<Rightarrow> string + (nat \<times> bytes)" where
  "UDP_Send s x frame g =
     (case intf_in (gr_nodes g) x of
        None \<Rightarrow> Inl ''local interface is not attached to a node''
      | Some localIntf \<Rightarrow>
          (case remote_of g x of
             None \<Rightarrow> Inl ''interface has no connected peer''
           | Some y \<Rightarrow>
               (case intf_in (gr_nodes g) y of
                  None \<Rightarrow> Inl ''interface has no connected peer''
                | Some remoteIntf \<Rightarrow>
                    if \<not> IsUp (gr_links g) (link localIntf) then Inl ''link is down''
                    else (case (map_of (ut_sockets s) (fst x), map_of (ut_sockets s) (fst y)) of
                            (Some sender, Some receiver) \<Rightarrow>
                              (let payload = udp_payload remoteIntf frame in
                               if length payload > UDP_MAX_PAYLOAD then Inl ''failed to send UDP frame''
                               else Inr (receiver, payload))
                          | _ \<Rightarrow> Inl ''UDP endpoint is missing''))))"

text \<open>
  The sockets as the network sees them: every node has one until the transport is closed.  Then a
  send puts its datagram into the socket of the peer's node.
\<close>

definition serves :: "Endpoints \<Rightarrow> Graph \<Rightarrow> bool" where
  "serves s g \<longleftrightarrow> endpoints_ok s \<and> graph_ok g \<and> gr_transport g = UDPTransport \<and> (gr_transport_closed g \<longleftrightarrow> ut_closed s) \<and>
     (\<not> ut_closed s \<longrightarrow> fst ` set (ut_sockets s) = {..<length (gr_nodes g)})"

lemma serves_socket:
  assumes "serves s g" "n < length (gr_nodes g)"
  shows "if ut_closed s then map_of (ut_sockets s) n = None else map_of (ut_sockets s) n \<noteq> None"
  using assms by (auto simp: serves_def endpoints_ok_def sockets_ok_def map_of_eq_None_iff)

lemma intf_in_less: "intf_in nodes x = Some i \<Longrightarrow> fst x < length nodes"
  by (auto simp: intf_in_def split: if_splits)

lemma UDP_Send_as_network:
  assumes s: "serves s g" and x: "intf_in (gr_nodes g) x = Some intf"
  shows "case UDP_Send s x frame g of
      Inl e \<Rightarrow> transport_enqueue x frame g = Inl e
    | Inr (receiver, payload) \<Rightarrow>
        \<exists>n. map_of (ut_sockets s) n = Some receiver \<and>
          transport_enqueue x frame g = Inr (g\<lparr>gr_datagrams := gr_datagrams g @ [(n, payload)]\<rparr>)"
proof (cases "remote_of g x")
  case None
  with x show ?thesis by (simp add: UDP_Send_def transport_enqueue_def)
next
  case (Some y)
  from remote_of_Some [OF _ Some] s obtain r where y: "intf_in (gr_nodes g) y = Some r"
    by (auto simp: serves_def graph_ok_def linked_def split: option.splits)
  from serves_socket [OF s intf_in_less [OF x]] serves_socket [OF s intf_in_less [OF y]]
  show ?thesis
    using Some x y s
    by (auto simp: UDP_Send_def transport_enqueue_def udp_enqueue_def serves_def Let_def split: option.splits if_splits)
qed

lemma serves_new_node:
  assumes "serves s g" "\<not> ut_closed s"
  shows "serves (fst (UDP_Register (Some (length (gr_nodes g))) True s)) (create_graph_node nm g)"
proof -
  have "length (gr_nodes g) \<notin> fst ` set (ut_sockets s)" using assms by (auto simp: serves_def)
  with ok_register [of s "Some (length (gr_nodes g))" True] graph_ok_create_node [of g nm] assms show ?thesis
    by (auto simp: serves_def UDP_Register_def create_graph_node_def update_new lessThan_Suc)
qed

end
