(* ===== verification/Echo.thy ===== *)
theory Echo
  imports GraphRun
begin

text \<open>
  An echo request and its answer: two hosts at the ends of a link, neither of which has resolved the
  other, exchange an ARP request, its reply, the echo request that waited for it and the echo reply.
  There is one lemma per frame, on the node that receives it, and their composition on the network.
\<close>

section \<open>Frames\<close>

definition framed :: "MacAddr \<Rightarrow> MacAddr \<Rightarrow> u16 \<Rightarrow> bytes \<Rightarrow> bytes" where
  "framed dst src etype p = serialize_ethernet_header \<lparr>dst_mac = dst, src_mac = src, ethertype = etype\<rparr> @ p"

lemma ethernet_frame_framed: "p \<noteq> [] \<Longrightarrow> ethernet_frame dst src etype p = Some (framed dst src etype p)"
  by (simp add: ethernet_frame_def tag_packet_with_ethernet_hdr_def serialize_ethernet_frame_def framed_def)

lemma framed_simps [simp]:
  "length (framed dst src etype p) = 14 + length p" "framed dst src etype p \<noteq> []"
  "deserialize_ethernet_header (framed dst src etype p) = Inr \<lparr>dst_mac = dst, src_mac = src, ethertype = etype\<rparr>"
  "drop ETHERNET_HDR_SIZE (framed dst src etype p) = p" "drop 14 (framed dst src etype p) = p"
proof -
  show l: "length (framed dst src etype p) = 14 + length p" by (simp add: framed_def)
  show "framed dst src etype p \<noteq> []" using l by auto
qed (simp_all add: framed_def ETHERNET_HDR_SIZE_def)

lemma readdressed [simp]: "mac_bytes m @ drop 6 (framed dst src etype p) = framed m src etype p"
  by (simp add: framed_def serialize_ethernet_header_def)

lemma u16_at_framed: "u16_at (framed dst src etype p) (14 + i) = u16_at p i"
  by (simp add: framed_def u16_at_def nth_append)

lemma arp_op_at: "u16_at (serialize_arp_header h @ rest) 6 = ah_op_code h"
  using u16_at_put16 [of "put16 (ah_hw_type h) @ put16 (ah_proto_type h) @ [ah_hw_addr_len h, ah_proto_addr_len h]" 6]
  by (simp add: serialize_arp_header_def)

lemma ip_addr_equal_eq [simp]: "ip_addr_equal a b \<longleftrightarrow> a = b"
  by (cases a; cases b) (auto simp: ip_addr_equal_def numeral_eq_Suc less_Suc_eq)

definition echo_packet :: "IpAddr \<Rightarrow> IpAddr \<Rightarrow> bytes \<Rightarrow> bytes" where
  "echo_packet src dst msg = local_ip_packet PROTO_ICMP (ip_to_u32 src) (ip_to_u32 dst) 64 msg"

definition arp_request :: "MacAddr \<Rightarrow> IpAddr \<Rightarrow> IpAddr \<Rightarrow> bytes" where
  "arp_request mac src dst =
     framed broadcast_mac mac ETHERTYPE_ARP
       (serialize_arp_header (arp_packet ARP_OP_REQUEST mac (ip_to_u32 src) zero_mac (ip_to_u32 dst)))"

definition arp_reply :: "MacAddr \<Rightarrow> IpAddr \<Rightarrow> MacAddr \<Rightarrow> IpAddr \<Rightarrow> bytes" where
  "arp_reply mac src dmac dst =
     framed dmac mac ETHERTYPE_ARP
       (serialize_arp_header (arp_packet ARP_OP_REPLY mac (ip_to_u32 src) dmac (ip_to_u32 dst)))"

lemma arp_frames_nonempty [simp]: "arp_request mac src dst \<noteq> []" "arp_reply mac src dmac dst \<noteq> []"
  by (simp_all add: arp_request_def arp_reply_def)

lemma serialized_arp_nonempty [simp]: "serialize_arp_header h \<noteq> []"
  using length_serialize_arp_header [of h] by (auto simp flip: length_greater_0_conv)

section \<open>Hosts\<close>

text \<open>The interface \<open>i\<close> of node \<open>n\<close> has these addresses and a link that is up.\<close>

definition addressed :: "Link list \<Rightarrow> nat \<Rightarrow> Node \<Rightarrow> nat \<Rightarrow> MacAddr \<Rightarrow> IpAddr \<Rightarrow> bool" where
  "addressed links n node i mac ip \<longleftrightarrow>
     (case intf_of node i of None \<Rightarrow> False
      | Some intf \<Rightarrow> IsIPConfigured intf \<and> GetMac intf = mac \<and> GetIP intf = ip \<and> IsUp links (link intf) \<and>
          get_remote_interface links (n, i) intf \<noteq> None)"

text \<open>The node reaches the address directly through the interface.\<close>

definition reaches :: "Node \<Rightarrow> nat \<Rightarrow> IpAddr \<Rightarrow> bool" where
  "reaches node i ip \<longleftrightarrow>
     (case LookupLPM (nd_rt node) (ip_to_u32 ip) of None \<Rightarrow> False
      | Some r \<Rightarrow> r_IsDirect r \<and> route_oif node r (ip_string ip) = Some i) \<and>
     node_get_matching_subnet_interface node (ip_string ip) = Some i"

definition host :: "Link list \<Rightarrow> nat \<Rightarrow> Node \<Rightarrow> nat \<Rightarrow> MacAddr \<Rightarrow> IpAddr \<Rightarrow> IpAddr \<Rightarrow> bool" where
  "host links n node i mac ip peer \<longleftrightarrow>
     addressed links n node i mac ip \<and> reaches node i peer \<and> nd_vlan_interfaces node = [] \<and>
     \<not> isLLDPMulticastMAC mac \<and> \<not> isSTPBridgeGroupMAC mac \<and> ip_to_u32 ip \<noteq> 0 \<and> ip_to_u32 peer \<noteq> 0 \<and> ip \<noteq> peer"

text \<open>What an exchange changes does not matter.\<close>

lemma host_update [simp]:
  "host links n (node\<lparr>nd_arp := t\<rparr>) i mac ip peer \<longleftrightarrow> host links n node i mac ip peer"
  "host links n (node\<lparr>nd_ping_reply_count := c\<rparr>) i mac ip peer \<longleftrightarrow> host links n node i mac ip peer"
  by (simp_all add: host_def addressed_def reaches_def intf_of_def route_oif_def node_get_matching_subnet_interface_def
      cong: option.case_cong)

lemma hostE:
  assumes "host links n node i mac ip peer"
  obtains intf r where "intf_of node i = Some intf" "IsIPConfigured intf" "GetMac intf = mac" "GetIP intf = ip"
    "IsUp links (link intf)" "get_remote_interface links (n, i) intf \<noteq> None"
    "LookupLPM (nd_rt node) (ip_to_u32 peer) = Some r" "r_IsDirect r" "route_oif node r (ip_string peer) = Some i"
    "node_get_matching_subnet_interface node (ip_string peer) = Some i" "nd_vlan_interfaces node = []"
    "\<not> isLLDPMulticastMAC mac" "\<not> isSTPBridgeGroupMAC mac" "ip_to_u32 ip \<noteq> 0" "ip_to_u32 peer \<noteq> 0" "ip \<noteq> peer"
  using assms by (auto simp: host_def addressed_def reaches_def split: option.splits)

lemma host_sends:
  assumes "host (e_links env) (e_self env) node i mac ip peer" "frame \<noteq> []"
  shows "send_frame env node frame i = (True, [Emit (frameProtocol frame) ''frame_sent'' [], Send i frame])"
  by (rule hostE [OF assms(1)]) (simp add: send_frame_def assms(2))

lemma host_qualifies:
  assumes "host (e_links env) (e_self env) node i mac ip peer" "dst = mac \<or> dst = broadcast_mac" 
    "etype \<in> {ETHERTYPE_ARP, ETHERTYPE_IP}"
  shows "snd (deliverTransportFrame env i (framed dst src etype p) (node, b)) =
      (Emit (frameProtocol (framed dst src etype p)) ''frame_received'' [] #
       snd (recv_l3 env i \<lparr>dst_mac = dst, src_mac = src, ethertype = etype\<rparr> (framed dst src etype p) node))"
    "fst (deliverTransportFrame env i (framed dst src etype p) (node, b)) =
      (fst (recv_l3 env i \<lparr>dst_mac = dst, src_mac = src, ethertype = etype\<rparr> (framed dst src etype p) node), b)"
proof -
  obtain intf where h: "intf_of node i = Some intf" "IsIPConfigured intf" "GetMac intf = mac" "IsUp (e_links env) (link intf)"
    "get_remote_interface (e_links env) (e_self env, i) intf \<noteq> None" "\<not> isLLDPMulticastMAC mac" "\<not> isSTPBridgeGroupMAC mac"
    by (rule hostE [OF assms(1)])
  have e: "etype \<noteq> ETHERTYPE_LLDP" "etype \<noteq> ETHERTYPE_VLAN" using assms(3) by (auto simp: ethertype_defs)
  have m: "\<not> isLLDPMulticastMAC dst" "\<not> isSTPBridgeGroupMAC dst"
    using assms(2) h(6,7) by (auto simp: isLLDPMulticastMAC_def isSTPBridgeGroupMAC_def broadcast_mac_def
        lldpMulticastMAC_def stpBridgeGroupMAC_def)
  have l3: "IS_INTF_L3_MODE intf" using h(2) by (simp add: IS_INTF_L3_MODE_def IsIPConfigured_def)
  have q: "l2_frame_recv_qualify_on_iface intf \<lparr>dst_mac = dst, src_mac = src, ethertype = etype\<rparr>"
    using assms(2) h(3) l3 by (auto simp: l2_frame_recv_qualify_on_iface_def broadcast_mac_def)
  have "layer_2_frame_recv env i (framed dst src etype p) (node, b) =
      on_node (recv_l3 env i \<lparr>dst_mac = dst, src_mac = src, ethertype = etype\<rparr> (framed dst src etype p)) (node, b)"
    by (subst layer_2_frame_recv.simps) (simp add: h(1) e m l3 q ETHERNET_HDR_SIZE_def)
  moreover have "link intf \<noteq> None" using h(4) by (auto simp: IsUp_def split: option.splits)
  ultimately have "deliverTransportFrame env i (framed dst src etype p) (node, b) =
      (let (nb', es) = on_node (recv_l3 env i \<lparr>dst_mac = dst, src_mac = src, ethertype = etype\<rparr> (framed dst src etype p)) (node, b)
       in (nb', Emit (frameProtocol (framed dst src etype p)) ''frame_received'' [] # es))"
    using h(4,5) by (auto simp: deliverTransportFrame_def h(1))
  then show "snd (deliverTransportFrame env i (framed dst src etype p) (node, b)) =
      (Emit (frameProtocol (framed dst src etype p)) ''frame_received'' [] #
       snd (recv_l3 env i \<lparr>dst_mac = dst, src_mac = src, ethertype = etype\<rparr> (framed dst src etype p) node))"
    "fst (deliverTransportFrame env i (framed dst src etype p) (node, b)) =
      (fst (recv_l3 env i \<lparr>dst_mac = dst, src_mac = src, ethertype = etype\<rparr> (framed dst src etype p) node), b)"
    by (simp_all add: on_node_def case_prod_beta Let_def)
qed

section \<open>One frame at a time\<close>

definition unknown :: "IpAddr \<Rightarrow> Node \<Rightarrow> bool" where
  "unknown ip node \<longleftrightarrow> \<not> list_ex (\<lambda>e. ae_ip_addr e = ip) (nd_arp node)"

lemma unknown_scans:
  assumes "unknown ip node"
  shows "resolve_scan (nd_arp node) ip p r = None" "learn_scan (nd_arp node) now ip mac nm = None"
proof -
  have "\<not> list_ex (\<lambda>e. ae_ip_addr e = ip) t \<Longrightarrow> resolve_scan t ip p r = None \<and> learn_scan t now ip mac nm = None"
    for t :: "arp_cb arp_table" by (induction t) auto
  with assms show "resolve_scan (nd_arp node) ip p r = None" "learn_scan (nd_arp node) now ip mac nm = None"
    by (simp_all add: unknown_def)
qed

text \<open>The entry that holds the echo request while its destination is being resolved.\<close>

definition waits :: "arp_cb arp_entry \<Rightarrow> IpAddr \<Rightarrow> bytes \<Rightarrow> bool" where
  "waits e ip frame \<longleftrightarrow> ae_ip_addr e = ip \<and> ae_is_sane e \<and>
     (\<exists>p. ae_pending_list e = [p] \<and> pe_pkt p = frame \<and> pe_callback p = Some (SendResolved ip))"

lemma echo_packet_nonempty [simp]: "echo_packet src dst msg \<noteq> []"
  using length_SerializeIPHeader by (auto simp: echo_packet_def local_ip_packet_def simp flip: length_greater_0_conv)

lemma ip_string_u32 [simp]: "IPUint32ToString (ip_to_u32 ip) = ip_string ip"
  by (simp add: IPUint32ToString_def)

lemma demote_on_link:
  assumes h: "host (e_links env) (e_self env) node i mac ip peer" and msg: "length msg \<le> 65515"
  shows "DemotePacketToLayer3 env msg PROTO_ICMP (ip_to_u32 peer) node =
    then_do (node, [Emit ''ICMP'' ''route_selected'' []])
      (DemotePacketToLayer2 env (ip_to_u32 peer) [] (echo_packet ip peer msg) ETHERTYPE_IP)"
  by (rule hostE [OF h])
    (use msg in \<open>simp add: DemotePacketToLayer3_def demotePacketToLayer3WithSource_def demotePacketToLayer3WithOptions_def
      choose_source_def echo_packet_def ipProtocolName_def Let_def\<close>)

lemma request_sent:
  assumes h: "host (e_links env) (e_self env) node i mac ip peer"
  shows "snd (send_arp_broadcast_request env node (Some i) (ip_string peer)) =
    [Emit ''ARP'' ''arp_request_started'' [], Emit (frameProtocol (arp_request mac ip peer)) ''frame_sent'' [],
     Send i (arp_request mac ip peer)]"
proof -
  obtain intf where i: "intf_of node i = Some intf" "IsIPConfigured intf" "GetMac intf = mac" "GetIP intf = ip" "ip \<noteq> peer"
    by (rule hostE [OF h])
  have "arp_request_frame intf peer = Some (arp_request mac ip peer)"
    using i(2-4) by (simp add: arp_request_frame_def ethernet_frame_framed arp_request_def intf_ip_u32_def)
  with i host_sends [OF h, of "arp_request mac ip peer"] show ?thesis
    by (simp add: send_arp_broadcast_request_def parseIPv4_ip_string)
qed

lemma ping_unresolved:
  assumes h: "host (e_links env) (e_self env) node i mac ip peer" and new: "unknown peer node"
  shows "\<exists>e fs. Layer5PingFunc env (ip_string peer) node =
      (node\<lparr>nd_arp := e # nd_arp node\<rparr>, fs @ [Send i (arp_request mac ip peer)]) \<and> sends fs = [] \<and>
    waits e peer (framed zero_mac mac ETHERTYPE_IP (echo_packet ip peer newICMPEchoRequest))"
proof -
  obtain intf where i: "intf_of node i = Some intf" "IsIPConfigured intf" "GetMac intf = mac" "GetIP intf = ip"
    "node_get_matching_subnet_interface node (ip_string peer) = Some i" "ip_to_u32 peer \<noteq> 0" "ip \<noteq> peer"
    by (rule hostE [OF h])
  let ?f = "framed zero_mac mac ETHERTYPE_IP (echo_packet ip peer newICMPEchoRequest)"
  let ?e = "incomplete_entry peer (get_interface_name intf) (e_now env)
      (mk_pending ?f (length ?f) (Some (SendResolved peer)) (Some (DropUnresolved i peer ?f)))
      (Some (RetryRequest i (ip_string peer)))"
  let ?node = "node\<lparr>nd_arp := ?e # nd_arp node\<rparr>"
  have h1: "host (e_links env) (e_self env) ?node i mac ip peer" using h by simp
  note request_sent [OF h1]
  moreover have "DemotePacketToLayer2 env (ip_to_u32 peer) [] (echo_packet ip peer newICMPEchoRequest) ETHERTYPE_IP node =
      (?node, Emit ''ARP'' ''arp_lookup_missed'' [] # snd (send_arp_broadcast_request env ?node (Some i) (ip_string peer)))"
    using i by (simp add: DemotePacketToLayer2_def demote_oif_def ethernet_frame_framed arp_table_resolve_or_queue_def
        unknown_scans [OF new] Let_def)
  ultimately have "Layer5PingFunc env (ip_string peer) node =
      (?node, [Emit ''ICMP'' ''route_selected'' [], Emit ''ARP'' ''arp_lookup_missed'' [], Emit ''ARP'' ''arp_request_started'' [],
        Emit (frameProtocol (arp_request mac ip peer)) ''frame_sent'' []] @ [Send i (arp_request mac ip peer)])"
    by (simp add: Layer5PingFunc_def demote_on_link [OF h] newICMPEchoRequest_def)
  moreover have "waits ?e peer ?f" by (simp add: waits_def incomplete_entry_def mk_pending_def)
  ultimately show ?thesis by (intro exI conjI) (assumption, simp_all)
qed

text \<open>The newest binding of the node is this one.\<close>

definition knows :: "IpAddr \<Rightarrow> MacAddr \<Rightarrow> Node \<Rightarrow> bool" where
  "knows ip mac node \<longleftrightarrow>
     (case nd_arp node of [] \<Rightarrow> False | e # _ \<Rightarrow> ae_ip_addr e = ip \<and> \<not> ae_is_sane e \<and> ae_mac_addr e = mac)"

lemma knows_lookup: "knows ip mac node \<Longrightarrow> arp_table_lookup (nd_arp node) ip = Some mac"
  by (cases "nd_arp node") (simp_all add: knows_def)

lemma knows_resolve:
  "knows ip mac node \<Longrightarrow> 0 < length pkt \<Longrightarrow>
     arp_table_resolve_or_queue (nd_arp node) now ip nm pkt (length pkt) c f r = (nd_arp node, Resolved mac)"
  by (cases "nd_arp node") (auto simp: knows_def arp_table_resolve_or_queue_def)

lemma arp_header_at [simp]: "deserialize_arp_header (serialize_arp_header h) = Inr h"
  using deserialize_serialize_arp_header [of h "[]"] by simp

lemma recv_arp:
  "recv_l3 env i \<lparr>dst_mac = d, src_mac = s, ethertype = ETHERTYPE_ARP\<rparr> (framed d s ETHERTYPE_ARP (serialize_arp_header h)) node =
    (if ah_op_code h = ARP_OP_REQUEST
     then process_arp_broadcast_request env i (framed d s ETHERTYPE_ARP (serialize_arp_header h)) node
     else if ah_op_code h = ARP_OP_REPLY
     then process_arp_reply_msg env i (framed d s ETHERTYPE_ARP (serialize_arp_header h)) node
     else (node, []))"
  using u16_at_framed [of d s ETHERTYPE_ARP "serialize_arp_header h" 6] arp_op_at [of h "[]"]
  by (simp add: recv_l3_def layer_2_frame_recv_arp_def ETHERNET_HDR_SIZE_def)

lemma request_answered:
  assumes h: "host (e_links env) (e_self env) node i mac ip peer" and new: "unknown peer node"
  shows "\<exists>t es. deliverTransportFrame env i (arp_request pmac peer ip) (node, b) = ((node\<lparr>nd_arp := t\<rparr>, b), es) \<and>
    knows peer pmac (node\<lparr>nd_arp := t\<rparr>) \<and> sends es = [(i, arp_reply mac ip pmac peer)]"
proof -
  obtain intf where i: "intf_of node i = Some intf" "IsIPConfigured intf" "GetMac intf = mac" "GetIP intf = ip"
    "nd_vlan_interfaces node = []" "ip_to_u32 peer \<noteq> 0"
    by (rule hostE [OF h])
  let ?t = "complete_entry peer pmac (intf_name_of node i) (e_now env) # nd_arp node" and ?hdr = "arp_packet ARP_OP_REQUEST pmac (ip_to_u32 peer) zero_mac (ip_to_u32 ip)"
  let ?node = "node\<lparr>nd_arp := ?t\<rparr>"
  have h1: "host (e_links env) (e_self env) ?node i mac ip peer" using h by simp
  have i1: "intf_of ?node i = Some intf" using i(1) by (simp add: intf_of_def)
  have reply: "arp_reply_frame intf ip ?hdr = Some (arp_reply mac ip pmac peer)"
    using i(3) by (simp add: arp_reply_frame_def ethernet_frame_framed arp_reply_def arp_packet_def)
  have should: "arp_should_reply node i ip" using i by (simp add: arp_should_reply_def)
  have answer: "send_arp_reply_msg env ?node (arp_request pmac peer ip) i ip =
      [Emit ''ARP'' ''arp_reply_created'' [], Emit (frameProtocol (arp_reply mac ip pmac peer)) ''frame_sent'' [],
       Send i (arp_reply mac ip pmac peer)]"
    using host_sends [OF h1, of "arp_reply mac ip pmac peer"] reply i(5)
    by (simp add: send_arp_reply_msg_def i1 arp_request_def)
  have learn: "arp_learn_binding env i peer pmac False node = (?node, [Emit ''ARP'' ''arp_resolved'' []])"
    by (simp add: arp_learn_binding_def arp_table_learn_def unknown_scans [OF new])
  have "process_arp_broadcast_request env i (arp_request pmac peer ip) node =
      (?node, [Emit ''ARP'' ''arp_resolved'' [], Emit ''ARP'' ''arp_request_received'' []] @
        send_arp_reply_msg env ?node (arp_request pmac peer ip) i ip)"
    using i(6) by (simp add: process_arp_broadcast_request_def arp_request_def [of pmac] arp_packet_def should learn Let_def)
  then have "recv_l3 env i \<lparr>dst_mac = broadcast_mac, src_mac = pmac, ethertype = ETHERTYPE_ARP\<rparr> (arp_request pmac peer ip) node =
      (?node, [Emit ''ARP'' ''arp_resolved'' [], Emit ''ARP'' ''arp_request_received'' []] @
        send_arp_reply_msg env ?node (arp_request pmac peer ip) i ip)"
    by (simp add: arp_request_def recv_arp arp_packet_def)
  then have "deliverTransportFrame env i (arp_request pmac peer ip) (node, b) = ((?node, b),
      snd (deliverTransportFrame env i (arp_request pmac peer ip) (node, b))) \<and>
      sends (snd (deliverTransportFrame env i (arp_request pmac peer ip) (node, b))) = [(i, arp_reply mac ip pmac peer)]"
    using host_qualifies [OF h, of broadcast_mac ETHERTYPE_ARP pmac _ b] answer
    by (simp add: prod_eq_iff arp_request_def)
  moreover have "knows peer pmac ?node" by (simp add: knows_def complete_entry_def)
  ultimately show ?thesis by blast
qed

lemma reply_releases:
  assumes h: "host (e_links env) (e_self env) node i mac ip peer"
    and w: "nd_arp node = e # t" "waits e peer (framed zero_mac mac ETHERTYPE_IP p)"
  shows "\<exists>t es. deliverTransportFrame env i (arp_reply pmac peer mac ip) (node, b) = ((node\<lparr>nd_arp := t\<rparr>, b), es) \<and>
    knows peer pmac (node\<lparr>nd_arp := t\<rparr>) \<and> sends es = [(i, framed pmac mac ETHERTYPE_IP p)]"
proof -
  obtain pe where pe: "ae_ip_addr e = peer" "ae_pending_list e = [pe]" "pe_pkt pe = framed zero_mac mac ETHERTYPE_IP p"
    "pe_callback pe = Some (SendResolved peer)" using w(2) by (auto simp: waits_def)
  let ?e = "e\<lparr>ae_mac_addr := pmac, ae_is_sane := False, ae_updated_at := e_now env,
      ae_oif_name := go_copy (ae_oif_name e) (intf_name_of node i), ae_pending_list := [], ae_retry := None\<rparr>"
  let ?node = "node\<lparr>nd_arp := ?e # t\<rparr>"
  have h1: "host (e_links env) (e_self env) ?node i mac ip peer" using h by simp
  have k: "knows peer pmac ?node" using pe(1) by (simp add: knows_def)
  have "process_arp_pending_entry env ?node i pe =
      [Emit ''ARP'' ''arp_entry_selected'' [], Emit (frameProtocol (framed pmac mac ETHERTYPE_IP p)) ''frame_sent'' [],
       Send i (framed pmac mac ETHERTYPE_IP p)]"
    using host_sends [OF h1, of "framed pmac mac ETHERTYPE_IP p"] knows_lookup [OF k]
    by (simp add: process_arp_pending_entry_def run_callback_def pe ETHERNET_HDR_SIZE_def)
  then have "process_arp_reply_msg env i (arp_reply pmac peer mac ip) node =
      (?node, [Emit ''ARP'' ''arp_resolved'' [], Emit ''ARP'' ''arp_entry_selected'' [],
        Emit (frameProtocol (framed pmac mac ETHERTYPE_IP p)) ''frame_sent'' [],
        Send i (framed pmac mac ETHERTYPE_IP p), Emit ''ARP'' ''pending_packets_released'' []])"
    by (simp add: process_arp_reply_msg_def arp_reply_def arp_packet_def arp_learn_binding_def arp_table_learn_def w(1) pe(1,2))
  moreover have "ARP_OP_REPLY \<noteq> ARP_OP_REQUEST" by (simp add: ARP_OP_REPLY_def ARP_OP_REQUEST_def)
  ultimately have "recv_l3 env i \<lparr>dst_mac = mac, src_mac = pmac, ethertype = ETHERTYPE_ARP\<rparr> (arp_reply pmac peer mac ip) node =
      (?node, [Emit ''ARP'' ''arp_resolved'' [], Emit ''ARP'' ''arp_entry_selected'' [],
        Emit (frameProtocol (framed pmac mac ETHERTYPE_IP p)) ''frame_sent'' [],
        Send i (framed pmac mac ETHERTYPE_IP p), Emit ''ARP'' ''pending_packets_released'' []])"
    by (simp add: arp_reply_def recv_arp arp_packet_def)
  then have "deliverTransportFrame env i (arp_reply pmac peer mac ip) (node, b) = ((?node, b),
      snd (deliverTransportFrame env i (arp_reply pmac peer mac ip) (node, b))) \<and>
      sends (snd (deliverTransportFrame env i (arp_reply pmac peer mac ip) (node, b))) = [(i, framed pmac mac ETHERTYPE_IP p)]"
    using host_qualifies [OF h, of mac ETHERTYPE_ARP pmac _ b] by (simp add: prod_eq_iff arp_reply_def)
  with k show ?thesis by blast
qed

lemma delivered_locally:
  assumes "host links n node i mac ip peer" shows "IsLayer3LocalDelivery node (ip_to_u32 ip)"
proof -
  obtain intf where i: "intf_of node i = Some intf" "IsIPConfigured intf" "GetIP intf = ip" by (rule hostE [OF assms])
  then have "Some intf \<in> set (nd_intf node)"
    by (metis intf_of_def intf_at_def nth_mem option.distinct(1))
  with i show ?thesis unfolding IsLayer3LocalDelivery_def Let_def ip_string_u32 list_ex_iff
    by (auto intro!: bexI [of _ "Some intf"])
qed

lemma recv_echo:
  assumes h: "host (e_links env) (e_self env) node i mac ip peer" and msg: "length msg \<le> 65515"
  shows "\<exists>hdr. ih_SrcIP hdr = ip_to_u32 peer \<and>
    recv_l3 env i \<lparr>dst_mac = d, src_mac = s, ethertype = ETHERTYPE_IP\<rparr>
      (framed d s ETHERTYPE_IP (echo_packet peer ip msg)) node = handle_local_icmp env hdr msg node"
proof -
  define h0 where "h0 = InitializeIPHeader\<lparr>ih_Protocol := PROTO_ICMP, ih_DstIP := ip_to_u32 ip, ih_TTL := 64,
      ih_SrcIP := ip_to_u32 peer, ih_TotalLen := word_of_nat (20 + length msg)\<rparr>"
  define hdr where "hdr = h0\<lparr>ih_Checksum := u16_at (SerializeIPHeader h0) 10\<rparr>"
  define pkt where "pkt = echo_packet peer ip msg"
  have p: "pkt = SerializeIPHeader h0 @ msg" by (simp add: pkt_def echo_packet_def local_ip_packet_def h0_def)
  have len: "unat (ih_TotalLen h0) = 20 + length msg" using unat_total_length [OF msg] by (simp add: h0_def)
  have plain: "plain_header h0" by (simp add: plain_header_def InitializeIPHeader_def h0_def)
  have parsed: "DeserializeIPHeader pkt = Inr hdr"
    using Deserialize_Serialize [OF plain, of msg] len by (simp add: p hdr_def)
  have hl: "GetIPHeaderLen hdr = 20" "ih_DstIP hdr = ip_to_u32 ip" "ih_Protocol hdr = PROTO_ICMP" "ih_SrcIP hdr = ip_to_u32 peer"
    by (simp_all add: GetIPHeaderLen_def InitializeIPHeader_def hdr_def h0_def)
  have total: "unat (ih_TotalLen hdr) = 20 + length msg" using len by (simp add: hdr_def)
  have pk: "validIPHeaderChecksum (take 20 pkt)" "take (20 + length msg) pkt = pkt" "slice pkt 20 (20 + length msg) = msg" "20 \<le> length pkt"
    by (simp_all add: p validIPHeaderChecksum_Serialize slice_def)
  have "Layer3IPPacketRecvFromBottom env i pkt node = handle_local_icmp env hdr msg node"
    using delivered_locally [OF h] pk
    by (subst Layer3IPPacketRecvFromBottom.simps) (simp add: parsed hl total handleLocalIPPacket_def handled_def Let_def)
  moreover have "ETHERTYPE_IP \<noteq> ETHERTYPE_ARP" by (simp add: ethertype_defs)
  ultimately have "recv_l3 env i \<lparr>dst_mac = d, src_mac = s, ethertype = ETHERTYPE_IP\<rparr>
      (framed d s ETHERTYPE_IP pkt) node = handle_local_icmp env hdr msg node"
    by (simp add: recv_l3_def PromotePacketToLayer3_def)
  with hl(4) show ?thesis unfolding pkt_def by blast
qed

lemma echo_request_type: "newICMPEchoRequest ! 0 = 8" "length newICMPEchoRequest = 8"
  by (simp_all add: newICMPEchoRequest_def newICMPEchoRequestWithSequence_def nth_with_icmp_checksum ICMP_TYPE_ECHO_REQUEST_def)

lemma echo_reply_type:
  assumes "8 \<le> length msg" shows "icmp_echo_reply msg ! 0 = 0" "length (icmp_echo_reply msg) = length msg"
  using assms by (cases msg; simp add: icmp_echo_reply_def nth_with_icmp_checksum nth_put16_at_other)+

lemma echo_answered:
  assumes h: "host (e_links env) (e_self env) node i mac ip peer" and k: "knows peer pmac node"
  shows "\<exists>es. deliverTransportFrame env i (framed mac pmac ETHERTYPE_IP (echo_packet peer ip newICMPEchoRequest)) (node, b) =
      ((node, b), es) \<and>
    sends es = [(i, framed pmac mac ETHERTYPE_IP (echo_packet ip peer (icmp_echo_reply newICMPEchoRequest)))]"
proof -
  obtain intf where i: "intf_of node i = Some intf" "GetMac intf = mac" "ip_to_u32 peer \<noteq> 0"
    "node_get_matching_subnet_interface node (ip_string peer) = Some i"
    by (rule hostE [OF h])
  let ?msg = "icmp_echo_reply newICMPEchoRequest" and ?f = "framed mac pmac ETHERTYPE_IP (echo_packet peer ip newICMPEchoRequest)"
  let ?out = "framed pmac mac ETHERTYPE_IP (echo_packet ip peer ?msg)"
  have l: "length ?msg = 8" using echo_reply_type(2) [of newICMPEchoRequest] echo_request_type by simp
  note resolved = knows_resolve [OF k, of "framed zero_mac mac ETHERTYPE_IP (echo_packet ip peer ?msg)", unfolded framed_simps]
  have "DemotePacketToLayer2 env (ip_to_u32 peer) [] (echo_packet ip peer ?msg) ETHERTYPE_IP node =
      (node, [Emit ''ARP'' ''arp_entry_selected'' [], Emit (frameProtocol ?out) ''frame_sent'' [], Send i ?out])"
    using i host_sends [OF h, of ?out] resolved
    by (simp add: DemotePacketToLayer2_def demote_oif_def demote_resolved_def ethernet_frame_framed Let_def)
  then have "handle_local_icmp env hdr newICMPEchoRequest node =
      (node, [Emit ''ICMP'' ''icmp_echo_request_received'' [], Emit ''ICMP'' ''icmp_echo_reply_created'' [],
        Emit ''ICMP'' ''route_selected'' [], Emit ''ARP'' ''arp_entry_selected'' [],
        Emit (frameProtocol ?out) ''frame_sent'' [], Send i ?out])" if "ih_SrcIP hdr = ip_to_u32 peer" for hdr
    using that l by (simp add: handle_local_icmp_def echo_request_type demote_on_link [OF h])
  with recv_echo [OF h, of newICMPEchoRequest mac pmac] echo_request_type
  have "fst (recv_l3 env i \<lparr>dst_mac = mac, src_mac = pmac, ethertype = ETHERTYPE_IP\<rparr> ?f node) = node"
    "sends (snd (recv_l3 env i \<lparr>dst_mac = mac, src_mac = pmac, ethertype = ETHERTYPE_IP\<rparr> ?f node)) = [(i, ?out)]"
    by auto
  with host_qualifies [OF h, of mac ETHERTYPE_IP pmac _ b]
  have "fst (deliverTransportFrame env i ?f (node, b)) = (node, b)"
    "sends (snd (deliverTransportFrame env i ?f (node, b))) = [(i, ?out)]" by simp_all
  then show ?thesis by (metis prod.collapse)
qed

lemma reply_counted:
  assumes h: "host (e_links env) (e_self env) node i mac ip peer"
  shows "\<exists>es. deliverTransportFrame env i
        (framed mac pmac ETHERTYPE_IP (echo_packet peer ip (icmp_echo_reply newICMPEchoRequest))) (node, b) =
      ((node\<lparr>nd_ping_reply_count := nd_ping_reply_count node + 1\<rparr>, b), es) \<and> sends es = []"
proof -
  let ?msg = "icmp_echo_reply newICMPEchoRequest" and ?node = "node\<lparr>nd_ping_reply_count := nd_ping_reply_count node + 1\<rparr>"
  let ?f = "framed mac pmac ETHERTYPE_IP (echo_packet peer ip ?msg)"
  have l: "length ?msg = 8" "?msg ! 0 = 0" using echo_reply_type [of newICMPEchoRequest] echo_request_type by simp_all
  then have "handle_local_icmp env hdr ?msg node = (?node, [Emit ''ICMP'' ''icmp_echo_reply_received'' []])" for hdr
    by (simp add: handle_local_icmp_def)
  with recv_echo [OF h, of ?msg mac pmac] l
  have "recv_l3 env i \<lparr>dst_mac = mac, src_mac = pmac, ethertype = ETHERTYPE_IP\<rparr> ?f node =
      (?node, [Emit ''ICMP'' ''icmp_echo_reply_received'' []])" by auto
  with host_qualifies [OF h, of mac ETHERTYPE_IP pmac _ b]
  have "fst (deliverTransportFrame env i ?f (node, b)) = (?node, b)"
    "sends (snd (deliverTransportFrame env i ?f (node, b))) = []" by simp_all
  then show ?thesis by (metis prod.collapse)
qed

section \<open>On the network\<close>

definition in_flight :: "Graph \<Rightarrow> intf_id \<Rightarrow> bytes \<Rightarrow> bool" where
  "in_flight g x frame \<longleftrightarrow> graph_ok g \<and> memory_open g \<and> gr_queue g = [(x, frame)]"

lemma hop:
  assumes "in_flight g (n, i) frame"
    "deliverTransportFrame (env_of g n) i frame (gr_nodes g ! n, gr_budget g) = ((node, b), es)"
  shows "gr_nodes (deliver_one g) = (gr_nodes g)[n := node]" "gr_links (deliver_one g) = gr_links g"
    "remote_of (deliver_one g) = remote_of g" "drain g = drain (deliver_one g)"
    "sends es = [] \<Longrightarrow> gr_queue (deliver_one g) = []"
    "sends es = [(i, out)] \<Longrightarrow> remote_of g (n, i) = Some y \<Longrightarrow> in_flight (deliver_one g) y out"
proof -
  have g: "graph_ok g" "memory_open g" "gr_queue g = [((n, i), frame)]" using assms(1) by (simp_all add: in_flight_def)
  have same: "graph_ok (deliver_one g)" "same_net g (deliver_one g)" using ok_deliver_one [OF g(1)] by simp_all
  show "gr_nodes (deliver_one g) = (gr_nodes g)[n := node]"
    by (simp add: deliver_one_def g(3) assms(2) enqueue_effects_nodes set_node_def)
  show "gr_links (deliver_one g) = gr_links g" "remote_of (deliver_one g) = remote_of g"
    using same(2) same_net_remote [OF same(2)] by (simp_all add: same_net_def)
  show "drain g = drain (deliver_one g)" using drain_deliver [of g] g(3) by simp
  have queue: "gr_queue (deliver_one g) = routed g n (sends es)"
    using deliver_one_queue [OF g(1,2), of n i frame "[]"] g(3) assms(2) by simp
  then show "sends es = [] \<Longrightarrow> gr_queue (deliver_one g) = []" by (simp add: routed_def)
  show "in_flight (deliver_one g) y out" if "sends es = [(i, out)]" "remote_of g (n, i) = Some y"
    using queue that same g(2) same_net_memory_open [OF same(2)] by (simp add: in_flight_def routed_def)
qed

lemma perform_after_events:
  assumes "sends fs = []"
  shows "\<exists>g'. perform n (fs @ es) g = perform n es g' \<and> gr_nodes g' = gr_nodes g \<and> gr_links g' = gr_links g \<and>
    gr_queue g' = gr_queue g \<and> (graph_ok g \<longrightarrow> graph_ok g') \<and> (memory_open g' \<longleftrightarrow> memory_open g)"
  using assms
proof (induction fs arbitrary: g)
  case (Cons e fs)
  then obtain p a r where e: "e = Emit p a r" by (cases e) auto
  let ?h = "emitNodeEvent n p a r g"
  from Cons.IH [of ?h] Cons.prems obtain g' where
    "perform n (fs @ es) ?h = perform n es g' \<and> gr_nodes g' = gr_nodes ?h \<and> gr_links g' = gr_links ?h \<and>
      gr_queue g' = gr_queue ?h \<and> (graph_ok ?h \<longrightarrow> graph_ok g') \<and> (memory_open g' \<longleftrightarrow> memory_open ?h)" by (auto simp: e)
  then show ?case using ok_emit [of g n p a r] same_net_memory_open [of g ?h]
    by (intro exI [of _ g']) (auto simp: e perform_effect_def memory_open_def)
qed auto

lemma env_of_links [simp]: "e_links (env_of g n) = gr_links g" "e_self (env_of g n) = n"
  by (simp_all add: env_of_def)

text \<open>From the request in flight to the reply that is counted: four deliveries.\<close>

lemma request_to_reply:
  assumes g: "in_flight g (m, j) (arp_request ma a b)"
    and net: "remote_of g (n, i) = Some (m, j)" "remote_of g (m, j) = Some (n, i)" "n \<noteq> m"
      "n < length (gr_nodes g)" "m < length (gr_nodes g)"
    and a: "host (gr_links g) n (gr_nodes g ! n) i ma a b" "nd_arp (gr_nodes g ! n) = e # t"
      "waits e b (framed zero_mac ma ETHERTYPE_IP (echo_packet a b newICMPEchoRequest))"
    and b: "host (gr_links g) m (gr_nodes g ! m) j mb b a" "unknown a (gr_nodes g ! m)"
  shows "\<exists>g'. drain g = Some g' \<and> gr_queue g' = [] \<and>
    nd_ping_reply_count (gr_nodes g' ! n) = nd_ping_reply_count (gr_nodes g ! n) + 1 \<and>
    arp_table_lookup (nd_arp (gr_nodes g' ! n)) b = Some mb \<and> arp_table_lookup (nd_arp (gr_nodes g' ! m)) a = Some ma"
proof -
  let ?A = "gr_nodes g ! n" and ?B = "gr_nodes g ! m"
  obtain tb es1 where s1: "deliverTransportFrame (env_of g m) j (arp_request ma a b) (?B, gr_budget g) =
      ((?B\<lparr>nd_arp := tb\<rparr>, gr_budget g), es1)" "knows a ma (?B\<lparr>nd_arp := tb\<rparr>)" "sends es1 = [(j, arp_reply mb b ma a)]"
    using request_answered [of "env_of g m" ?B j mb b a ma "gr_budget g"] b by auto
  let ?B1 = "?B\<lparr>nd_arp := tb\<rparr>"
  note h1 = hop [OF g s1(1)]
  define g1 where "g1 = deliver_one g"
  have g1: "in_flight g1 (n, i) (arp_reply mb b ma a)" "gr_nodes g1 = (gr_nodes g)[m := ?B1]" "gr_links g1 = gr_links g"
    "remote_of g1 = remote_of g" "drain g = drain g1"
    using h1(1-4) h1(6) [OF s1(3) net(2)] by (simp_all add: g1_def)
  have n1: "gr_nodes g1 ! n = ?A" "gr_nodes g1 ! m = ?B1" using g1(2) net(3-5) by simp_all
  obtain ta es2 where s2: "deliverTransportFrame (env_of g1 n) i (arp_reply mb b ma a) (?A, gr_budget g1) =
      ((?A\<lparr>nd_arp := ta\<rparr>, gr_budget g1), es2)" "knows b mb (?A\<lparr>nd_arp := ta\<rparr>)"
      "sends es2 = [(i, framed mb ma ETHERTYPE_IP (echo_packet a b newICMPEchoRequest))]"
    using reply_releases [OF _ a(2,3), of "env_of g1 n" i a mb "gr_budget g1"] a(1) g1(3) by auto
  let ?A1 = "?A\<lparr>nd_arp := ta\<rparr>"
  note h2 = hop [OF g1(1), unfolded n1, OF s2(1)]
  define g2 where "g2 = deliver_one g1"
  have g2: "in_flight g2 (m, j) (framed mb ma ETHERTYPE_IP (echo_packet a b newICMPEchoRequest))"
    "gr_nodes g2 = (gr_nodes g1)[n := ?A1]" "gr_links g2 = gr_links g" "remote_of g2 = remote_of g" "drain g = drain g2"
    using h2(1-4) h2(6) [OF s2(3)] net(1) g1(3-5) by (simp_all add: g2_def)
  have n2: "gr_nodes g2 ! n = ?A1" "gr_nodes g2 ! m = ?B1" using g2(2) g1(2) net(3-5) by simp_all
  obtain es3 where s3: "deliverTransportFrame (env_of g2 m) j (framed mb ma ETHERTYPE_IP (echo_packet a b newICMPEchoRequest))
      (?B1, gr_budget g2) = ((?B1, gr_budget g2), es3)"
      "sends es3 = [(j, framed ma mb ETHERTYPE_IP (echo_packet b a (icmp_echo_reply newICMPEchoRequest)))]"
    using echo_answered [of "env_of g2 m" ?B1 j mb b a ma "gr_budget g2"] b(1) s1(2) g2(3) by auto
  note h3 = hop [OF g2(1), unfolded n2, OF s3(1)]
  define g3 where "g3 = deliver_one g2"
  have g3: "in_flight g3 (n, i) (framed ma mb ETHERTYPE_IP (echo_packet b a (icmp_echo_reply newICMPEchoRequest)))"
    "gr_nodes g3 = (gr_nodes g2)[m := ?B1]" "gr_links g3 = gr_links g" "drain g = drain g3"
    using h3(1-4) h3(6) [OF s3(2)] net(2) g2(3-5) by (simp_all add: g3_def)
  have n3: "gr_nodes g3 ! n = ?A1" "gr_nodes g3 ! m = ?B1" using g3(2) g2(2) g1(2) net(3-5) by simp_all
  let ?A2 = "?A1\<lparr>nd_ping_reply_count := nd_ping_reply_count ?A1 + 1\<rparr>"
  obtain es4 where s4: "deliverTransportFrame (env_of g3 n) i (framed ma mb ETHERTYPE_IP (echo_packet b a (icmp_echo_reply newICMPEchoRequest)))
      (?A1, gr_budget g3) = ((?A2, gr_budget g3), es4)" "sends es4 = []"
    using reply_counted [of "env_of g3 n" ?A1 i ma a b mb "gr_budget g3"] a(1) g3(3) by auto
  note h4 = hop [OF g3(1), unfolded n3, OF s4(1)]
  have "drain g = Some (deliver_one g3)"
    using g3(4) h4(4) h4(5) [OF s4(2)] by (simp add: drain_def while_option_unfold)
  moreover have "gr_nodes (deliver_one g3) ! n = ?A2" "gr_nodes (deliver_one g3) ! m = ?B1"
    using h4(1) n3 g3(2) g2(2) g1(2) net(3-5) by simp_all
  ultimately show ?thesis using h4(5) [OF s4(2)] knows_lookup [OF s1(2)] knows_lookup [OF s2(2)] by simp
qed

text \<open>Two hosts on a link that have not resolved each other.\<close>

definition neighbours :: "Graph \<Rightarrow> intf_id \<Rightarrow> MacAddr \<Rightarrow> IpAddr \<Rightarrow> intf_id \<Rightarrow> MacAddr \<Rightarrow> IpAddr \<Rightarrow> bool" where
  "neighbours g x ma a y mb b \<longleftrightarrow>
     fst x \<noteq> fst y \<and> remote_of g x = Some y \<and>
     host (gr_links g) (fst x) (gr_nodes g ! fst x) (snd x) ma a b \<and> unknown b (gr_nodes g ! fst x) \<and>
     host (gr_links g) (fst y) (gr_nodes g ! fst y) (snd y) mb b a \<and> unknown a (gr_nodes g ! fst y)"

lemma echo_exchange:
  assumes net: "graph_ok g" "memory_open g" "gr_queue g = []" and near: "neighbours g (n, i) ma a (m, j) mb b"
  shows "\<exists>g'. run_on n (\<lambda>env. Layer5PingFunc env (ip_string b)) g = Some g' \<and> gr_queue g' = [] \<and>
    nd_ping_reply_count (gr_nodes g' ! n) = nd_ping_reply_count (gr_nodes g ! n) + 1 \<and>
    arp_table_lookup (nd_arp (gr_nodes g' ! n)) b = Some mb \<and> arp_table_lookup (nd_arp (gr_nodes g' ! m)) a = Some ma"
proof -
  have nm: "n \<noteq> m" and link: "remote_of g (n, i) = Some (m, j)"
    and a: "host (gr_links g) n (gr_nodes g ! n) i ma a b" "unknown b (gr_nodes g ! n)"
    and b: "host (gr_links g) m (gr_nodes g ! m) j mb b a" "unknown a (gr_nodes g ! m)"
    using near by (simp_all add: neighbours_def)
  let ?A = "gr_nodes g ! n" and ?B = "gr_nodes g ! m"
  have w: "wired (gr_nodes g) (gr_links g)" using net(1) by (simp add: graph_ok_def)
  have home: "remote_of g (m, j) = Some (n, i)" by (rule remote_of_sym [OF w link])
  have len: "n < length (gr_nodes g)" "m < length (gr_nodes g)"
    using link home by (auto simp: remote_of_def intf_in_def split: option.splits if_splits)
  obtain e fs where ping: "Layer5PingFunc (env_of g n) (ip_string b) ?A =
      (?A\<lparr>nd_arp := e # nd_arp ?A\<rparr>, fs @ [Send i (arp_request ma a b)])" "sends fs = []"
    "waits e b (framed zero_mac ma ETHERTYPE_IP (echo_packet a b newICMPEchoRequest))"
    using ping_unresolved [of "env_of g n" ?A i ma a b] a by auto
  let ?A1 = "?A\<lparr>nd_arp := e # nd_arp ?A\<rparr>"
  have "ok_result (env_of g n) ?A (?A1, fs @ [Send i (arp_request ma a b)])"
    using ok_pings(1) [OF graph_ok_node [OF net(1) len(1)], of "env_of g n" "ip_string b"] ping(1) by simp
  then have A1: "node_ok ?A1" "same_config ?A ?A1" by (simp_all add: ok_result_def)
  obtain g0 where g0: "perform n (fs @ [Send i (arp_request ma a b)]) (set_node n ?A1 g) = perform n [Send i (arp_request ma a b)] g0"
    "gr_nodes g0 = (gr_nodes g)[n := ?A1]" "gr_links g0 = gr_links g" "gr_queue g0 = []" "graph_ok g0" "memory_open g0"
    using perform_after_events [OF ping(2), of n "[Send i (arp_request ma a b)]" "set_node n ?A1 g"]
      ok_set_node [OF net(1) A1 len(1)] net(2,3) same_net_memory_open by (auto simp: set_node_def)
  have "same_net g (set_node n ?A1 g)" using ok_set_node [OF net(1) A1 len(1)] by simp
  then have rm0: "remote_of g0 = remote_of g"
    using same_net_remote [of g g0] g0(2,3) net(2) g0(6) by (simp add: same_net_def set_node_def memory_open_def)
  have A0: "gr_nodes g0 ! n = ?A1" "gr_nodes g0 ! m = ?B" using g0(2) nm len by simp_all
  have "IsUp (gr_links g) (case intf_in (gr_nodes g0) (n, i) of None \<Rightarrow> None | Some intf \<Rightarrow> link intf)"
    by (rule hostE [OF a(1)]) (use len(1) in \<open>simp add: intf_in_def g0(2) intf_of_def\<close>)
  then have sent: "transport_enqueue (n, i) (arp_request ma a b) g0 =
      Inr (g0\<lparr>gr_queue := [((m, j), arp_request ma a b)]\<rparr>)" (is "_ = Inr ?g1")
    using g0(3,4,6) link by (simp add: transport_enqueue_def rm0 memory_open_def)
  have g1: "in_flight ?g1 (m, j) (arp_request ma a b)"
    using ok_enqueue [OF g0(5) sent] g0(6) by (simp add: in_flight_def memory_open_def)
  have run: "run_on n (\<lambda>env. Layer5PingFunc env (ip_string b)) g = drain ?g1"
    by (simp add: run_on_def ping(1) g0(1) perform_effect_def sent split: option.split)
  have "remote_of ?g1 = remote_of g0" by (rule ext) (simp add: remote_of_def cong: option.case_cong)
  then have rm1: "remote_of ?g1 = remote_of g" using rm0 by simp
  have "\<exists>g'. drain ?g1 = Some g' \<and> gr_queue g' = [] \<and>
      nd_ping_reply_count (gr_nodes g' ! n) = nd_ping_reply_count (gr_nodes ?g1 ! n) + 1 \<and>
      arp_table_lookup (nd_arp (gr_nodes g' ! n)) b = Some mb \<and> arp_table_lookup (nd_arp (gr_nodes g' ! m)) a = Some ma"
    using a b link home A0 g0(3) rm1 ping(3) len by (intro request_to_reply [OF g1]) (simp_all add: g0(2) nm)
  then show ?thesis using A0(1) by (simp add: run)
qed

end
