(* ===== verification/EchoSim.thy ===== *)
theory EchoSim
  imports Echo Samples Sockets
begin

text \<open>The simulator reports the answer of a neighbour; two hosts on which this is evaluated, and their sockets.\<close>

lemma host_errors [simp]:
  "host links n (node\<lparr>nd_icmp_errors := es\<rparr>) i mac ip peer \<longleftrightarrow> host links n node i mac ip peer"
  "unknown ip (node\<lparr>nd_icmp_errors := es\<rparr>) \<longleftrightarrow> unknown ip node"
  by (simp_all add: host_def addressed_def reaches_def intf_of_def route_oif_def node_get_matching_subnet_interface_def
      unknown_def cong: option.case_cong)

lemma neighbours_keep:
  assumes "neighbours g (n, i) ma a y mb b" "gr_links h = gr_links g"
    "gr_nodes h = (gr_nodes g)[n := (gr_nodes g ! n)\<lparr>nd_icmp_errors := es\<rparr>]" "remote_of h = remote_of g"
  shows "neighbours h (n, i) ma a y mb b"
proof -
  have "remote_of g (n, i) = Some y" using assms(1) by (simp add: neighbours_def)
  then have "n < length (gr_nodes g)" by (auto simp: remote_of_def intf_in_def split: option.splits if_splits)
  with assms show ?thesis by (simp add: neighbours_def)
qed

lemma ping_from_answered:
  assumes g: "resting g" "memory_open g" and near: "neighbours g (n, i) ma a y mb b"
    and max: "nd_ping_reply_count (gr_nodes g ! n) < nd_ping_reply_count (gr_nodes g ! n) + 1"
  shows "\<exists>g' res. ping_from n source destination (ip_string b) g = Some (g', Inr res) \<and> pr_ReplyReceived res"
proof -
  have link: "remote_of g (n, i) = Some y" using near by (simp add: neighbours_def)
  then have n: "n < length (gr_nodes g)" by (auto simp: remote_of_def intf_in_def split: option.splits if_splits)
  define h where "h = emitEvent (icmp_event source source destination ''ping_started'' [(''destinationIp'', ip_string b)])
    (fst (take_errors n g))"
  have t: "graph_ok (fst (take_errors n g))" "gr_queue (fst (take_errors n g)) = []"
    using resting_take_errors [OF g(1) n] by (simp_all add: resting_def)
  have "same_net g (fst (take_errors n g))"
    using n by (simp add: take_errors_def takeICMPErrors_def set_node_def same_net_def map_update list_update_same_conv)
  then have h: "graph_ok h" "same_net g h" "gr_queue h = []"
    using ok_emitEvent [OF t(1)] t same_net_trans by (simp_all add: h_def)
  have nodes: "gr_nodes h = (gr_nodes g)[n := (gr_nodes g ! n)\<lparr>nd_icmp_errors := []\<rparr>]"
    by (simp add: h_def take_errors_def takeICMPErrors_def set_node_def)
  have near': "neighbours h (n, i) ma a (fst y, snd y) mb b"
    using neighbours_keep [OF near _ nodes same_net_remote [OF h(2)]] h(2) by (simp add: same_net_def)
  from echo_exchange [OF h(1) _ h(3) near'] same_net_memory_open [OF h(2)] g(2) obtain g3 where
    g3: "run_on n (\<lambda>env. Layer5PingFunc env (ip_string b)) h = Some g3"
    "nd_ping_reply_count (gr_nodes g3 ! n) = nd_ping_reply_count (gr_nodes h ! n) + 1" by blast
  then show ?thesis
    using max n by (simp add: ping_from_def h_def [symmetric] case_prod_beta Let_def nodes)
qed

text \<open>Two hosts that have never talked to each other.\<close>

definition sample_hosts :: Graph where
  "sample_hosts = run_commands [SetAddress 0 ''e'' ''10.0.0.1'' 24, SetAddress 1 ''e'' ''10.0.0.2'' 24] sample_net"

lemma sample_hosts_ok: "graph_ok sample_hosts"
  unfolding sample_hosts_def
  by (intro graph_ok_run_commands sample_net_ok) (simp add: command_ok_def)

definition sample_mac :: "Graph \<Rightarrow> intf_id \<Rightarrow> MacAddr" where
  "sample_mac g x = (case intf_in (gr_nodes g) x of None \<Rightarrow> zero_mac | Some intf \<Rightarrow> GetMac intf)"

lemma sample_hosts_neighbours:
  "neighbours sample_hosts (0, 0) (sample_mac sample_hosts (0, 0)) (Ip 10 0 0 1)
     (1, 0) (sample_mac sample_hosts (1, 0)) (Ip 10 0 0 2)"
  by code_simp

lemma sample_hosts_rest:
  "gr_queue sample_hosts = []" "memory_open sample_hosts" "findGraphNode sample_hosts ''a'' = Some 0"
  "resolveDestination sample_hosts ''b'' = Inr (ip_string (Ip 10 0 0 2))" "nd_ping_reply_count (gr_nodes sample_hosts ! 0) = 0"
  by (unfold memory_open_def) code_simp+

lemma sample_hosts_linked:
  "\<exists>intf. intf_in (gr_nodes sample_hosts) (0, 0) = Some intf"
  "gr_datagrams sample_hosts = []" "length (gr_nodes sample_hosts) = 2" "\<not> gr_transport_closed sample_hosts"
proof -
  have "intf_in (gr_nodes sample_hosts) (0, 0) \<noteq> None" by code_simp
  then show "\<exists>intf. intf_in (gr_nodes sample_hosts) (0, 0) = Some intf" by blast
qed (code_simp+)

definition two_sockets :: Endpoints where
  "two_sockets = fst (UDP_Register (Some 1) True (fst (UDP_Register (Some 0) True NewUDPTransport)))"

lemma two_sockets_map: "ut_sockets two_sockets = [(0, 0), (1, 1)]" "\<not> ut_closed two_sockets"
  by code_simp+

lemma two_sockets_serve: "serves two_sockets (sample_hosts\<lparr>gr_transport := UDPTransport\<rparr>)"
proof -
  have "endpoints_ok two_sockets"
    unfolding two_sockets_def by (intro ok_register ok_new_transport) (simp_all add: UDP_Register_def NewUDPTransport_def)
  moreover have "fst ` set (ut_sockets two_sockets) = {..<length (gr_nodes sample_hosts)}"
    by (auto simp: two_sockets_map sample_hosts_linked)
  ultimately show ?thesis
    using sample_hosts_ok by (simp add: serves_def graph_ok_def two_sockets_map sample_hosts_linked queue_ok_def)
qed

lemma two_sockets_send:
  "case UDP_Send two_sockets (0, 0) [1] (sample_hosts\<lparr>gr_transport := UDPTransport\<rparr>) of
     Inl _ \<Rightarrow> False | Inr (receiver, _) \<Rightarrow> receiver = 1"
proof -
  have "case intf_in (gr_nodes sample_hosts) (0, 0) of None \<Rightarrow> False | Some a \<Rightarrow> IsUp (gr_links sample_hosts) (link a)"
    "intf_in (gr_nodes sample_hosts) (1, 0) \<noteq> None" by code_simp+
  then obtain a b where "intf_in (gr_nodes sample_hosts) (0, 0) = Some a" "IsUp (gr_links sample_hosts) (link a)"
    "intf_in (gr_nodes sample_hosts) (1, 0) = Some b" by (auto split: option.splits)
  moreover have "remote_of (sample_hosts\<lparr>gr_transport := t\<rparr>) (0, 0) = Some (1, 0)" for t
    using sample_hosts_neighbours by (simp add: neighbours_def remote_of_def cong: option.case_cong)
  moreover have "length (udp_payload b [1]) \<le> UDP_MAX_PAYLOAD"
    by (simp add: udp_payload_def name_array_def UDP_MAX_PAYLOAD_def IF_NAME_SIZE_def)
  ultimately show ?thesis by (simp add: UDP_Send_def two_sockets_map)
qed

end
