(* ===== verification/Browser.thy ===== *)
theory Browser
  imports Answers
begin

text \<open>
  The functions the WebAssembly build gives to the page (\<open>src/src/wasm_main.go\<close>).  A JavaScript value
  is a datatype: an object is the list of its properties, a number an integer.  Each call starts a
  goroutine that asks the simulator and settles a promise; the simulator's lock makes the requests
  atomic, so the goroutines run in any order.  \<open>syscall/js\<close> panics when it converts a value of the
  wrong type, and a panic in a goroutine ends the program.
\<close>

datatype js = JUndefined | JNull | JBool bool | JNum int | JStr string | JArr "js list" | JObj "(string \<times> js) list"

text \<open>\<open>Value.String\<close>, \<open>Value.Bool\<close> and \<open>Value.Int\<close> of \<open>syscall/js\<close>; None is a panic.\<close>

definition js_String :: "js \<Rightarrow> string" where
  "js_String v =
     (case v of
        JStr s \<Rightarrow> s
      | JUndefined \<Rightarrow> ''<undefined>''
      | JNull \<Rightarrow> ''<null>''
      | JBool b \<Rightarrow> (if b then ''<boolean: true>'' else ''<boolean: false>'')
      | JNum k \<Rightarrow> ''<number: '' @ (if k < 0 then ''-'' else []) @ dec (nat \<bar>k\<bar>) @ ''>''
      | JArr _ \<Rightarrow> ''<object>''
      | JObj _ \<Rightarrow> ''<object>'')"

definition js_Bool :: "js \<Rightarrow> bool option" where
  "js_Bool v = (case v of JBool b \<Rightarrow> Some b | _ \<Rightarrow> None)"

definition js_Int :: "js \<Rightarrow> int option" where
  "js_Int v = (case v of JNum k \<Rightarrow> Some k | _ \<Rightarrow> None)"

text \<open>A JavaScript number holds 53 bits; a larger integer is rounded to the nearest, ties to even.\<close>

fun round_float :: "nat \<Rightarrow> nat \<Rightarrow> nat" where
  "round_float 0 n = n"
| "round_float (Suc e) n =
     (if n < 2 ^ 53 * 2 ^ e then round_float e n
      else (let d = 2 ^ Suc e; q = n div d; r = n mod d
            in d * (if 2 * r > d \<or> (2 * r = d \<and> odd q) then q + 1 else q)))"

definition js_number :: "nat \<Rightarrow> js" where "js_number n = JNum (int (round_float 11 n))"

lemma js_number_exact: "n < 2 ^ 53 \<Longrightarrow> js_number n = JNum (int n)"
proof -
  assume n: "n < 2 ^ 53"
  have "round_float e n = n" for e
  proof (induction e)
    case (Suc e)
    have "(2::nat) ^ 53 * 1 \<le> 2 ^ 53 * 2 ^ e" by (intro mult_left_mono) simp_all
    with n have "n < 2 ^ 53 * 2 ^ e" by linarith
    with Suc show ?case by simp
  qed simp
  then show ?thesis by (simp add: js_number_def)
qed

section \<open>Values for the page\<close>

definition js_list :: "('a \<Rightarrow> js) \<Rightarrow> 'a list \<Rightarrow> js" where "js_list f xs = JArr (map f xs)"

definition js_word :: "'w::len word \<Rightarrow> js" where "js_word w = js_number (unat w)"

definition js_option :: "('a \<Rightarrow> js) \<Rightarrow> 'a option \<Rightarrow> js" where
  "js_option f x = (case x of None \<Rightarrow> JNull | Some y \<Rightarrow> f y)"

definition stringMapToJS :: "(string \<times> string) list \<Rightarrow> js" where
  "stringMapToJS values = JObj (map (\<lambda>(key, value). (key, JStr value)) values)"

definition device_type_name :: "DeviceType option \<Rightarrow> string" where
  "device_type_name t =
     (case t of None \<Rightarrow> [] | Some DEVICE_TYPE_HOST \<Rightarrow> ''host'' | Some DEVICE_TYPE_SWITCH \<Rightarrow> ''switch''
      | Some DEVICE_TYPE_ROUTER \<Rightarrow> ''router'')"

definition interface_object :: "InterfaceState \<Rightarrow> js" where
  "interface_object intf =
     JObj [(''name'', JStr (is_Name intf)), (''ip'', JStr (is_IP intf)), (''mask'', js_word (is_Mask intf)),
           (''mode'', JStr (is_Mode intf)), (''accessVlan'', js_word (is_AccessVLAN intf)),
           (''nativeVlan'', js_word (is_NativeVLAN intf)), (''allowedVlans'', js_list js_word (is_AllowedVLANs intf)),
           (''up'', JBool (is_Up intf))]"

definition vlan_object :: "VLANInterfaceState \<Rightarrow> js" where
  "vlan_object intf = JObj [(''vlan'', js_word (vs_VLAN intf)), (''ip'', JStr (vs_IP intf)), (''mask'', js_word (vs_Mask intf))]"

definition route_object :: "RouteState \<Rightarrow> js" where
  "route_object route =
     JObj [(''destination'', JStr (rs_Destination route)), (''mask'', js_word (rs_Mask route)),
           (''gateway'', JStr (rs_Gateway route)), (''interface'', JStr (rs_Interface route)),
           (''source'', JStr (rs_Source route)), (''adminDistance'', js_word (rs_AdminDistance route)),
           (''metric'', js_word (rs_Metric route)), (''direct'', JBool (rs_Direct route))]"

definition arp_object :: "ARPState \<Rightarrow> js" where
  "arp_object entry =
     JObj [(''ip'', JStr (as_IP entry)), (''mac'', JStr (as_MAC entry)), (''interface'', JStr (as_Interface entry)),
           (''pending'', JBool (as_Pending entry))]"

definition mac_object :: "MACState \<Rightarrow> js" where
  "mac_object entry =
     JObj [(''mac'', JStr (ms_MAC entry)), (''vlan'', js_word (ms_VLAN entry)), (''interface'', JStr (ms_Interface entry))]"

definition lldp_object :: "LLDPNeighborState \<Rightarrow> js" where
  "lldp_object neighbor =
     JObj [(''systemName'', JStr (ls_SystemName neighbor)), (''port'', JStr (ls_Port neighbor)),
           (''localInterface'', JStr (ls_LocalInterface neighbor))]"

definition stp_port_object :: "STPPortStatus \<Rightarrow> js" where
  "stp_port_object port =
     JObj [(''interface'', JStr (ss_Interface port)), (''role'', JStr (ss_Role port)), (''state'', JStr (ss_State port)),
           (''pathCost'', js_word (ss_PathCost port)), (''portId'', JStr (ss_PortID port))]"

definition stp_object :: "STPBridgeState \<Rightarrow> js" where
  "stp_object stp =
     JObj [(''enabled'', JBool (sb_Enabled stp)), (''priority'', js_word (sb_Priority stp)),
           (''bridgeId'', JStr (sb_BridgeID stp)), (''rootId'', JStr (sb_RootID stp)), (''isRoot'', JBool (sb_IsRoot stp)),
           (''rootPathCost'', js_word (sb_RootPathCost stp)), (''rootPort'', JStr (sb_RootPort stp)),
           (''ports'', js_list stp_port_object (sb_Ports stp))]"

definition position_object :: "PositionConfig \<Rightarrow> js" where
  "position_object p = JObj [(''x'', JNum (ps_X p)), (''y'', JNum (ps_Y p))]"

definition nodeStateObject :: "NodeState \<Rightarrow> js" where
  "nodeStateObject state =
     JObj [(''name'', JStr (ns_Name state)), (''type'', JStr (device_type_name (ns_Type state))),
           (''position'', js_option position_object (ns_Position state)), (''loopback'', JStr (ns_Loopback state)),
           (''lldpEnabled'', JBool (ns_LLDPEnabled state)),
           (''interfaces'', js_list interface_object (ns_Interfaces state)),
           (''vlanInterfaces'', js_list vlan_object (ns_VLANInterfaces state)),
           (''routes'', js_list route_object (ns_Routes state)), (''arp'', js_list arp_object (ns_ARP state)),
           (''mac'', js_list mac_object (ns_MAC state)), (''lldp'', js_list lldp_object (ns_LLDP state)),
           (''stp'', stp_object (ns_STP state))]"

definition link_object :: "LinkState \<Rightarrow> js" where
  "link_object l =
     JObj [(''from'', JStr (lk_From l)), (''fromInterface'', JStr (lk_FromInterface l)), (''to'', JStr (lk_To l)),
           (''toInterface'', JStr (lk_ToInterface l)), (''cost'', js_word (lk_Cost l)), (''up'', JBool (lk_Up l))]"

definition canvas_object :: "CanvasConfig \<Rightarrow> js" where
  "canvas_object c = JObj [(''width'', JNum (cv_Width c)), (''height'', JNum (cv_Height c))]"

definition topologyStateToJS :: "TopologyState option \<Rightarrow> js" where
  "topologyStateToJS = js_option (\<lambda>state.
     JObj [(''name'', JStr (ts_Name state)), (''description'', JStr (ts_Description state)),
           (''summary'', JStr (ts_Summary state)), (''defaultSource'', JStr (ts_DefaultSource state)),
           (''defaultDestination'', JStr (ts_DefaultDestination state)),
           (''canvas'', js_option canvas_object (ts_Canvas state)), (''transport'', JStr (ts_Transport state)),
           (''nodes'', js_list nodeStateObject (ts_Nodes state)), (''links'', js_list link_object (ts_Links state))])"

definition icmpErrorsObject :: "ICMPErrorReport list \<Rightarrow> js" where
  "icmpErrorsObject = js_list (\<lambda>report.
     JObj [(''reason'', JStr (ie_Reason report)), (''reporterIp'', JStr (ie_ReporterIP report)),
           (''originalDstIp'', JStr (ie_OriginalDstIP report)), (''type'', js_word (ie_Type report)),
           (''code'', js_word (ie_Code report))])"

definition ping_properties :: "PingResult \<Rightarrow> (string \<times> js) list" where
  "ping_properties result =
     [(''source'', JStr (pr_Source result)), (''destination'', JStr (pr_Destination result)),
      (''destinationIp'', JStr (pr_DestinationIP result)), (''replyReceived'', JBool (pr_ReplyReceived result)),
      (''errors'', icmpErrorsObject (pr_Errors result))]"

definition pingResultToJS :: "PingResult \<Rightarrow> js" where
  "pingResultToJS result = JObj (ping_properties result)"

text \<open>The properties of an event; one that is empty is left out.\<close>

definition unless_empty :: "string \<Rightarrow> string \<Rightarrow> (string \<times> js) list" where
  "unless_empty key value = (if value = [] then [] else [(key, JStr value)])"

definition simulationEventObject :: "SimulationEvent \<Rightarrow> js" where
  "simulationEventObject event =
     JObj ([(''sequence'', js_word (ev_Sequence event)), (''protocol'', JStr (ev_Protocol event)),
            (''node'', JStr (ev_Node event)), (''action'', JStr (ev_Action event))]
           @ unless_empty ''from'' (ev_From event) @ unless_empty ''to'' (ev_To event)
           @ (if ev_Fields event = [] then [] else [(''fields'', stringMapToJS (ev_Fields event))]))"

definition simulationEventsObject :: "SimulationEvent list \<Rightarrow> js" where
  "simulationEventsObject = js_list simulationEventObject"

definition pingTraceResultToJS :: "PingResult \<times> SimulationEvent list \<Rightarrow> js" where
  "pingTraceResultToJS result =
     JObj (ping_properties (fst result) @ [(''events'', simulationEventsObject (snd result))])"

definition hop_object :: "TracerouteHop \<Rightarrow> js" where
  "hop_object hop =
     JObj [(''ttl'', js_number (th_TTL hop)), (''address'', JStr (th_Address hop)), (''reached'', JBool (th_Reached hop)),
           (''timedOut'', JBool (th_TimedOut hop)), (''reason'', JStr (th_Reason hop))]"

definition tracerouteTraceResultToJS :: "TracerouteResult \<times> SimulationEvent list \<Rightarrow> js" where
  "tracerouteTraceResultToJS result =
     JObj [(''source'', JStr (tr_Source (fst result))), (''destination'', JStr (tr_Destination (fst result))),
           (''destinationIp'', JStr (tr_DestinationIP (fst result))), (''reached'', JBool (tr_Reached (fst result))),
           (''hops'', js_list hop_object (tr_Hops (fst result))), (''events'', simulationEventsObject (snd result))]"

definition lldpTraceResultToJS :: "string list \<times> SimulationEvent list \<Rightarrow> js" where
  "lldpTraceResultToJS result =
     JObj [(''advertisers'', js_list JStr (fst result)), (''events'', simulationEventsObject (snd result))]"

section \<open>The functions\<close>

text \<open>
  What a call comes to: a promise rejected at once, a panic, or a request to the simulator that
  settles the promise if it comes back.
\<close>

datatype settlement = Resolved js | Rejected string
datatype answer = Rejects string | Panics | Asks "Simulator \<Rightarrow> (Simulator \<times> settlement) option"

definition settled_by :: "('a \<Rightarrow> js) \<Rightarrow> 'a sim_result \<Rightarrow> (Simulator \<times> settlement) option" where
  "settled_by convert r =
     map_option (map_prod id (\<lambda>x. case x of Inl e \<Rightarrow> Rejected e | Inr result \<Rightarrow> Resolved (convert result))) r"

definition asyncResult :: "('a \<Rightarrow> js) \<Rightarrow> (Simulator \<Rightarrow> 'a sim_result) \<Rightarrow> answer" where
  "asyncResult convert work = Asks (\<lambda>simulator. settled_by convert (work simulator))"

definition or_panic :: "'a option \<Rightarrow> ('a \<Rightarrow> answer) \<Rightarrow> answer" where
  "or_panic x f = (case x of None \<Rightarrow> Panics | Some y \<Rightarrow> f y)"

text \<open>The number of arguments is checked first.\<close>

definition expects :: "nat \<Rightarrow> string \<Rightarrow> (js list \<Rightarrow> answer) \<Rightarrow> js list \<Rightarrow> answer" where
  "expects k message handler args = (if length args \<noteq> k then Rejects message else handler args)"

type_synonym parser = "bytes \<Rightarrow> TopologyConfig option"

definition wasm_loadTopology :: "parser \<Rightarrow> js list \<Rightarrow> answer" where
  "wasm_loadTopology parse = expects 1 ''loadTopology expects YAML text'' (\<lambda>args.
     asyncResult (topologyStateToJS \<circ> Some) (loadTopologyLocked parse (string_bytes (js_String (args ! 0)))))"

definition wasm_ping :: "js list \<Rightarrow> answer" where
  "wasm_ping = expects 2 ''ping expects source and destination'' (\<lambda>args.
     asyncResult pingResultToJS (Ping (js_String (args ! 0)) (js_String (args ! 1))))"

definition wasm_tracePing :: "js list \<Rightarrow> answer" where
  "wasm_tracePing = expects 2 ''tracePing expects source and destination'' (\<lambda>args.
     asyncResult pingTraceResultToJS (TracePing (js_String (args ! 0)) (js_String (args ! 1))))"

definition wasm_traceTraceroute :: "js list \<Rightarrow> answer" where
  "wasm_traceTraceroute = expects 2 ''traceTraceroute expects source and destination'' (\<lambda>args.
     asyncResult tracerouteTraceResultToJS
       (TraceTraceroute (js_String (args ! 0)) (js_String (args ! 1)) DefaultTracerouteMaxHops))"

definition wasm_traceLLDP :: "js list \<Rightarrow> answer" where
  "wasm_traceLLDP = expects 0 ''traceLLDP does not accept arguments'' (\<lambda>args. asyncResult lldpTraceResultToJS TraceLLDP)"

definition wasm_getNodeState :: "js list \<Rightarrow> answer" where
  "wasm_getNodeState = expects 1 ''getNodeState expects a node name'' (\<lambda>args.
     asyncResult nodeStateObject (GetNodeState (js_String (args ! 0))))"

definition wasm_setLLDP :: "js list \<Rightarrow> answer" where
  "wasm_setLLDP = expects 2 ''setLLDP expects a node name and enabled state'' (\<lambda>args.
     or_panic (js_Bool (args ! 1)) (\<lambda>b. asyncResult nodeStateObject (SetLLDP (js_String (args ! 0)) b)))"

definition wasm_setSTP :: "js list \<Rightarrow> answer" where
  "wasm_setSTP = expects 2 ''setSTP expects a node name and enabled state'' (\<lambda>args.
     or_panic (js_Bool (args ! 1)) (\<lambda>b. asyncResult nodeStateObject (SetSTP (js_String (args ! 0)) b)))"

definition wasm_setSTPPriority :: "js list \<Rightarrow> answer" where
  "wasm_setSTPPriority = expects 2 ''setSTPPriority expects a node name and bridge priority'' (\<lambda>args.
     or_panic (js_Int (args ! 1)) (\<lambda>priority.
       if priority < 0 \<or> priority > 65535 then Rejects ''bridge priority is out of range''
       else asyncResult nodeStateObject (SetSTPPriority (js_String (args ! 0)) (word_of_int priority))))"

definition wasm_setLinkState :: "js list \<Rightarrow> answer" where
  "wasm_setLinkState = expects 5 ''setLinkState expects two link endpoints and an up state'' (\<lambda>args.
     or_panic (js_Bool (args ! 4)) (\<lambda>up. asyncResult (topologyStateToJS \<circ> Some)
       (SetLinkState (js_String (args ! 0)) (js_String (args ! 1)) (js_String (args ! 2)) (js_String (args ! 3)) up)))"

definition wasm_reset :: "parser \<Rightarrow> js list \<Rightarrow> answer" where
  "wasm_reset parse args = asyncResult topologyStateToJS (Reset parse)"

definition wasmFunctions :: "parser \<Rightarrow> (string \<times> (js list \<Rightarrow> answer)) list" where
  "wasmFunctions parse =
     [(''loadTopology'', wasm_loadTopology parse), (''ping'', wasm_ping), (''tracePing'', wasm_tracePing),
      (''traceTraceroute'', wasm_traceTraceroute), (''traceLLDP'', wasm_traceLLDP), (''getNodeState'', wasm_getNodeState),
      (''setLLDP'', wasm_setLLDP), (''setSTP'', wasm_setSTP), (''setSTPPriority'', wasm_setSTPPriority),
      (''setLinkState'', wasm_setLinkState), (''reset'', wasm_reset parse)]"

definition wasm_call :: "parser \<Rightarrow> string \<Rightarrow> js list \<Rightarrow> answer option" where
  "wasm_call parse name args = map_option (\<lambda>handler. handler args) (map_of (wasmFunctions parse) name)"

section \<open>The page\<close>

text \<open>
  The calls whose promise is not settled, the promises that are, and whether the program still runs.
  \<open>pg_busy\<close>: a request holds the simulator's lock and does not come back.
\<close>

record page =
  pg_simulator :: Simulator
  pg_calls :: "(nat \<times> string \<times> js list) list"
  pg_settled :: "(nat \<times> settlement) list"
  pg_next :: nat
  pg_running :: bool
  pg_busy :: bool

definition wasm_main :: "int \<Rightarrow> page" where
  "wasm_main now =
     \<lparr>pg_simulator = NewSimulator False now, pg_calls = [], pg_settled = [], pg_next = 0, pg_running = True, pg_busy = False\<rparr>"

definition make_call :: "string \<Rightarrow> js list \<Rightarrow> page \<Rightarrow> page" where
  "make_call name args p = p\<lparr>pg_calls := pg_calls p @ [(pg_next p, name, args)], pg_next := pg_next p + 1\<rparr>"

text \<open>A goroutine of the call \<open>k\<close> runs.  Only a request to the simulator waits for its lock.\<close>

definition run_call :: "nat \<Rightarrow> answer \<Rightarrow> page \<Rightarrow> page" where
  "run_call k a p =
     (case a of
        Rejects e \<Rightarrow> p\<lparr>pg_settled := (k, Rejected e) # pg_settled p\<rparr>
      | Panics \<Rightarrow> p\<lparr>pg_running := False\<rparr>
      | Asks work \<Rightarrow>
          (case work (pg_simulator p) of
             None \<Rightarrow> p\<lparr>pg_busy := True\<rparr>
           | Some (simulator, outcome) \<Rightarrow>
               p\<lparr>pg_simulator := simulator, pg_settled := (k, outcome) # pg_settled p\<rparr>))"

inductive page_step :: "parser \<Rightarrow> page \<Rightarrow> page \<Rightarrow> bool" for parse where
  called: "pg_running p \<Longrightarrow> name \<in> fst ` set (wasmFunctions parse) \<Longrightarrow> page_step parse p (make_call name args p)"
| served: "pg_running p \<Longrightarrow> pg_calls p = earlier @ (k, name, args) # later \<Longrightarrow> wasm_call parse name args = Some a \<Longrightarrow>
    (\<exists>work. a = Asks work) \<longrightarrow> \<not> pg_busy p \<Longrightarrow>
    page_step parse p (run_call k a (p\<lparr>pg_calls := earlier @ later\<rparr>))"

inductive_cases page_stepE: "page_step parse p p'"

end
