(* ===== verification/BrowserProofs.thy ===== *)
theory BrowserProofs
  imports Browser
begin

text \<open>
  What the page can rely on: the type of what each function resolves with, which calls panic, and
  that every promise is settled at most once and, but for the echo requests, is settled.
\<close>

section \<open>Types\<close>

type_synonym js_type = "js \<Rightarrow> bool"

definition is_text :: js_type where "is_text v \<longleftrightarrow> (case v of JStr _ \<Rightarrow> True | _ \<Rightarrow> False)"
definition is_flag :: js_type where "is_flag v \<longleftrightarrow> (case v of JBool _ \<Rightarrow> True | _ \<Rightarrow> False)"
definition is_integer :: js_type where "is_integer v \<longleftrightarrow> (case v of JNum _ \<Rightarrow> True | _ \<Rightarrow> False)"

definition is_number :: "nat \<Rightarrow> js_type" where
  "is_number bits v \<longleftrightarrow> (case v of JNum k \<Rightarrow> 0 \<le> k \<and> k < 2 ^ bits | _ \<Rightarrow> False)"

definition is_array :: "js_type \<Rightarrow> js_type" where
  "is_array t v \<longleftrightarrow> (case v of JArr vs \<Rightarrow> list_all t vs | _ \<Rightarrow> False)"

definition is_dictionary :: "js_type \<Rightarrow> js_type" where
  "is_dictionary t v \<longleftrightarrow> (case v of JObj kvs \<Rightarrow> list_all (t \<circ> snd) kvs | _ \<Rightarrow> False)"

definition or_null :: "js_type \<Rightarrow> js_type" where "or_null t v \<longleftrightarrow> v = JNull \<or> t v"

text \<open>An object with these properties, then perhaps some of the optional ones, and no others.\<close>

fun has_optional :: "(string \<times> js_type) list \<Rightarrow> (string \<times> js) list \<Rightarrow> bool" where
  "has_optional ps [] \<longleftrightarrow> True"
| "has_optional [] (kv # kvs) \<longleftrightarrow> False"
| "has_optional (p # ps) (kv # kvs) \<longleftrightarrow>
     (if fst p = fst kv then snd p (snd kv) \<and> has_optional ps kvs else has_optional ps (kv # kvs))"

definition is_object :: "(string \<times> js_type) list \<Rightarrow> (string \<times> js_type) list \<Rightarrow> js_type" where
  "is_object required optional v \<longleftrightarrow>
     (case v of
        JObj kvs \<Rightarrow>
          list_all2 (\<lambda>p kv. fst p = fst kv \<and> snd p (snd kv)) required (take (length required) kvs) \<and>
          has_optional optional (drop (length required) kvs)
      | _ \<Rightarrow> False)"

lemma has_optional_Nil [simp]: "has_optional [] kvs \<longleftrightarrow> kvs = []"
  by (cases kvs) simp_all

lemma type_simps [simp]:
  "is_text (JStr s)" "is_flag (JBool b)" "is_integer (JNum k)" "or_null t JNull" "t v \<Longrightarrow> or_null t v"
  by (simp_all add: is_text_def is_flag_def is_integer_def or_null_def)

lemma type_js_list [simp]: "(\<And>x. x \<in> set xs \<Longrightarrow> t (f x)) \<Longrightarrow> is_array t (js_list f xs)"
  by (simp add: is_array_def js_list_def list_all_iff)

lemma type_js_option [simp]: "(\<And>y. x = Some y \<Longrightarrow> t (f y)) \<Longrightarrow> or_null t (js_option f x)"
  by (simp add: js_option_def split: option.split)

lemma type_js_word [simp]: "LENGTH('w) \<le> 53 \<Longrightarrow> is_number LENGTH('w) (js_word (w :: 'w::len word))"
proof -
  assume l: "LENGTH('w) \<le> 53"
  have "unat w < 2 ^ LENGTH('w)" by simp
  moreover have "(2::nat) ^ LENGTH('w) \<le> 2 ^ 53" using l by (rule power_increasing) simp
  ultimately have "js_word w = JNum (int (unat w))" unfolding js_word_def by (intro js_number_exact) linarith
  moreover have "int (unat w) < 2 ^ LENGTH('w)"
    using \<open>unat w < 2 ^ LENGTH('w)\<close> by (metis of_nat_less_iff of_nat_numeral of_nat_power)
  ultimately show ?thesis by (simp add: is_number_def)
qed

lemma type_js_word_widths [simp]:
  "is_number 8 (js_word (b :: 8 word))" "is_number 16 (js_word (h :: 16 word))" "is_number 32 (js_word (w :: 32 word))"
  using type_js_word [of b] type_js_word [of h] type_js_word [of w] by simp_all

lemma type_js_number [simp]: "is_integer (js_number n)" "is_integer (js_word w)"
  by (simp_all add: js_number_def js_word_def)

lemma type_stringMap [simp]: "is_dictionary is_text (stringMapToJS fs)"
  by (simp add: is_dictionary_def stringMapToJS_def list_all_iff case_prod_beta)

definition interface_type :: js_type where
  "interface_type = is_object
     [(''name'', is_text), (''ip'', is_text), (''mask'', is_number 8), (''mode'', is_text), (''accessVlan'', is_number 16),
      (''nativeVlan'', is_number 16), (''allowedVlans'', is_array (is_number 16)), (''up'', is_flag)] []"

definition vlan_type :: js_type where
  "vlan_type = is_object [(''vlan'', is_number 16), (''ip'', is_text), (''mask'', is_number 8)] []"

definition route_type :: js_type where
  "route_type = is_object
     [(''destination'', is_text), (''mask'', is_number 8), (''gateway'', is_text), (''interface'', is_text),
      (''source'', is_text), (''adminDistance'', is_number 8), (''metric'', is_number 32), (''direct'', is_flag)] []"

definition arp_type :: js_type where
  "arp_type = is_object [(''ip'', is_text), (''mac'', is_text), (''interface'', is_text), (''pending'', is_flag)] []"

definition mac_type :: js_type where
  "mac_type = is_object [(''mac'', is_text), (''vlan'', is_number 16), (''interface'', is_text)] []"

definition lldp_type :: js_type where
  "lldp_type = is_object [(''systemName'', is_text), (''port'', is_text), (''localInterface'', is_text)] []"

definition stp_port_type :: js_type where
  "stp_port_type = is_object
     [(''interface'', is_text), (''role'', is_text), (''state'', is_text), (''pathCost'', is_number 32), (''portId'', is_text)] []"

definition stp_type :: js_type where
  "stp_type = is_object
     [(''enabled'', is_flag), (''priority'', is_number 16), (''bridgeId'', is_text), (''rootId'', is_text), (''isRoot'', is_flag),
      (''rootPathCost'', is_number 32), (''rootPort'', is_text), (''ports'', is_array stp_port_type)] []"

definition node_type :: js_type where
  "node_type = is_object
     [(''name'', is_text), (''type'', \<lambda>v. v \<in> JStr ` {[], ''host'', ''switch'', ''router''}),
      (''position'', or_null (is_object [(''x'', is_integer), (''y'', is_integer)] [])), (''loopback'', is_text),
      (''lldpEnabled'', is_flag), (''interfaces'', is_array interface_type), (''vlanInterfaces'', is_array vlan_type),
      (''routes'', is_array route_type), (''arp'', is_array arp_type), (''mac'', is_array mac_type),
      (''lldp'', is_array lldp_type), (''stp'', stp_type)] []"

definition link_type :: js_type where
  "link_type = is_object
     [(''from'', is_text), (''fromInterface'', is_text), (''to'', is_text), (''toInterface'', is_text),
      (''cost'', is_number 32), (''up'', is_flag)] []"

definition topology_type :: js_type where
  "topology_type = is_object
     [(''name'', is_text), (''description'', is_text), (''summary'', is_text), (''defaultSource'', is_text),
      (''defaultDestination'', is_text),
      (''canvas'', or_null (is_object [(''width'', is_integer), (''height'', is_integer)] [])), (''transport'', is_text),
      (''nodes'', is_array node_type), (''links'', is_array link_type)] []"

definition report_type :: js_type where
  "report_type = is_object
     [(''reason'', is_text), (''reporterIp'', is_text), (''originalDstIp'', is_text), (''type'', is_number 8),
      (''code'', is_number 8)] []"

definition ping_types :: "(string \<times> js_type) list" where
  "ping_types =
     [(''source'', is_text), (''destination'', is_text), (''destinationIp'', is_text), (''replyReceived'', is_flag),
      (''errors'', is_array report_type)]"

definition event_type :: js_type where
  "event_type = is_object
     [(''sequence'', is_integer), (''protocol'', is_text), (''node'', is_text), (''action'', is_text)]
     [(''from'', is_text), (''to'', is_text), (''fields'', is_dictionary is_text)]"

definition hop_type :: js_type where
  "hop_type = is_object
     [(''ttl'', is_integer), (''address'', is_text), (''reached'', is_flag), (''timedOut'', is_flag), (''reason'', is_text)] []"

text \<open>What each function resolves its promise with.\<close>

definition result_types :: "(string \<times> js_type) list" where
  "result_types =
     [(''loadTopology'', topology_type), (''ping'', is_object ping_types []),
      (''tracePing'', is_object (ping_types @ [(''events'', is_array event_type)]) []),
      (''traceTraceroute'', is_object
         [(''source'', is_text), (''destination'', is_text), (''destinationIp'', is_text), (''reached'', is_flag),
          (''hops'', is_array hop_type), (''events'', is_array event_type)] []),
      (''traceLLDP'', is_object [(''advertisers'', is_array is_text), (''events'', is_array event_type)] []),
      (''getNodeState'', node_type), (''setLLDP'', node_type), (''setSTP'', node_type), (''setSTPPriority'', node_type),
      (''setLinkState'', topology_type), (''reset'', or_null topology_type)]"

named_theorems converted "the type of a converted value"

lemma type_interface [converted]: "interface_type (interface_object x)"
  by (simp add: interface_type_def interface_object_def is_object_def)

lemma type_vlan [converted]: "vlan_type (vlan_object x)"
  by (simp add: vlan_type_def vlan_object_def is_object_def)

lemma type_route [converted]: "route_type (route_object x)"
  by (simp add: route_type_def route_object_def is_object_def)

lemma type_arp [converted]: "arp_type (arp_object x)"
  by (simp add: arp_type_def arp_object_def is_object_def)

lemma type_mac [converted]: "mac_type (mac_object x)"
  by (simp add: mac_type_def mac_object_def is_object_def)

lemma type_lldp [converted]: "lldp_type (lldp_object x)"
  by (simp add: lldp_type_def lldp_object_def is_object_def)

lemma type_stp_port [converted]: "stp_port_type (stp_port_object x)"
  by (simp add: stp_port_type_def stp_port_object_def is_object_def)

lemma type_stp [converted]: "stp_type (stp_object x)"
  by (simp add: stp_type_def stp_object_def is_object_def converted)

lemma type_node [converted]: "node_type (nodeStateObject x)"
  by (simp add: node_type_def nodeStateObject_def is_object_def position_object_def device_type_name_def converted
      split: option.split DeviceType.split)

lemma type_link [converted]: "link_type (link_object x)"
  by (simp add: link_type_def link_object_def is_object_def)

lemma type_topology [converted]: "or_null topology_type (topologyStateToJS s)" "topology_type (topologyStateToJS (Some t))"
  unfolding topologyStateToJS_def
  by (simp_all add: topology_type_def js_option_def or_null_def is_object_def canvas_object_def converted split: option.split)

lemma type_reports [converted]: "is_array report_type (icmpErrorsObject rs)"
  unfolding icmpErrorsObject_def by (rule type_js_list) (simp add: report_type_def is_object_def)

lemma type_event [converted]: "event_type (simulationEventObject e)"
  by (simp add: event_type_def simulationEventObject_def is_object_def unless_empty_def)

lemma type_events [converted]: "is_array event_type (simulationEventsObject es)"
  unfolding simulationEventsObject_def by (rule type_js_list) (rule type_event)

lemma type_hop [converted]: "hop_type (hop_object h)"
  by (simp add: hop_type_def hop_object_def is_object_def)

lemma type_ping [converted]: "is_object ping_types [] (pingResultToJS r)"
  by (simp add: ping_types_def pingResultToJS_def ping_properties_def is_object_def converted)

section \<open>Calls\<close>

text \<open>The arguments a function wants to be of a type other than text.\<close>

definition typed_call :: "string \<Rightarrow> js list \<Rightarrow> bool" where
  "typed_call name args \<longleftrightarrow>
     (name \<in> {''setLLDP'', ''setSTP''} \<longrightarrow> length args = 2 \<longrightarrow> js_Bool (args ! 1) \<noteq> None) \<and>
     (name = ''setSTPPriority'' \<longrightarrow> length args = 2 \<longrightarrow> js_Int (args ! 1) \<noteq> None) \<and>
     (name = ''setLinkState'' \<longrightarrow> length args = 5 \<longrightarrow> js_Bool (args ! 4) \<noteq> None)"

definition echo_function :: "string \<Rightarrow> bool" where
  "echo_function name \<longleftrightarrow> name \<in> {''ping'', ''tracePing'', ''traceTraceroute''}"

lemmas wasm_defs = wasm_loadTopology_def wasm_ping_def wasm_tracePing_def wasm_traceTraceroute_def wasm_traceLLDP_def
  wasm_getNodeState_def wasm_setLLDP_def wasm_setSTP_def wasm_setSTPPriority_def wasm_setLinkState_def wasm_reset_def

lemma wasm_names: "fst ` set (wasmFunctions parse) =
    {''loadTopology'', ''ping'', ''tracePing'', ''traceTraceroute'', ''traceLLDP'', ''getNodeState'', ''setLLDP'', ''setSTP'',
     ''setSTPPriority'', ''setLinkState'', ''reset''}"
  by (auto simp: wasmFunctions_def)

lemma wasm_call_exists: "name \<in> fst ` set (wasmFunctions parse) \<longleftrightarrow> wasm_call parse name args \<noteq> None"
  by (auto simp: wasm_call_def map_of_eq_None_iff)

text \<open>The type of what a request resolves with.\<close>

definition resolves_with :: "js_type \<Rightarrow> answer \<Rightarrow> bool" where
  "resolves_with t a \<longleftrightarrow> (\<forall>work s s' v. a = Asks work \<longrightarrow> work s = Some (s', Resolved v) \<longrightarrow> t v)"

lemma resolves_asks [converted]: "(\<And>x. t (f x)) \<Longrightarrow> resolves_with t (asyncResult f w)"
  by (auto simp: resolves_with_def asyncResult_def settled_by_def split: sum.split_asm)

lemma resolves_at_once [converted]: "resolves_with t (Rejects e)" "resolves_with t Panics"
  by (simp_all add: resolves_with_def)

lemma resolves_or_panic [converted]: "(\<And>y. resolves_with t (f y)) \<Longrightarrow> resolves_with t (or_panic x f)"
  by (simp add: or_panic_def converted split: option.split)

lemma resolves_expects [converted]: "resolves_with t (h args) \<Longrightarrow> resolves_with t (expects k m h args)"
  by (simp add: expects_def converted)

lemma map_of_pairwise:
  assumes "list_all2 (\<lambda>x y. fst x = fst y \<and> R (snd x) (snd y)) xs ys" "map_of xs n = Some a"
  shows "\<exists>b. map_of ys n = Some b \<and> R a b"
  using assms by (induction rule: list_all2_induct) (auto split: if_splits)

lemma type_traces [converted]:
  "is_object (ping_types @ [(''events'', is_array event_type)]) [] (pingTraceResultToJS r)"
  "is_object [(''source'', is_text), (''destination'', is_text), (''destinationIp'', is_text), (''reached'', is_flag),
     (''hops'', is_array hop_type), (''events'', is_array event_type)] [] (tracerouteTraceResultToJS r')"
  "is_object [(''advertisers'', is_array is_text), (''events'', is_array event_type)] [] (lldpTraceResultToJS r'')"
  by (simp_all add: pingTraceResultToJS_def ping_types_def ping_properties_def tracerouteTraceResultToJS_def
      lldpTraceResultToJS_def is_object_def converted)

lemma wasm_result_types:
  "list_all2 (\<lambda>x y. fst x = fst y \<and> (\<forall>args. resolves_with (snd y) (snd x args))) (wasmFunctions parse) result_types"
  unfolding wasmFunctions_def result_types_def wasm_defs
  by (simp add: converted)

lemma wasm_resolves:
  assumes "wasm_call parse name args = Some a"
  shows "\<exists>t. map_of result_types name = Some t \<and> resolves_with t a"
proof -
  obtain h where h: "map_of (wasmFunctions parse) name = Some h" "a = h args" using assms by (auto simp: wasm_call_def)
  from map_of_pairwise [OF wasm_result_types h(1)] h(2) show ?thesis by auto
qed

lemma expects_Panics: "expects k m h args = Panics \<longleftrightarrow> length args = k \<and> h args = Panics"
  by (simp add: expects_def)

lemma or_panic_Panics: "or_panic x f = Panics \<longleftrightarrow> (case x of None \<Rightarrow> True | Some y \<Rightarrow> f y = Panics)"
  by (simp add: or_panic_def split: option.split)

lemma async_Panics: "asyncResult f w \<noteq> Panics"
  by (simp add: asyncResult_def)

lemma wasm_all_panics: "list_all (\<lambda>x. \<forall>args. snd x args = Panics \<longleftrightarrow> \<not> typed_call (fst x) args) (wasmFunctions parse)"
  unfolding wasmFunctions_def wasm_defs typed_call_def
  by (auto simp: expects_Panics or_panic_Panics async_Panics split: option.split)

lemma wasm_panics:
  assumes "wasm_call parse name args = Some a" shows "a = Panics \<longleftrightarrow> \<not> typed_call name args"
  using assms wasm_all_panics [of parse] by (fastforce simp: wasm_call_def list_all_iff dest: map_of_SomeD)

text \<open>A request of the page is a request to the simulator.\<close>

definition asks_simulator :: "parser \<Rightarrow> string \<Rightarrow> answer \<Rightarrow> bool" where
  "asks_simulator parse name a \<longleftrightarrow>
     (\<forall>work. a = Asks work \<longrightarrow>
        (\<exists>q. (\<forall>s. map_option fst (work s) = serve parse q s) \<and> (echo_request q \<longrightarrow> echo_function name)))"

named_theorems asking "a call that is a request to the simulator"

lemma asks_by:
  assumes "\<And>s. serve parse q s = after (w s)" "echo_request q \<Longrightarrow> echo_function name"
  shows "asks_simulator parse name (asyncResult f w)"
proof -
  have "map_option fst (settled_by f (w s)) = serve parse q s" for s
    by (simp add: assms(1) settled_by_def after_def option.map_comp comp_def)
  with assms(2) show ?thesis by (auto simp: asks_simulator_def asyncResult_def)
qed

lemma asks_at_once [asking]: "asks_simulator parse name (Rejects e)" "asks_simulator parse name Panics"
  by (simp_all add: asks_simulator_def)

lemma asks_or_panic [asking]: "(\<And>y. asks_simulator parse name (f y)) \<Longrightarrow> asks_simulator parse name (or_panic x f)"
  by (simp add: or_panic_def asking split: option.split)

lemma asks_expects [asking]: "asks_simulator parse name (h args) \<Longrightarrow> asks_simulator parse name (expects k m h args)"
  by (simp add: expects_def asking)

lemma asks_load [asking]: "asks_simulator parse name (asyncResult f (loadTopologyLocked parse y))"
  by (rule asks_by [of parse "Load y"]) (simp_all add: serve_def echo_request_def)

lemma asks_reset [asking]: "asks_simulator parse name (asyncResult f (Reset parse))"
  by (rule asks_by [of parse "Restart"]) (simp_all add: serve_def echo_request_def)

lemma asks_ping [asking]: "echo_function name \<Longrightarrow> asks_simulator parse name (asyncResult f (Ping a b))"
  by (rule asks_by [of parse "PingRequest a b"]) (simp_all add: serve_def echo_request_def)

lemma asks_tracePing [asking]: "echo_function name \<Longrightarrow> asks_simulator parse name (asyncResult f (TracePing a b))"
  by (rule asks_by [of parse "TracePingRequest a b"]) (simp_all add: serve_def echo_request_def)

lemma asks_traceTraceroute [asking]: "echo_function name \<Longrightarrow> asks_simulator parse name (asyncResult f (TraceTraceroute a b k))"
  by (rule asks_by [of parse "TraceTracerouteRequest a b k"]) (simp_all add: serve_def echo_request_def)

lemma asks_traceLLDP [asking]: "asks_simulator parse name (asyncResult f (TraceLLDP))"
  by (rule asks_by [of parse "LldpRound"]) (simp_all add: serve_def echo_request_def)

lemma asks_getNodeState [asking]: "asks_simulator parse name (asyncResult f (GetNodeState a))"
  by (rule asks_by [of parse "Inspect a"]) (simp_all add: serve_def echo_request_def)

lemma asks_setLLDP [asking]: "asks_simulator parse name (asyncResult f (SetLLDP a u))"
  by (rule asks_by [of parse "SwitchLldp a u"]) (simp_all add: serve_def echo_request_def)

lemma asks_setSTP [asking]: "asks_simulator parse name (asyncResult f (SetSTP a u))"
  by (rule asks_by [of parse "SwitchStp a u"]) (simp_all add: serve_def echo_request_def)

lemma asks_setSTPPriority [asking]: "asks_simulator parse name (asyncResult f (SetSTPPriority a p))"
  by (rule asks_by [of parse "ChangePriority a p"]) (simp_all add: serve_def echo_request_def)

lemma asks_setLinkState [asking]: "asks_simulator parse name (asyncResult f (SetLinkState a b c d u))"
  by (rule asks_by [of parse "ChangeLink a b c d u"]) (simp_all add: serve_def echo_request_def)

lemma wasm_all_ask: "list_all (\<lambda>x. \<forall>args. asks_simulator parse (fst x) (snd x args)) (wasmFunctions parse)"
  unfolding wasmFunctions_def wasm_defs
  by (simp add: asking echo_function_def)

lemma wasm_serves:
  "wasm_call parse name args = Some (Asks work) \<Longrightarrow>
     \<exists>q. (\<forall>s. map_option fst (work s) = serve parse q s) \<and> (echo_request q \<longrightarrow> echo_function name)"
  using wasm_all_ask [of parse]
  by (fastforce simp: wasm_call_def list_all_iff asks_simulator_def dest: map_of_SomeD)

section \<open>Promises\<close>

definition promises :: "page \<Rightarrow> nat list" where
  "promises p = map fst (pg_calls p) @ map fst (pg_settled p)"

text \<open>
  While the program runs and holds no lock for ever, every promise that was made waits or is settled,
  and is so once.
\<close>

definition page_ok :: "parser \<Rightarrow> page \<Rightarrow> bool" where
  "page_ok parse p \<longleftrightarrow> sim_ok (pg_simulator p) \<and> distinct (promises p) \<and> set (promises p) \<subseteq> {..<pg_next p} \<and>
     (pg_running p \<and> \<not> pg_busy p \<longrightarrow> set (promises p) = {..<pg_next p}) \<and>
     (\<forall>c\<in>set (pg_calls p). fst (snd c) \<in> fst ` set (wasmFunctions parse))"

lemma asks_ok:
  assumes "clean_names parse" "sim_ok s" "wasm_call parse name args = Some (Asks work)" "work s = Some (s', outcome)"
  shows "sim_ok s'"
proof -
  obtain q where "map_option fst (work s) = serve parse q s" using wasm_serves [OF assms(3)] by blast
  with assms(4) have "serve parse q s = Some s'" by simp
  with serve_ok [OF assms(2,1)] show ?thesis by blast
qed

lemma asks_answered:
  assumes "clean_names parse" "sim_ok s" "wasm_call parse name args = Some (Asks work)" "\<not> echo_function name"
  shows "work s \<noteq> None"
proof -
  obtain q where "map_option fst (work s) = serve parse q s" "\<not> echo_request q" using wasm_serves [OF assms(3)] assms(4) by blast
  with serve_answers [OF assms(2,1), of q] show ?thesis by (auto simp: answers_def)
qed

lemma page_ok_main: "page_ok parse (wasm_main now)"
  by (simp add: page_ok_def wasm_main_def promises_def sim_ok_def NewSimulator_def)

lemma page_ok_called:
  assumes "page_ok parse p" "name \<in> fst ` set (wasmFunctions parse)" shows "page_ok parse (make_call name args p)"
proof -
  have "pg_next p \<notin> set (promises p)" using assms(1) by (auto simp: page_ok_def)
  moreover have "set (promises (make_call name args p)) = insert (pg_next p) (set (promises p))"
    "distinct (promises (make_call name args p)) \<longleftrightarrow> pg_next p \<notin> set (promises p) \<and> distinct (promises p)"
    by (auto simp: promises_def make_call_def)
  ultimately show ?thesis
    using assms unfolding page_ok_def by (auto simp: make_call_def lessThan_Suc)
qed

text \<open>What running a call changes: it is settled, or it is lost with the program or behind the lock.\<close>

lemma page_ok_served:
  assumes parse: "clean_names parse" and ok: "page_ok parse p" and c: "pg_calls p = earlier @ (k, name, args) # later"
    and a: "wasm_call parse name args = Some a"
  shows "page_ok parse (run_call k a (p\<lparr>pg_calls := earlier @ later\<rparr>))"
proof -
  let ?p = "p\<lparr>pg_calls := earlier @ later\<rparr>"
  have lost: "page_ok parse (?p\<lparr>pg_running := False\<rparr>)" "page_ok parse (?p\<lparr>pg_busy := True\<rparr>)"
    using ok by (auto simp: page_ok_def promises_def c)
  have "page_ok parse (?p\<lparr>pg_simulator := s, pg_settled := (k, outcome) # pg_settled p\<rparr>)" if "sim_ok s" for s outcome
    using ok that by (auto simp: page_ok_def promises_def c)
  note settled = this this [of "pg_simulator p"]
  show ?thesis
  proof (cases a)
    case (Asks work)
    show ?thesis
    proof (cases "work (pg_simulator p)")
      case None
      with lost show ?thesis by (simp add: Asks run_call_def)
    next
      case (Some r)
      with asks_ok [OF parse _ a [unfolded Asks], of "pg_simulator p" "fst r" "snd r"] ok settled(1)
      show ?thesis by (simp add: Asks run_call_def page_ok_def case_prod_beta)
    qed
  next
    case (Rejects e)
    have "?p\<lparr>pg_simulator := pg_simulator p, pg_settled := (k, Rejected e) # pg_settled p\<rparr> =
        ?p\<lparr>pg_settled := (k, Rejected e) # pg_settled p\<rparr>" by simp
    with settled(2) [of "Rejected e"] ok show ?thesis by (simp add: Rejects run_call_def page_ok_def)
  qed (use lost in \<open>simp add: run_call_def\<close>)
qed

lemma page_step_ok: "clean_names parse \<Longrightarrow> page_step parse p p' \<Longrightarrow> page_ok parse p \<Longrightarrow> page_ok parse p'"
  by (erule page_stepE) (auto intro: page_ok_called page_ok_served)

definition wasm_step :: "parser \<Rightarrow> page \<Rightarrow> page \<Rightarrow> bool" where
  "wasm_step parse p p' \<longleftrightarrow> clean_names parse \<and> page_step parse p p'"

interpretation browser: machine "\<lambda>p. \<exists>now. p = wasm_main now" "wasm_step parse" "page_ok parse" for parse
  by unfold_locales (auto simp: wasm_step_def intro: page_ok_main page_step_ok)

text \<open>A call with arguments of the types it wants, and not an echo request, is settled when it runs.\<close>

definition answerable :: "nat \<times> string \<times> js list \<Rightarrow> bool" where
  "answerable c \<longleftrightarrow> typed_call (fst (snd c)) (snd (snd c)) \<and> \<not> echo_function (fst (snd c))"

lemma call_settled:
  assumes parse: "clean_names parse" and ok: "page_ok parse p" and live: "pg_running p" "\<not> pg_busy p"
    and c: "pg_calls p = earlier @ (k, name, args) # later" and good: "answerable (k, name, args)"
  shows "\<exists>p'. wasm_step parse p p' \<and> pg_calls p' = earlier @ later \<and> pg_running p' \<and> \<not> pg_busy p' \<and> pg_next p' = pg_next p"
proof -
  have "name \<in> fst ` set (wasmFunctions parse)" using ok c by (auto simp: page_ok_def)
  then obtain a where a: "wasm_call parse name args = Some a" using wasm_call_exists by blast
  let ?p = "run_call k a (p\<lparr>pg_calls := earlier @ later\<rparr>)"
  have "a \<noteq> Panics" using wasm_panics [OF a] good by (simp add: answerable_def)
  moreover have "work (pg_simulator p) \<noteq> None" if "a = Asks work" for work
    using asks_answered [OF parse _ a [unfolded that]] ok good by (simp add: page_ok_def answerable_def)
  ultimately have "pg_calls ?p = earlier @ later \<and> pg_running ?p \<and> \<not> pg_busy ?p \<and> pg_next ?p = pg_next p"
    using live by (auto simp: run_call_def split: answer.split option.split)
  moreover have "wasm_step parse p ?p"
    using page_step.served [OF live(1) c a] live(2) parse by (simp add: wasm_step_def)
  ultimately show ?thesis by blast
qed

lemma calls_settled:
  assumes "clean_names parse" "page_ok parse p" "pg_running p" "\<not> pg_busy p" "list_all answerable (pg_calls p)"
  shows "\<exists>p'. (wasm_step parse)\<^sup>*\<^sup>* p p' \<and> fst ` set (pg_settled p') = {..<pg_next p} \<and> pg_running p' \<and> \<not> pg_busy p'"
  using assms(2-)
proof (induction "length (pg_calls p)" arbitrary: p)
  case 0
  then show ?case by (auto simp: page_ok_def promises_def)
next
  case (Suc l)
  obtain k name args rest where c: "pg_calls p = [] @ (k, name, args) # rest"
    using Suc.hyps(2) by (cases "pg_calls p") auto
  from call_settled [OF assms(1) Suc.prems(1-3) c] Suc.prems(4) c obtain p1 where
    p1: "wasm_step parse p p1" "pg_calls p1 = rest" "pg_running p1" "\<not> pg_busy p1" "pg_next p1 = pg_next p" by auto
  have "page_ok parse p1" using browser.step_inv [OF p1(1)] Suc.prems(1) .
  from Suc.hyps(1) [OF _ this p1(3,4)] Suc.hyps(2) Suc.prems(4) c p1(2) obtain p2 where
    "(wasm_step parse)\<^sup>*\<^sup>* p1 p2" "fst ` set (pg_settled p2) = {..<pg_next p1}" "pg_running p2" "\<not> pg_busy p2" by auto
  with p1 show ?case by (auto intro: converse_rtranclp_into_rtranclp)
qed

end
