(* ===== verification/Storm.thy ===== *)
theory Storm
  imports Samples
begin

text \<open>
  Without a spanning tree a loop of switches never comes to rest: a broadcast frame circulates for
  ever, and the operation that sent it does not come back.
\<close>

definition same_core :: "Graph \<Rightarrow> Graph \<Rightarrow> bool" where
  "same_core g g' \<longleftrightarrow> gr_nodes g' = gr_nodes g \<and> gr_links g' = gr_links g \<and> gr_queue g' = gr_queue g \<and>
     gr_budget g' = gr_budget g \<and> gr_now g' = gr_now g \<and> gr_trace g' = gr_trace g \<and>
     gr_transport_closed g' = gr_transport_closed g \<and> gr_transport g' = gr_transport g"

lemma same_core_sym: "same_core g h \<Longrightarrow> same_core h g"
  by (simp add: same_core_def)

lemma same_core_trans: "same_core g h \<Longrightarrow> same_core h k \<Longrightarrow> same_core g k"
  by (simp add: same_core_def)

lemma same_core_remote: "same_core g h \<Longrightarrow> remote_of h = remote_of g"
  by (rule ext) (simp add: same_core_def remote_of_def cong: option.case_cong)

lemma same_core_env: "same_core g h \<Longrightarrow> env_of h n = env_of g n"
  by (simp add: env_of_def same_core_remote) (simp add: same_core_def cong: option.case_cong)

lemma same_core_effect: "same_core g h \<Longrightarrow> same_core (enqueue_effect n e g) (enqueue_effect n e h)"
  using same_core_remote [of g h]
  by (auto simp: enqueue_effect_def transport_enqueue_def udp_enqueue_def transport_failed_def same_core_def split: eff.split option.split FrameTransport.split)

lemma same_core_effects: "same_core g h \<Longrightarrow> same_core (enqueue_effects n es g) (enqueue_effects n es h)"
  unfolding enqueue_effects_def by (induction es arbitrary: g h) (simp_all add: same_core_effect)

lemma same_core_deliver:
  assumes "same_core g h" shows "same_core (deliver_one g) (deliver_one h)"
proof (cases "gr_queue g")
  case (Cons q qs)
  obtain n i f where q: "q = ((n, i), f)" by (cases q) auto
  have "same_core (set_node n node (g\<lparr>gr_queue := qs, gr_budget := b\<rparr>)) (set_node n node (h\<lparr>gr_queue := qs, gr_budget := b\<rparr>))"
    for node b using assms by (simp add: same_core_def set_node_def)
  note same_core_effects [OF this]
  moreover have "gr_queue h = q # qs" "gr_nodes h = gr_nodes g" "gr_budget h = gr_budget g"
    using assms Cons by (simp_all add: same_core_def)
  ultimately show ?thesis
    by (simp add: deliver_one_def Cons q same_core_env [OF assms] case_prod_beta Let_def)
qed (use assms in \<open>simp add: deliver_one_def same_core_def\<close>)

text \<open>A loop of two switches, and a broadcast frame that has entered it.\<close>

definition looped_net :: Graph where
  "looped_net =
     run_commands [CreateNode ''a'', CreateNode ''b'', CreateInterface 0 ''e1'', CreateInterface 0 ''e2'',
       CreateInterface 1 ''e1'', CreateInterface 1 ''e2'', InsertLink 0 ''e1'' 1 ''e1'' 1, InsertLink 0 ''e2'' 1 ''e2'' 1]
       (create_new_graph ''loop'' 0 0)"

lemma looped_net_ok: "graph_ok looped_net"
proof -
  have "valid_name ''e1''" "valid_name ''e2''" by code_simp+
  then show ?thesis
    unfolding looped_net_def
    by (intro graph_ok_run_commands) (auto simp: command_ok_def intro: net.reachable_inv)
qed

definition broadcast_frame :: bytes where
  "broadcast_frame = replicate 6 255 @ mac_bytes (mac_of [2, 0, 0, 0, 1, 2]) @ put16 0x88B5 @ [1, 2, 3, 4]"

definition storm :: Graph where
  "storm = deliver_one (deliver_one (looped_net\<lparr>gr_queue := [((0, 0), broadcast_frame)]\<rparr>))"

lemma storm_turns: "same_core storm (deliver_one (deliver_one storm))"
  by code_simp

lemma storm_queue: "gr_queue storm \<noteq> []" "gr_queue (deliver_one storm) \<noteq> []"
  by code_simp+

lemma storm_never_ends: "drain (looped_net\<lparr>gr_queue := [((0, 0), broadcast_frame)]\<rparr>) = None"
proof -
  let ?I = "\<lambda>g. same_core storm g \<or> same_core (deliver_one storm) g"
  have "drain storm = None"
  proof (rule ccontr)
    assume "drain storm \<noteq> None"
    then obtain g where g: "drain storm = Some g" by blast
    have "?I g \<and> \<not> gr_queue g \<noteq> []"
    proof (rule while_option_inv [OF g [unfolded drain_def]])
      show "?I storm" by (simp add: same_core_def)
      show "?I (deliver_one h)" if "?I h" for h
        using that same_core_deliver same_core_trans [OF storm_turns] by blast
    qed
    with storm_queue show False by (auto simp: same_core_def)
  qed
  moreover have "gr_queue (deliver_one (looped_net\<lparr>gr_queue := [((0, 0), broadcast_frame)]\<rparr>)) \<noteq> []"
    by code_simp
  ultimately show ?thesis by (simp add: drain_deliver storm_def)
qed

end
