(* ===== verification/Findings.thy ===== *)
theory Findings
  imports Samples ShellProofs BrowserProofs
begin

text \<open>
  Where the code, read as it is written, does not do what it means to do, or not what its comments
  say.  Each fact is proved of the definitions the rest of the development uses.
\<close>

text \<open>A MAC address that moves to a port with a shorter name keeps the tail of the old name.\<close>

lemma moved_address_keeps_old_suffix:
  "mac_table_lookup_vlan (mac_learn_all [] 0 [(zero_mac, 1, ''eth10''), (zero_mac, 1, ''eth1'')]) zero_mac 1 = ''eth10''"
  by code_simp

text \<open>The same fixed arrays hold the interface of an ARP binding.\<close>

lemma moved_binding_keeps_old_suffix:
  "map (byteArrayString \<circ> ae_oif_name)
     (fst (arp_table_learn (fst (arp_table_learn ([] :: arp_cb arp_table) 0 ''eth10'' zero_ip zero_mac False))
       1 ''eth1'' zero_ip zero_mac False)) = [''eth10'']"
  by code_simp

text \<open>The largest metric wraps around to zero when the hop is added.\<close>

lemma infinite_metric_wraps_to_zero: "re_Metric e = 0xFFFFFFFF \<Longrightarrow> received_metric e = 0"
  by (simp add: received_metric_def RIP_MAX_METRIC_def)

text \<open>A learned port that has become a routed port still gets the frames of its VLAN.\<close>

definition rerouted_switch :: Node where
  "rerouted_switch =
     sample_taught\<lparr>nd_intf := (nd_intf sample_taught)
        [2 := map_option (\<lambda>intf. fst (SetIPConfig intf ''10.0.0.1'' 24)) (nd_intf sample_taught ! 2)]\<rparr>"

lemma routed_port_receives_switched_frames:
  "map_option IS_INTF_L3_MODE (intf_of rerouted_switch 2) = Some True"
  "map fst (sends (l2_switch_forward_frame_vlan sample_env rerouted_switch 0 sample_frame 1 False)) = [2]"
  by code_simp+

text \<open>Retagging a frame clears its priority.\<close>

lemma retagging_loses_priority:
  "length pkt \<ge> 16 \<Longrightarrow> u16_at pkt 12 = VLAN_TPID \<Longrightarrow>
     \<exists>out. add_vlan_tag pkt v 0 0 = Inr (out, out) \<and> u16_at out 14 = make_tci 0 0 v"
  by (simp add: add_vlan_tag_def frame_lens Let_def)

text \<open>A listening port starts its forward delay again at every recomputation.\<close>

lemma listening_port_restarts:
  "sp_state p = STP_STATE_LISTENING \<Longrightarrow> 0 < delay \<Longrightarrow>
     sp_stateDeadline (fst (setPortRole delay now p STP_ROLE_DESIGNATED)) = Some (now + delay)"
  by (simp add: setPortRole_def Let_def)

text \<open>A packet without a route is dropped and nobody is told.\<close>

lemma unroutable_packet_vanishes:
  "LookupLPM (nd_rt node) (ih_DstIP h) = None \<Longrightarrow>
     fst (forward_ip_packet env i h pkt node) = node \<and> sends (snd (forward_ip_packet env i h pkt node)) = []"
  by (simp add: forward_ip_packet_def Let_def)

text \<open>A configuration that passes validation but cannot be built: a trunk that lists a VLAN twice.\<close>

definition doubled_trunk :: TopologyConfig where
  "doubled_trunk =
     \<lparr>tc_Topology = sample_info ''t'',
      tc_Nodes = [sample_node ''s1'' False [(sample_interface ''p1'' [] 0)\<lparr>ic_Mode := ''trunk'', ic_AllowedVLANs := [10, 10]\<rparr>]],
      tc_Links = []\<rparr>"

lemma valid_but_not_buildable:
  "validate_topology_config doubled_trunk = None"
  "case load_topology doubled_trunk 0 0 of Some (Inl _) \<Rightarrow> True | _ \<Rightarrow> False"
  by code_simp+

text \<open>What follows the digits of a mask is ignored.\<close>

lemma garbage_after_mask_is_ignored: "cidr_argument ''10.0.0.0/24abc'' = Inr (''10.0.0.0'', 24)"
  by code_simp

text \<open>A frame longer than the buffer of a monitor arrives cut, where the in-memory transport carries it whole.\<close>

lemma large_frames_are_cut:
  assumes "node_ok (gr_nodes g ! n)" "intf_of (gr_nodes g ! n) i = Some intf" "1518 < length frame"
  shows "\<exists>cut. length cut < length frame \<and> monitor_read n (udp_payload intf frame) g = receive_frame (n, i) cut g"
proof -
  have "frame \<noteq> []" using assms(3) by auto
  from monitor_read_payload [OF assms(1,2) this] assms(3) show ?thesis
    by (intro exI [of _ "take (VLAN_HEADER_SIZE + ETHERNET_MAX_PAYLOAD) frame"])
      (simp add: VLAN_HEADER_SIZE_def ETHERNET_MAX_PAYLOAD_def)
qed

text \<open>The page gives text where a flag is wanted: the program ends.  A number is taken for a name.\<close>

lemma a_flag_given_as_text_ends_the_program:
  "wasm_call parse ''setLLDP'' [JStr ''H1'', JStr ''true''] = Some Panics"
  by (simp add: wasm_call_def wasmFunctions_def wasm_setLLDP_def expects_def or_panic_def js_Bool_def)

lemma a_number_is_taken_for_a_name:
  "wasm_call parse ''getNodeState'' [JNum 5] = Some (asyncResult nodeStateObject (GetNodeState ''<number: 5>''))"
proof -
  have "js_String (JNum 5) = ''<number: 5>''" by code_simp
  then show ?thesis by (simp add: wasm_call_def wasmFunctions_def wasm_getNodeState_def expects_def)
qed

end
