(* ===== verification/Spec2Isabelle.thy ===== *)
theory Spec2Isabelle
  imports Answers ShellSamples InOrder Sockets EchoSim BrowserProofs Storm Findings Samples Receive NodeInv StpInv ArpProofs RipProofs Lldp Snapshot RouteTable GraphRun ParserProofs EventBus Switching
begin

text \<open>
  A verification library for the Go network simulator under \<open>src/src\<close>: switches, routers and hosts
  that exchange real frames over an in-memory transport or over UDP sockets.  Each theory models one
  part of the program, in the order the code builds on itself; the definitions carry the names of the Go
  functions and types.  This root theory holds the properties of the whole, C1 to C40.

  \<^bold>\<open>Parts and theories.\<close>
  \<^item> \<open>Prelude\<close>, \<open>Machine\<close>: bytes and big-endian words, fixed name arrays, decimal text; the contract
    of a state machine (an invariant of the start kept by every step) and facts on \<open>while_option\<close>.
  \<^item> \<open>Addr\<close>, \<open>Iface\<close>, \<open>Ether\<close> (\<open>l3_network.go\<close>, \<open>interface.go\<close>, \<open>graph.go\<close>, \<open>l2_ethernet.go\<close>,
    \<open>l2_vlan.go\<close>): addresses and their text, interface modes and VLAN membership, links, frames and
    802.1Q tags.  A Go pointer to an interface is the pair of its node and its slot.
  \<^item> \<open>MacTable\<close>, \<open>Switching\<close>, \<open>InterVlan\<close> (\<open>l2_switch.go\<close>): the forwarding database with its contract
    \<open>fdb\<close>, learning, flooding, forwarding, routing between VLAN interfaces.
  \<^item> \<open>Bpdu\<close>, \<open>Stp\<close>, \<open>StpProofs\<close>, \<open>StpInv\<close> (\<open>l2_stp.go\<close>): the BPDU codec, the order of priority vectors
    with its contract \<open>three_way\<close>, the recomputation, timers, and the invariant of a bridge.
  \<^item> \<open>ArpTable\<close>, \<open>ArpProofs\<close>, \<open>Arp\<close> (\<open>l2_arp.go\<close>): the table with the frames that wait in it, requests,
    replies, retries and timeouts.
  \<^item> \<open>IpHeader\<close>, \<open>RouteTable\<close>, \<open>Layer3\<close>, \<open>Icmp\<close> (\<open>l3_routing.go\<close>, \<open>l3_icmp.go\<close>): header codec and
    checksum, the routing table with its contract \<open>rib\<close>, local delivery and forwarding, ICMP.
  \<^item> \<open>Rip\<close>, \<open>RipProofs\<close>, \<open>Lldp\<close> (\<open>rip.go\<close>, \<open>l2_lldp.go\<close>): routing updates kept in step with the routing
    table; the TLV codec and the neighbour table.
  \<^item> \<open>Node\<close>, \<open>Receive\<close>, \<open>NodeInv\<close> (\<open>node.go\<close>, \<open>l2_ethernet.go\<close>, \<open>transport.go\<close>): the node record, what a
    handler returns, the receive path, and the invariant \<open>node_ok\<close> kept by every handler.
  \<^item> \<open>EventBus\<close>, \<open>Graph\<close>, \<open>Network\<close>, \<open>GraphInv\<close>, \<open>GraphRun\<close> (\<open>events.go\<close>, \<open>graph.go\<close>,
    \<open>transport_memory.go\<close>): the event bus under concurrent emitters, the network and its frame
    queue, everything a network can be asked to do (\<open>command\<close>), and the network invariant \<open>graph_ok\<close>.
  \<^item> \<open>Parser\<close>, \<open>ParserProofs\<close>, \<open>Snapshot\<close>, \<open>Simulator\<close>, \<open>SimulatorProofs\<close> (\<open>topology_parser.go\<close>,
    \<open>simulation.go\<close>): topology files, views of the state, and the simulator with its requests.
  \<^item> \<open>Udp\<close>, \<open>InOrder\<close>, \<open>Sockets\<close> (\<open>socket.go\<close>): the monitors that read the sockets, under any
    interleaving and loss, and their agreement with the in-memory transport while nothing is lost, cut
    or overtaken; the life of the transport: registering, starting, stopping and closing.
  \<^item> \<open>Browser\<close>, \<open>BrowserProofs\<close> (\<open>wasm_main.go\<close>): the functions given to the page, the JavaScript
    values they resolve with, and their promises.
  \<^item> \<open>Shell\<close>, \<open>ShellProofs\<close> (\<open>main.go\<close>, \<open>topology_loader_native.go\<close>): the commands of the command line, the
    prompt, and the session with its invariant.
  \<^item> \<open>Settle\<close>, \<open>Answers\<close>, \<open>Storm\<close>: which traffic dies out (the contract \<open>dying_traffic\<close>), which requests
    come back, and a broadcast storm.
  \<^item> \<open>Echo\<close>, \<open>EchoSim\<close>: the frames of a ping between two hosts on one link, from the unresolved address
    to the counted reply.
  \<^item> \<open>Findings\<close>, \<open>Samples\<close>, \<open>ShellSamples\<close>: places where the code does not do what it means to, and the concrete inputs
    at which the properties are evaluated.

  \<^bold>\<open>How state and effects are modelled.\<close>
  A handler of a node is a function from what it can see of the network (\<open>env\<close>) and the node to the
  node and a list of effects: frames sent and events emitted.  The network performs the effects: a
  frame sent while the transport drains its queue is appended, a frame sent from outside drains the
  queue before the send returns.  An operation that sends several frames from outside runs each
  send on the network the previous drain left.  Locks make Go operations atomic; the model keeps
  their atomic sections as single steps.  Errors are values of a sum type; a Go error message is
  kept without its formatted arguments.  Machine integers keep their width; a clock is an \<open>int\<close> of
  nanoseconds passed in.

  \<^bold>\<open>Termination.\<close>
  Draining may go on for ever, so it is a \<open>while_option\<close> and an operation that sends returns None
  when it does not come back.  \<open>Settle\<close> shows for which traffic it does: every BPDU costs a unit of
  the budget of 10000, so an exchange of bridges delivers at most the queued frames and the budget;
  an LLDP advertisement is answered only by a node that learns its sender, and the senders and
  interfaces of a network are finitely many.  \<open>Answers\<close> concludes that loading, and every request but
  the echo requests, comes back; \<open>Storm\<close> is a network in which a broadcast does not.  Over UDP a send
  hands over a datagram and returns, so there every operation comes back (\<open>ShellProofs\<close>); a storm goes
  on in the sockets.

  \<^bold>\<open>What the properties show.\<close>
  Invariants of every reachable network, simulator, bridge and event bus; FIFO delivery; what flooding
  and forwarding may send where; root election and timing of the spanning tree; conservation of
  waiting frames; longest prefix match and the routing table as a map; RIP kept in step; round trips of
  the codecs; that a ping between neighbours is answered, and what a traceroute contains; which
  operations come back; that UDP, read in order, follows the in-memory transport, and that its
  transport can be stopped; that every line typed is answered, every value given to the page has its
  type and every promise is settled.

  \<^bold>\<open>Not modelled.\<close>
  Logging (\<open>logger.go\<close>) prints; \<open>monitor.go\<close> only wraps starting and stopping.  In the network model
  every node has its socket (\<open>Sockets\<close> says when that is so).  The YAML decoder, the command parser (\<open>cobra\<close>)
  and reading a file are outside the repository: they are parameters of the operations that call them.
  Events keep their protocol, node, ends, action and reason; table references, sizes
  and time stamps are left out.  Functions that only print a table are left out.
\<close>



section \<open>The network\<close>



text \<open>
  C2.  The simulator.  After any sequence of requests to a new simulator (load, reset, ping,
  traceroute, their traces, an LLDP round, state queries, switching LLDP or the spanning tree,
  priorities, link changes), the loaded network, if any, satisfies the network invariant and its
  transport holds no frame.  The only assumption is on the YAML decoder: interface names hold no
  NUL byte.
\<close>

theorem reachable_simulator_ok:
  assumes "sim_step\<^sup>*\<^sup>* (NewSimulator sink now) s"
  shows "sim_ok s"
  by (rule sim.reachable_inv [OF _ assms]) blast

lemma reachable_simulator_ok_witness:
  "\<exists>s. serve (\<lambda>_. Some lone_host) (Load [1]) (NewSimulator False 0) = Some s \<and> sm_graph s \<noteq> None \<and> sim_ok s"
proof -
  have "\<exists>g. load_topology lone_host 0 0 = Some (Inr g) \<and> \<not> gr_closed g \<and> \<not> gr_started g"
    unfolding ex_loaded by code_simp
  then obtain s where s: "serve (\<lambda>_. Some lone_host) (Load [1]) (NewSimulator False 0) = Some s" "sm_graph s \<noteq> None"
    by (auto simp: serve_def after_def loadTopologyLocked_def NewSimulator_def counter_of_def now_of_def
        retire_graph_def graph_Start_def SetEventSink_def Let_def)
  have "clean_names (\<lambda>_. Some lone_host)" by (simp add: clean_names_def) code_simp
  from sim_step.request [OF this s(1)] have "sim_step\<^sup>*\<^sup>* (NewSimulator False 0) s" by blast
  from reachable_simulator_ok [OF this] s show ?thesis by blast
qed

text \<open>
  C3.  A ping is answered.  On a network at rest over the open in-memory transport, a request to
  ping an address that a directly connected host holds comes back and reports the reply: the
  request waits for ARP, the peer answers the ARP request, the waiting echo request is released
  to it, its echo reply comes back and is counted.  (The counter of replies must not be about to
  wrap.)
\<close>

theorem ping_between_neighbours_is_answered:
  assumes "sm_graph s = Some g" "resting g" "memory_open g" "neighbours g (n, i) ma a y mb b"
    and "findGraphNode g source = Some n" "resolveDestination g destination = Inr (ip_string b)"
    and "nd_ping_reply_count (gr_nodes g ! n) < nd_ping_reply_count (gr_nodes g ! n) + 1"
  shows "\<exists>s' res. Ping source destination s = Some (s', Inr res) \<and> pr_ReplyReceived res"
  using ping_from_answered [OF assms(2-4,7), of source destination] assms(1,5,6)
  by (auto simp: Ping_def with_graph_def pingLocked_def)

lemma ping_between_neighbours_is_answered_witness:
  "\<exists>s' res. Ping ''a'' ''b'' ((NewSimulator False 0)\<lparr>sm_graph := Some sample_hosts\<rparr>) = Some (s', Inr res) \<and> pr_ReplyReceived res"
proof -
  let ?s = "(NewSimulator False 0)\<lparr>sm_graph := Some sample_hosts\<rparr>"
  have "resting sample_hosts" using sample_hosts_ok sample_hosts_rest(1) by (simp add: resting_def)
  moreover have "nd_ping_reply_count (gr_nodes sample_hosts ! 0) < nd_ping_reply_count (gr_nodes sample_hosts ! 0) + 1"
    by (simp only: sample_hosts_rest(5)) simp
  ultimately show ?thesis
    using ping_between_neighbours_is_answered
      [of ?s, OF _ _ sample_hosts_rest(2) sample_hosts_neighbours sample_hosts_rest(3,4)] by simp
qed

text \<open>
  C4.  Requests are answered.  In every state a simulator can reach, a request to load or reset
  a topology, to run an LLDP round, to show a node, to switch LLDP or the spanning tree, to
  change a bridge priority or a link, comes back with a new state: the frames it sets off die
  out, because a BPDU costs a unit of the budget and an advertisement is answered only by a node
  that did not know its sender.
\<close>

theorem requests_are_answered:
  assumes "sim_step\<^sup>*\<^sup>* (NewSimulator sink now) s" "clean_names parse" "\<not> echo_request q"
  shows "\<exists>s'. serve parse q s = Some s'"
  using serve_answers [OF sim.reachable_inv [OF _ assms(1)] assms(2,3)] by (auto simp: answers_def)

lemma requests_are_answered_witness:
  "\<exists>s. serve (\<lambda>_. Some two_bridges) (Load [1]) (NewSimulator False 0) = Some s"
proof (rule requests_are_answered)
  show "clean_names (\<lambda>_. Some two_bridges)" by (simp add: clean_names_def) code_simp
  show "sim_step\<^sup>*\<^sup>* (NewSimulator False 0) (NewSimulator False 0)" by simp
qed (simp add: echo_request_def)

text \<open>
  C5.  Loading comes back.  For every configuration whose interface names hold no NUL byte,
  valid or not, with any spanning tree and LLDP settings on any cabling, loading ends with a
  network or with an error: the exchanges it starts while the network is built come to rest, and
  so does the clean-up of a network that cannot be built.
\<close>

theorem loading_comes_back:
  assumes "\<forall>c\<in>set (tc_Nodes config). \<forall>i\<in>set (nc_Interfaces c). NUL \<notin> set (ic_Name i)"
  shows "\<exists>r. load_topology_with_transport config transport counter now = Some r"
  using load_topology_answers [OF assms, of transport counter now] by (simp add: answers_def)

lemma loading_comes_back_witness: "\<exists>r. load_topology two_bridges 0 0 = Some r"
  by (rule loading_comes_back) code_simp

text \<open>
  C6.  Loading.  A configuration that loads (validation and construction succeed) yields a
  network with one node per configured node, satisfying the network invariant, with no frame in
  flight, provided no interface name holds a NUL byte.
\<close>

theorem loaded_topology_ok:
  assumes "load_topology_with_transport config transport counter now = Some (Inr g)"
    and "\<forall>c\<in>set (tc_Nodes config). \<forall>i\<in>set (nc_Interfaces c). NUL \<notin> set (ic_Name i)"
  shows "graph_ok g \<and> gr_queue g = [] \<and> length (gr_nodes g) = length (tc_Nodes config)"
  by (rule load_topology_ok [OF assms])

lemma loaded_topology_ok_witness:
  "\<exists>g. load_topology two_hosts 0 0 = Some (Inr g) \<and> graph_ok g \<and> gr_queue g = [] \<and> length (gr_nodes g) = 2"
proof -
  have "\<exists>g. load_topology two_hosts 0 0 = Some (Inr g) \<and> True"
    unfolding ex_loaded by code_simp
  then obtain g where g: "load_topology two_hosts 0 0 = Some (Inr g)" by blast
  have n: "\<forall>c\<in>set (tc_Nodes two_hosts). \<forall>i\<in>set (nc_Interfaces c). NUL \<notin> set (ic_Name i)" "length (tc_Nodes two_hosts) = 2"
    by code_simp+
  from loaded_topology_ok [OF g n(1)] g n(2) show ?thesis by auto
qed

section \<open>The page\<close>



text \<open>
  C8.  Promises.  Whatever calls a page has made and in whatever order they ran, every promise
  is settled at most once.  If the program runs, the simulator is not stuck and the calls still
  open carry flags and numbers where these are wanted and are not echo requests, then running
  them one by one, in any order, settles every promise that was ever made, and neither ends the
  program nor blocks the simulator.
\<close>

theorem page_promises_are_settled:
  assumes "(wasm_step parse)\<^sup>*\<^sup>* (wasm_main now) p" "clean_names parse"
  shows "distinct (map fst (pg_settled p)) \<and>
    (pg_running p \<and> \<not> pg_busy p \<and> list_all answerable (pg_calls p) \<longrightarrow>
       (\<exists>p'. (wasm_step parse)\<^sup>*\<^sup>* p p' \<and> fst ` set (pg_settled p') = {..<pg_next p} \<and> pg_running p' \<and> \<not> pg_busy p') \<and>
       (\<forall>earlier c later. pg_calls p = earlier @ c # later \<longrightarrow>
          (\<exists>p'. wasm_step parse p p' \<and> pg_calls p' = earlier @ later \<and> pg_running p' \<and> \<not> pg_busy p')))"
proof -
  have ok: "page_ok parse p" by (rule browser.reachable_inv [OF _ assms(1)]) blast
  have "distinct (map fst (pg_settled p))" using ok by (simp add: page_ok_def promises_def)
  moreover have "\<exists>p'. wasm_step parse p p' \<and> pg_calls p' = earlier @ later \<and> pg_running p' \<and> \<not> pg_busy p'"
    if "pg_running p" "\<not> pg_busy p" "list_all answerable (pg_calls p)" "pg_calls p = earlier @ c # later" for earlier c later
    using call_settled [OF assms(2) ok that(1,2), of earlier "fst c" "fst (snd c)" "snd (snd c)" later] that(3,4) by auto
  ultimately show ?thesis using calls_settled [OF assms(2) ok] by blast
qed

lemma page_promises_are_settled_witness:
  "\<exists>p'. (wasm_step (\<lambda>_. Some two_bridges))\<^sup>*\<^sup>* (make_call ''loadTopology'' [JStr ''x''] (wasm_main 0)) p' \<and>
     fst ` set (pg_settled p') = {..<1}"
proof -
  let ?parse = "\<lambda>_ :: bytes. Some two_bridges" and ?p = "make_call ''loadTopology'' [JStr ''x''] (wasm_main 0)"
  have clean: "clean_names ?parse" by (simp add: clean_names_def) code_simp
  have "''loadTopology'' \<in> fst ` set (wasmFunctions ?parse)" by (simp add: wasm_names)
  from page_step.called [OF _ this, of "wasm_main 0" "[JStr ''x'']"] clean
  have reach: "(wasm_step ?parse)\<^sup>*\<^sup>* (wasm_main 0) ?p" by (intro r_into_rtranclp) (simp add: wasm_step_def wasm_main_def)
  have "pg_running ?p" "\<not> pg_busy ?p" "list_all answerable (pg_calls ?p)" "pg_next ?p = 1"
    by (simp_all add: make_call_def wasm_main_def answerable_def typed_call_def echo_function_def)
  with page_promises_are_settled [OF reach clean] show ?thesis by (auto simp: make_call_def wasm_main_def)
qed

section \<open>Frames and queues\<close>

text \<open>
  C9.  A frame at a node.  Whatever bytes arrive on whatever interface, handling them leaves the
  invariant of the node intact and its configuration (name, interfaces, addresses, VLAN
  interfaces) unchanged, and every frame sent in response leaves through an existing interface
  whose link is up.
\<close>

theorem any_frame_is_safe:
  assumes "node_ok node" "deliverTransportFrame env i frame (node, budget) = ((node', budget'), effects)"
  shows "node_ok node' \<and> same_config node node' \<and> sends_up env node effects"
  using ok_deliver [of "(node, budget)" env i frame] assms by (simp add: ok_stp_def ok_result_def)

lemma any_frame_is_safe_witness:
  "node_ok (fst (fst (deliverTransportFrame sample_env 0 sample_frame (sample_switch, 0))))"
proof -
  obtain node' b es where r: "deliverTransportFrame sample_env 0 sample_frame (sample_switch, 0) = ((node', b), es)"
    by (cases "deliverTransportFrame sample_env 0 sample_frame (sample_switch, 0)") auto
  from any_frame_is_safe [OF sample_switch_ok r] r show ?thesis by simp
qed

text \<open>
  C10.  The transport is a FIFO.  Delivering the first frame removes it and appends, in order,
  exactly the frames the receiving node sends in response, each addressed to the other end of
  the link it left through; nothing else in the queue changes and nothing is lost.
\<close>

theorem transport_is_fifo:
  assumes "graph_ok g" "memory_open g" "gr_queue g = ((n, i), frame) # rest"
  shows "gr_queue (deliver_one g) =
    rest @ routed g n (sends (snd (deliverTransportFrame (env_of g n) i frame (gr_nodes g ! n, gr_budget g))))"
  by (rule deliver_one_queue [OF assms])

lemma transport_is_fifo_witness:
  "\<exists>g n i frame rest. gr_queue g = ((n, i), frame) # rest \<and> gr_queue (deliver_one g) =
     rest @ routed g n (sends (snd (deliverTransportFrame (env_of g n) i frame (gr_nodes g ! n, gr_budget g))))"
proof -
  from transport_is_fifo [OF sample_flight_ok sample_flight_queue(2,1)] sample_flight_queue(1) show ?thesis by blast
qed

text \<open>
  C11.  The spanning tree comes to rest.  On any network with no frame in flight, whatever its
  cabling and the state of its bridges, convergence, starting a bridge, changing a priority, the
  hello and ageing timers and a link change come back, and again no frame is in flight.
\<close>

theorem spanning_tree_comes_to_rest:
  assumes "gr_queue g = []"
    and "f \<in> {ConvergeSpanningTree, graph_start_stp n, graph_send_hello n, graph_stp_tick n, change_link k b,
      \<lambda>g. fst (graph_set_priority n p g)}"
  shows "\<exists>g'. f g = Some g' \<and> gr_queue g' = []"
proof -
  have "returns idle f"
    using assms(2) by (auto intro: idle_ConvergeSpanningTree idle_stp idle_stp_tick idle_change_link)
  with assms(1) show ?thesis by (auto simp: returns_def idle_def)
qed

lemma spanning_tree_comes_to_rest_witness:
  "\<exists>g'. ConvergeSpanningTree sample_net = Some g' \<and> gr_queue g' = []"
  by (rule spanning_tree_comes_to_rest [OF sample_net_rest]) blast

text \<open>
  C12.  The BPDU budget.  When only BPDUs are in flight, the drain comes back after at most as
  many deliveries as there are frames in the queue and units left in the budget: bridges cannot
  keep each other talking for ever.
\<close>

theorem bpdu_exchange_is_bounded:
  assumes "\<forall>q\<in>set (gr_queue g). bpdu_frame (snd q)"
  shows "\<exists>k \<le> length (gr_queue g) + nat (gr_budget g). drain g = Some ((deliver_one ^^ k) g)"
  using stp_traffic.drain_within [of g] assms by (auto simp: bpdus_only_def bpdu_fuel_def)

lemma bpdu_exchange_is_bounded_witness:
  "\<exists>b k. k \<le> 1 + nat STP_BPDU_BUDGET \<and>
     drain (resetSTPBudget sample_net\<lparr>gr_queue := [((0, 0), buildSTPFrame zero_mac (serializeBPDU b))]\<rparr>) =
     Some ((deliver_one ^^ k) (resetSTPBudget sample_net\<lparr>gr_queue := [((0, 0), buildSTPFrame zero_mac (serializeBPDU b))]\<rparr>))"
  using bpdu_exchange_is_bounded [of "resetSTPBudget sample_net\<lparr>gr_queue := [((0, 0), buildSTPFrame zero_mac (serializeBPDU _))]\<rparr>"]
  by (auto simp: buildSTPFrame_bpdu resetSTPBudget_def)

text \<open>
  C13.  Storms.  The bounds above are special to control traffic.  In a well-formed network of
  two switches joined by two links, with the spanning tree off, a broadcast frame that has
  entered the loop is passed round for ever: the drain, and with it the operation that sent the
  frame, never comes back.
\<close>

theorem storms_never_end:
  "graph_ok looped_net \<and> drain (looped_net\<lparr>gr_queue := [((0, 0), broadcast_frame)]\<rparr>) = None"
  using looped_net_ok storm_never_ends by simp



text \<open>
  C15.  Adding a route by hand.  When the named node and interface exist and the mask is at most
  32, the command add-route given the printed address, a slash and the printed mask performs
  exactly the routing table operation for that address, mask, gateway and interface on that
  node, and changes nothing else.
\<close>

theorem add_route_reads_its_arguments:
  assumes "sh_currentTopology s = Some g" "findGraphNode g nm = Some n"
    and "get_node_if_by_name (nd_intf (gr_nodes g ! n)) oif \<noteq> None" "m \<le> 32"
  shows "\<exists>g' out. exec (AddStaticRoute n (ip_string a) (word_of_nat m) gw oif) g = Some g' \<and>
    addRouteCmd [nm, ip_string a @ ''/'' @ dec m, gw, oif] s = Some (s\<lparr>sh_currentTopology := Some g'\<rparr>, out)"
  by (rule add_route_command_adds [OF assms])

lemma add_route_reads_its_arguments_witness:
  "\<exists>g' out. addRouteCmd [''a'', ip_string (Ip 10 0 0 0) @ ''/'' @ dec 24, ''1.2.3.4'', ''e''] (sample_shell sample_net) =
     Some (sample_shell g', out)"
proof -
  have "findGraphNode sample_net ''a'' = Some 0" "get_node_if_by_name (nd_intf (gr_nodes sample_net ! 0)) ''e'' \<noteq> None"
    by code_simp+
  from add_route_reads_its_arguments [OF _ this, of "sample_shell sample_net" 24 "Ip 10 0 0 0" "''1.2.3.4''"]
  show ?thesis by (auto simp: sample_shell_def)
qed

section \<open>UDP\<close>

text \<open>
  C16.  The two transports.  As long as no frame is empty or longer than the 1518 bytes a
  monitor reads, monitors that read the datagrams in the order they were sent take the network
  over UDP through exactly the states the in-memory transport goes through: same nodes, same
  events, and in the sockets the frames of the queue.
\<close>

theorem udp_follows_memory:
  assumes "graph_ok g" "memory_open g" "gr_started g"
    and "\<forall>j\<le>k. \<forall>q\<in>set (gr_queue ((deliver_one ^^ j) g)). fits q"
  shows "udp_step\<^sup>*\<^sup>* (as_udp g) (as_udp ((deliver_one ^^ k) g))"
  by (rule in_order_deliveries [OF assms])

lemma udp_follows_memory_witness:
  "udp_step\<^sup>*\<^sup>* (as_udp (sample_flight\<lparr>gr_started := True\<rparr>)) (as_udp (deliver_one (sample_flight\<lparr>gr_started := True\<rparr>)))"
proof -
  let ?g = "sample_flight\<lparr>gr_started := True\<rparr>"
  have "list_all fits (gr_queue ?g)" "list_all fits (gr_queue (deliver_one ?g))" by code_simp+
  then have fits: "\<forall>j\<le>1. \<forall>q\<in>set (gr_queue ((deliver_one ^^ j) ?g)). fits q" by (auto simp: list_all_iff le_Suc_eq)
  have "graph_ok ?g" "memory_open ?g"
    using sample_flight_ok sample_flight_queue(2) by (simp_all add: graph_ok_def queue_ok_def memory_open_def)
  from udp_follows_memory [OF this _ fits] show ?thesis by simp
qed





section \<open>Events and the simulator\<close>

text \<open>
  C19.  The event bus.  Under every interleaving of concurrent emitters, dispatch steps and sink
  changes, the events delivered so far carry the sequence numbers 1, 2, 3 and so on in delivery
  order, at most one goroutine is dispatching, and events wait only while one is.
\<close>

theorem events_delivered_in_order:
  assumes "bus_step\<^sup>*\<^sup>* bus_start r"
  shows "numbered (br_delivered r) \<and> br_dispatchers r \<le> 1 \<and> (eb_pending (br_bus r) = [] \<or> br_dispatchers r = 1)"
proof -
  have "bus_inv r" by (rule bus.reachable_inv [OF refl assms])
  then show ?thesis by (auto simp: bus_inv_def intro: numbered_append)
qed

lemma events_delivered_in_order_witness:
  "\<exists>r. bus_step\<^sup>*\<^sup>* bus_start r \<and> numbered (br_delivered r) \<and> length (br_delivered r) = 1"
proof -
  let ?e = "\<lparr>ev_Sequence = 0, ev_Protocol = ''ARP'', ev_Node = ''a'', ev_From = [], ev_To = [], ev_Action = ''x'', ev_Fields = []\<rparr>"
  let ?q = "(?e\<lparr>ev_Sequence := 1\<rparr>, None :: sink_id option)"
  let ?b = "\<lparr>eb_sequence = 1, eb_sink = None, eb_pending = [?q], eb_dispatching = True\<rparr>"
  let ?r1 = "\<lparr>br_bus = ?b, br_delivered = [], br_dispatchers = 1\<rparr>"
  let ?r2 = "\<lparr>br_bus = ?b\<lparr>eb_pending := []\<rparr>, br_delivered = [?q], br_dispatchers = 1\<rparr>"
  have "bus_step bus_start ?r1"
    using bus_step.emit [of bus_start ?e ?b True] by (simp add: bus_start_def NewEventBus_def Emit_enter_def)
  moreover have "bus_step ?r1 ?r2"
    using bus_step.deliver [of ?r1 "?b\<lparr>eb_pending := []\<rparr>" ?q] by (simp add: dispatch_next_def)
  ultimately have r: "bus_step\<^sup>*\<^sup>* bus_start ?r2" by (meson converse_rtranclp_into_rtranclp r_into_rtranclp)
  with events_delivered_in_order [OF r] show ?thesis by (intro exI [of _ ?r2]) simp
qed



section \<open>The spanning tree\<close>

text \<open>
  C21.  Spanning tree states.  In every state a bridge can reach from its initial one by any
  sequence of its operations in any environment (start, stop, priorities, BPDUs with arbitrary
  content, timers, ageing, resets), ports have distinct names, at most one is the root port,
  only root and designated ports listen, learn or forward, and a state deadline is set exactly
  while a port listens or learns.
\<close>

theorem reachable_bridge_ok:
  assumes "stp_reachable s"
  shows "distinct (map sp_name (st_ports s)) \<and>
    (\<forall>p\<in>set (st_ports s). \<forall>q\<in>set (st_ports s).
       sp_role p = STP_ROLE_ROOT \<and> sp_role q = STP_ROLE_ROOT \<longrightarrow> sp_name p = sp_name q) \<and>
    (\<forall>p\<in>set (st_ports s).
       (sp_state p \<in> {STP_STATE_LISTENING, STP_STATE_LEARNING, STP_STATE_FORWARDING} \<longrightarrow>
          sp_role p \<in> {STP_ROLE_ROOT, STP_ROLE_DESIGNATED}) \<and>
       (sp_stateDeadline p \<noteq> None \<longleftrightarrow> sp_state p \<in> {STP_STATE_LISTENING, STP_STATE_LEARNING}))"
  using stp_inv_reachable [OF assms] unfolding stp_inv_def port_ok_def
  by (elim conjE) (intro conjI, assumption+)

lemma reachable_bridge_ok_witness:
  "distinct (map sp_name (st_ports (so_state (StartSTP InitSTPState (e_links sample_env) (nd_intf sample_switch) 0 []))))"
proof -
  have "stp_reachable (so_state (StartSTP InitSTPState (e_links sample_env) (nd_intf sample_switch) 0 []))"
    by (rule stp_reachable.step [OF stp_reachable.init stp_step.start])
  from reachable_bridge_ok [OF this] show ?thesis by blast
qed

text \<open>
  C22.  Root election.  After a recomputation the root is the smallest identifier among this
  bridge and the roots its ports report.  A bridge that is not the root takes as root port, and
  as root path cost, those of a port that reports this root and whose path no other such port
  beats in the priority order.
\<close>

theorem recompute_elects_best_root:
  fixes stp now macs
  defines "stp' \<equiv> fst (recomputeLocked stp now macs)"
  shows "st_rootID stp' \<in> known_roots (st_bridgeID stp) (st_ports stp) \<and>
    (\<forall>x. x \<in> known_roots (st_bridgeID stp) (st_ports stp) \<longrightarrow> \<not> BridgeID_Compare x (st_rootID stp') < 0) \<and>
    (st_rootID stp' \<noteq> st_bridgeID stp \<longrightarrow>
       (\<exists>p\<in>set (st_ports stp). towards (st_rootID stp') p \<and> st_rootPortName stp' = sp_name p \<and>
          st_rootPathCost stp' = pv_RootPathCost (root_candidate (st_rootID stp') p) \<and>
          (\<forall>q\<in>set (st_ports stp). towards (st_rootID stp') q \<longrightarrow>
             \<not> stpPriorityVector_Compare (root_candidate (st_rootID stp') q) (root_candidate (st_rootID stp') p) < 0)))"
proof (intro conjI allI impI)
  have k: "known_roots (st_bridgeID stp) (portsSorted stp) = known_roots (st_bridgeID stp) (st_ports stp)"
    by (simp add: known_roots_def)
  note f = recomputed_fields [of stp now macs, folded stp'_def]
  note e1 = elect_root_best(1) [of "st_bridgeID stp" "portsSorted stp", unfolded k]
  note e2 = elect_root_best(2) [of _ "st_bridgeID stp" "portsSorted stp", unfolded k]
  show "st_rootID stp' \<in> known_roots (st_bridgeID stp) (st_ports stp)"
    using e1 by (simp add: f new_root_def)
  show "\<not> BridgeID_Compare x (st_rootID stp') < 0" if "x \<in> known_roots (st_bridgeID stp) (st_ports stp)" for x
    using e2 [OF that] by (simp add: f new_root_def)
  assume "st_rootID stp' \<noteq> st_bridgeID stp"
  with new_choice_best [of stp] f show "\<exists>p\<in>set (st_ports stp). towards (st_rootID stp') p \<and> st_rootPortName stp' = sp_name p \<and>
          st_rootPathCost stp' = pv_RootPathCost (root_candidate (st_rootID stp') p) \<and>
          (\<forall>q\<in>set (st_ports stp). towards (st_rootID stp') q \<longrightarrow>
             \<not> stpPriorityVector_Compare (root_candidate (st_rootID stp') q) (root_candidate (st_rootID stp') p) < 0)"
    by (auto simp: new_cost_def)
qed

lemma recompute_elects_best_root_witness:
  "\<not> BridgeID_Compare (st_bridgeID InitSTPState) (st_rootID (fst (recomputeLocked InitSTPState 0 []))) < 0"
  using recompute_elects_best_root [of InitSTPState 0 "[]"] by (simp add: known_roots_def)

text \<open>
  C23.  Information only improves.  Whatever BPDU arrives on whatever port, every port keeps the
  information it has recorded or replaces it by strictly better information.
\<close>

theorem bpdu_information_improves:
  assumes "stp_inv stp" "p \<in> set (st_ports stp)"
  shows "\<exists>q\<in>set (st_ports (so_state (ProcessBPDU stp now macs n hdr payload))). info_improves p q"
  by (rule info_improves_ProcessBPDU [OF assms])

lemma bpdu_information_improves_witness:
  "\<exists>q\<in>set (st_ports (so_state (ProcessBPDU (so_state (StartSTP InitSTPState (e_links sample_env) (nd_intf sample_switch) 0 []))
       0 [] ''p1'' \<lparr>dst_mac = zero_mac, src_mac = zero_mac, ethertype = 38\<rparr> []))). sp_name q = ''p1''"
proof -
  let ?s = "so_state (StartSTP InitSTPState (e_links sample_env) (nd_intf sample_switch) 0 [])"
  have i: "stp_inv ?s" by (rule stp_inv_StartSTP [OF stp_inv_reachable [OF stp_reachable.init]])
  have "\<exists>p\<in>set (st_ports ?s). sp_name p = ''p1''" by code_simp
  then obtain p where "p \<in> set (st_ports ?s)" "sp_name p = ''p1''" by blast
  note p = this
  show ?thesis
    by (rule bexE [OF bpdu_information_improves [OF i p(1)]]) (erule bexI [rotated], simp add: info_improves_def p(2))
qed



text \<open>
  C25.  The forward delay, in time.  A listening port forwards after a tick at or past its
  deadline and another at least one forward delay later, and it keeps forwarding under every
  further tick.
\<close>

theorem forwards_in_time:
  assumes "sp_state p = STP_STATE_LISTENING" "sp_stateDeadline p = Some d" "d \<le> t1" "t1 + delay \<le> t2"
  shows "sp_state (run_ticks delay (t1 # t2 # later) p) = STP_STATE_FORWARDING"
  by (rule forwarding_in_time [OF assms])

lemma forwards_in_time_witness:
  "sp_state (run_ticks 15 [16, 31, 32] ((new_port [] 0 (sample_port ''p1'' 0 1))
     \<lparr>sp_state := STP_STATE_LISTENING, sp_stateDeadline := Some 15\<rparr>)) = STP_STATE_FORWARDING"
  by (rule forwards_in_time [of _ 15]) simp_all

text \<open>
  C26.  BPDUs on the wire.  A valid configuration BPDU, serialised, wrapped into an 802.3 frame
  with an LLC header and padded at the end, parses back to itself.
\<close>

theorem bpdu_survives_the_wire:
  assumes "valid_config_bpdu b"
  shows "\<exists>payload. parseSTPFrame (buildSTPFrame src (serializeBPDU b) @ pad) = Inr payload \<and> deserializeBPDU payload = Inr b"
  using deserialize_serialize_BPDU [OF assms, of "[]"] parse_build_STPFrame [of "serializeBPDU b" src pad]
  by simp

lemma bpdu_survives_the_wire_witness:
  "\<exists>b payload. parseSTPFrame (buildSTPFrame zero_mac (serializeBPDU b) @ [0]) = Inr payload \<and> deserializeBPDU payload = Inr b"
proof -
  let ?b = "\<lparr>ProtocolID = STP_PROTOCOL_ID, Version = 0, Type = STP_BPDU_TYPE_CONFIG, Flags = 0, RootID = zero_bridge_id,
    RootPathCost = 4, BridgeID_f = zero_bridge_id, PortID = 1, MessageAge = 0, MaxAge = 20, HelloTime = 2, ForwardDelay = 15\<rparr>"
  have "valid_config_bpdu ?b" by (simp add: valid_config_bpdu_def)
  from bpdu_survives_the_wire [OF this] show ?thesis by blast
qed

section \<open>Switching\<close>

text \<open>
  C27.  Flooding.  Every copy of a flooded frame leaves through a different port, never through
  the excluded one; the port is a switch port in forwarding state on a link that is up and
  allows the VLAN; the copy is tagged exactly as that port demands and its contents are those of
  the frame.
\<close>

theorem flooding_respects_vlans:
  assumes "wf_node_intfs node" "plain_frame pkt"
  shows "distinct (map fst (sends (l2_switch_flood_frame_vlan env node ex pkt v))) \<and>
    (\<forall>x\<in>set (sends (l2_switch_flood_frame_vlan env node ex pkt v)). egress_ok env node v pkt x \<and> fst x \<noteq> ex)"
  by (rule flood_egress [OF assms])

lemma flooding_respects_vlans_witness:
  "egress_ok sample_env sample_switch 1 sample_frame (1, sample_frame)"
proof -
  have "wf_node_intfs sample_switch" using sample_switch_ok by (simp add: node_ok_def)
  from flooding_respects_vlans [OF this sample_frame_plain(1), of sample_env 0 1] sample_flood show ?thesis by simp
qed

text \<open>
  C28.  Forwarding.  Whether it is sent to the learned port or flooded, a switched frame leaves
  through pairwise different ports that are eligible for its VLAN, tagged as they demand,
  contents unchanged, and never back through the port it came from unless it was routed between
  VLANs; provided the forwarding database names switch ports.
\<close>

theorem forwarding_respects_vlans:
  assumes "wf_node_intfs node" "plain_frame pkt" "fdb_on_switch_ports node"
  shows "distinct (map fst (sends (l2_switch_forward_frame_vlan env node recv pkt v inter_vlan))) \<and>
    (\<forall>x\<in>set (sends (l2_switch_forward_frame_vlan env node recv pkt v inter_vlan)).
       egress_ok env node v pkt x \<and> (\<not> inter_vlan \<longrightarrow> fst x \<noteq> recv))"
  by (rule forward_egress [OF assms])

lemma forwarding_respects_vlans_witness:
  "egress_ok sample_env sample_taught 1 sample_frame (2, sample_frame)"
proof -
  have "wf_node_intfs sample_taught" using sample_switch_ok by (simp add: node_ok_def sample_taught_def wf_node_intfs_def)
  from forwarding_respects_vlans [OF this sample_frame_plain(1) sample_taught_fdb, of sample_env 0 1 False] sample_unicast
  show ?thesis by simp
qed

text \<open>
  C29.  MAC learning.  After any sequence of observations of source addresses, looking up an
  address in a VLAN gives the port of its last observation there, whatever other addresses and
  VLANs were seen since; provided the new port name is not shorter than the one it replaces.
\<close>

theorem last_seen_port_wins:
  assumes "mac_table_inv t" "valid_name oif" "\<forall>(m', v', o')\<in>set (earlier @ later). valid_name o'"
    and "\<forall>(m', v', o')\<in>set later. (m', v') \<noteq> (m, v)"
    and "length (mac_table_lookup_vlan (mac_learn_all t now earlier) m v) \<le> length oif"
  shows "mac_table_lookup_vlan (mac_learn_all t now (earlier @ (m, v, oif) # later)) m v = oif"
  using macdb.last_observation_wins [OF assms(1-4)] assms(5) by (simp add: mac_learn_all_eq)

lemma last_seen_port_wins_witness:
  "mac_table_lookup_vlan (mac_learn_all [] 0 [(zero_mac, 1, ''p1''), (zero_mac, 1, ''p2''), (broadcast_mac, 1, ''p1'')]) zero_mac 1 = ''p2''"
proof -
  have "valid_name ''p1''" "valid_name ''p2''" by code_simp+
  moreover have "length (mac_table_lookup_vlan (mac_learn_all [] 0 [(zero_mac, 1, ''p1'')]) zero_mac 1) \<le> length ''p2''" by code_simp
  moreover have "broadcast_mac \<noteq> zero_mac" by code_simp
  ultimately show ?thesis
    using last_seen_port_wins [of "[]" "''p2''" "[(zero_mac, 1, ''p1'')]" "[(broadcast_mac, 1, ''p1'')]" zero_mac 1 0] by simp
qed

section \<open>Address resolution\<close>

text \<open>
  C30.  Waiting frames.  The frames waiting for address resolution are a multiset that only
  three events change: queueing adds exactly the frame it accepts, an answer releases exactly
  the frames that leave the table, and a timeout drops exactly the frames of the expired
  entries.
\<close>

theorem waiting_frames_conserved:
  "queued (fst (arp_table_resolve_or_queue t now ip n pkt k cb fcb r)) =
     queued t + (case snd (arp_table_resolve_or_queue t now ip n pkt k cb fcb r) of
       Queued _ \<Rightarrow> {#mk_pending pkt k cb fcb#} | _ \<Rightarrow> {#}) \<and>
   queued t = queued (fst (arp_table_learn t now n ip mac ex)) + mset (fst (snd (arp_table_learn t now n ip mac ex))) \<and>
   queued t = queued (fst (collect_arp_pending_actions t now)) + queued (filter (arp_expired now) t)"
proof (intro conjI)
  show "queued (fst (arp_table_resolve_or_queue t now ip n pkt k cb fcb r)) =
     queued t + (case snd (arp_table_resolve_or_queue t now ip n pkt k cb fcb r) of
       Queued _ \<Rightarrow> {#mk_pending pkt k cb fcb#} | _ \<Rightarrow> {#})"
    by (rule resolve_queued) simp
  show "queued t = queued (fst (arp_table_learn t now n ip mac ex)) + mset (fst (snd (arp_table_learn t now n ip mac ex)))"
    by (rule learn_queued [where cs = "snd (snd (arp_table_learn t now n ip mac ex))"]) simp
  show "queued t = queued (fst (collect_arp_pending_actions t now)) + queued (filter (arp_expired now) t)"
    by (rule collect_queued [where rs = "fst (snd (collect_arp_pending_actions t now))"
          and fs = "snd (snd (collect_arp_pending_actions t now))"]) simp
qed

text \<open>
  C31.  Resolution timeouts.  After a maintenance pass every entry still being resolved is
  younger than the pending timeout, and every request that is repeated is at least the second
  and at most the last allowed attempt.
\<close>

theorem resolution_is_bounded:
  assumes "arp_inv t" "collect_arp_pending_actions t now = (t', retries, failures)"
  shows "(\<forall>e\<in>set t'. ae_is_sane e \<longrightarrow> now - ae_created_at e < ARP_PENDING_TIMEOUT) \<and>
    (\<forall>a\<in>set retries. 2 \<le> ra_attempt a \<and> ra_attempt a \<le> ARP_REQUEST_MAX_ATTEMPTS)"
  using collect_timeout [of _ t now] collect_attempts [OF assms(1), of _ now] assms(2) by simp

lemma resolution_is_bounded_witness:
  "ae_requests (hd (fst (collect_arp_pending_actions
     [incomplete_entry zero_ip ''p1'' 0 (mk_pending [0] 1 (Some (RetryRequest 0 [])) None) None] ARP_REQUEST_RETRY_INTERVAL))) = 2"
proof -
  let ?t = "[incomplete_entry zero_ip ''p1'' 0 (mk_pending [0] 1 (Some (RetryRequest 0 [])) None) None]"
  have i: "arp_inv ?t" by (simp add: arp_inv_Cons)
  have c: "collect_arp_pending_actions ?t ARP_REQUEST_RETRY_INTERVAL =
     (map (retried ARP_REQUEST_RETRY_INTERVAL) ?t, map (\<lambda>e. retry_of (retried ARP_REQUEST_RETRY_INTERVAL e)) ?t, [])"
    by code_simp
  from resolution_is_bounded [OF i c] c show ?thesis by code_simp
qed

section \<open>IP and ICMP\<close>

text \<open>
  C32.  IP headers.  A version 4 header without options whose fields fit their widths is
  serialised with a valid checksum and, followed by enough payload, parses back to the same
  header with that checksum.
\<close>

theorem ip_header_roundtrip:
  assumes "plain_header h" "20 \<le> unat (ih_TotalLen h)" "unat (ih_TotalLen h) \<le> 20 + length payload"
  shows "validIPHeaderChecksum (SerializeIPHeader h) \<and>
    DeserializeIPHeader (SerializeIPHeader h @ payload) = Inr (h\<lparr>ih_Checksum := u16_at (SerializeIPHeader h) 10\<rparr>)"
  using Deserialize_Serialize [OF assms] validIPHeaderChecksum_Serialize by simp

lemma ip_header_roundtrip_witness:
  "\<exists>h. DeserializeIPHeader (SerializeIPHeader (InitializeIPHeader\<lparr>ih_TotalLen := 22\<rparr>) @ [1, 2]) = Inr h \<and> ih_TotalLen h = 22"
proof -
  have "plain_header (InitializeIPHeader\<lparr>ih_TotalLen := 22\<rparr>)"
    by (simp add: plain_header_def InitializeIPHeader_def)
  from ip_header_roundtrip [OF this, of "[1, 2]"] show ?thesis by simp
qed

text \<open>
  C33.  Corruption.  Replacing any one byte of a header with a valid checksum by a different
  value is always detected.
\<close>

theorem one_corrupt_byte_is_detected:
  assumes "validIPHeaderChecksum header" "i < length header" "length header \<le> 131068" "b \<noteq> header ! i"
  shows "\<not> validIPHeaderChecksum (header[i := b])"
  by (rule corrupted_byte_detected [OF assms])

lemma one_corrupt_byte_is_detected_witness:
  "\<not> validIPHeaderChecksum ((SerializeIPHeader InitializeIPHeader)[0 := 0])"
proof (rule one_corrupt_byte_is_detected)
  show "validIPHeaderChecksum (SerializeIPHeader InitializeIPHeader)" by (rule validIPHeaderChecksum_Serialize)
  show "0 < length (SerializeIPHeader InitializeIPHeader)" "length (SerializeIPHeader InitializeIPHeader) \<le> 131068"
    by (simp_all add: frame_lens)
  show "0 \<noteq> SerializeIPHeader InitializeIPHeader ! 0"
    by (simp add: nth_SerializeIPHeader InitializeIPHeader_def)
qed



text \<open>
  C35.  A lost destination.  When the datagram an error is about is longer than what the error
  quotes of it (its header and eight bytes), the receiver records the report with an empty
  original destination: the quoted header is refused because its total length exceeds the quote.
\<close>

theorem long_datagrams_lose_their_destination:
  assumes "DeserializeIPHeader p = Inr h" "quote_length p < unat (ih_TotalLen h)"
  shows "nd_icmp_errors (fst (handleICMPError ipHdr (buildICMPError p t c) node)) =
    nd_icmp_errors node @ [\<lparr>ie_Type = t, ie_Code = c, ie_Reason = icmpMessageName t c,
      ie_ReporterIP = IPUint32ToString (ih_SrcIP ipHdr), ie_OriginalDstIP = []\<rparr>]"
  by (rule error_report_without_destination [OF assms])

lemma long_datagrams_lose_their_destination_witness:
  "\<exists>p. ie_OriginalDstIP (last (nd_icmp_errors (fst (handleICMPError InitializeIPHeader (buildICMPError p 11 0) (new_node ''h''))))) = []"
proof -
  let ?h = "InitializeIPHeader\<lparr>ih_TotalLen := 60\<rparr>"
  let ?p = "SerializeIPHeader ?h @ replicate 40 0"
  have "DeserializeIPHeader ?p = Inr (?h\<lparr>ih_Checksum := u16_at (SerializeIPHeader ?h) 10\<rparr>)"
    by (rule Deserialize_Serialize) (simp_all add: plain_header_def InitializeIPHeader_def)
  note d = this
  have "quote_length ?p < unat (ih_TotalLen (?h\<lparr>ih_Checksum := u16_at (SerializeIPHeader ?h) 10\<rparr>))"
    by (simp add: quote_length_def nth_append nth_SerializeIPHeader frame_lens InitializeIPHeader_def Let_def)
  note long_datagrams_lose_their_destination [OF d this, of InitializeIPHeader 11 0 "new_node ''h''"]
  then show ?thesis by (intro exI [of _ ?p]) simp
qed

section \<open>Routing\<close>

text \<open>
  C36.  Longest prefix match.  LookupLPM returns a route of the table whose network holds the
  destination and that no other such route beats (longer prefix, then lower administrative
  distance, then lower metric); it returns none exactly when no route matches.
\<close>

theorem longest_prefix_match:
  "case LookupLPM rt d of
     None \<Rightarrow> \<not> list_ex (matches d) rt
   | Some b \<Rightarrow> b \<in> set rt \<and> matches d b \<and> \<not> list_ex (\<lambda>r. matches d r \<and> better r b) rt"
  using LookupLPM_ok [of d rt] by (auto simp: lpm_ok_def list_ex_iff split: option.splits)

text \<open>
  C37.  The routing table is a map.  Seen as a map from network, mask and source to routes,
  adding a valid route overwrites exactly its key, deleting one clears exactly its key, and both
  keep the table free of duplicates and its routes well formed.
\<close>

theorem routing_table_is_a_map:
  assumes "rt_inv rt" "ApplyMask dest m = Inr n" "g = [] \<or> (\<exists>w. g = IPUint32ToString w)"
  shows "rt_inv (fst (AddRouteWithParams rt dest m g oif s ad mt)) \<and>
    rt_map (fst (AddRouteWithParams rt dest m g oif s ad mt)) = (rt_map rt)((n, m, s) \<mapsto> mk_route n m g oif s ad mt) \<and>
    rt_inv (fst (DeleteRouteFromSource rt dest m s)) \<and>
    rt_map (fst (DeleteRouteFromSource rt dest m s)) = (rt_map rt)((n, m, s) := None)"
  using rt_inv_add [OF assms(1), of dest m g oif s ad mt] DeleteRouteFromSource_spec [OF assms(1,2), of s]
  by (auto simp: AddRouteWithParams_ok [OF assms(2,3)] rt_map_add_loop)

lemma routing_table_is_a_map_witness:
  "rt_map (fst (DeleteRouteFromSource [] (IPUint32ToString 0) 0 ROUTE_SOURCE_STATIC)) = Map.empty"
proof -
  have a: "ApplyMask (IPUint32ToString 0) 0 = Inr (IPUint32ToString 0)"
    using ApplyMask_IPUint32ToString [of 0 0] by simp
  have "rt_inv []" by (simp add: rt_inv_def)
  from routing_table_is_a_map [OF this a, of "[]" "[]" ROUTE_SOURCE_STATIC 1 0] show ?thesis
    by (auto simp: rt_map_def)
qed

text \<open>
  C38.  RIP and the routing table.  Processing any RIP packet from any neighbour keeps the
  invariant of the protocol: unique prefixes, metrics at most 16, expired exactly at 16, and the
  RIP part of the routing table holds exactly the live routes.
\<close>

theorem rip_keeps_routing_table_in_step:
  assumes "rip_inv (rip_routes rip) rt"
  shows "rip_inv (rip_routes (ro_state (ProcessRIPPacket rip rt now pkt (IPUint32ToString g) intf)))
    (ro_rt (ProcessRIPPacket rip rt now pkt (IPUint32ToString g) intf))"
  by (rule rip_inv_ProcessRIPPacket [OF assms])

lemma rip_keeps_routing_table_in_step_witness:
  "rt_inv (ro_rt (ProcessRIPPacket InitRIPState InitRoutingTable 0 \<lparr>rp_Command = 2, rp_Version = 2, rp_Zero = 0,
     rp_Entries = [mk_rip_entry 0x0A000000 0xFF000000 1]\<rparr> (IPUint32ToString 1) ''eth0''))"
proof -
  have "rip_inv (rip_routes InitRIPState) InitRoutingTable"
    using node_ok_new [of "''a''"] by (simp add: node_ok_def new_node_def)
  from rip_keeps_routing_table_in_step [OF this] show ?thesis unfolding rip_inv_def by blast
qed

section \<open>Discovery and addresses\<close>

text \<open>
  C39.  LLDP data units.  Whenever serialisation succeeds (identifiers of 1 to 255 bytes and the
  other limits), the data unit parses back to itself even with padding after the End TLV.
\<close>

theorem lldp_unit_roundtrip:
  assumes "serializeLLDPDU du = Inr p"
  shows "deserializeLLDPDU (p @ pad) = Inr du"
  by (rule deserialize_serializeLLDPDU [OF assms])

lemma lldp_unit_roundtrip_witness:
  "\<exists>p. serializeLLDPDU (buildLLDPDU sample_switch (sample_port ''p1'' 0 1) 120) = Inr p \<and>
     deserializeLLDPDU (p @ [0, 0]) = Inr (buildLLDPDU sample_switch (sample_port ''p1'' 0 1) 120)"
proof -
  have "case serializeLLDPDU (buildLLDPDU sample_switch (sample_port ''p1'' 0 1) 120) of Inl _ \<Rightarrow> False | Inr _ \<Rightarrow> True"
    by code_simp
  then obtain p where "serializeLLDPDU (buildLLDPDU sample_switch (sample_port ''p1'' 0 1) 120) = Inr p"
    by (auto split: sum.splits)
  from lldp_unit_roundtrip [OF this] this show ?thesis by blast
qed

text \<open>
  C40.  Addresses as text.  The hand-written parser accepts exactly the strings the printer
  produces: canonical dotted quads without leading zeros, each for its own address.
\<close>

theorem dotted_quads_parse_exactly:
  "parseIPv4 s = Some ip \<longleftrightarrow> s = ip_string ip"
  by (rule parseIPv4_iff)

end
